(* ===== verification/Prelude.thy ===== *)
theory Prelude
  imports Main "HOL-Library.Word" "HOL-Library.Sublist" "HOL-Library.Char_ord"
begin

text \<open>
  Shared vocabulary of the development: the types the components exchange (bytes, code
  points), the classification functions of the C locale that the narrow parsers rely on,
  the collections of facts that the component proofs use, and generic lemmas on lists.
\<close>

named_theorems uri_defs \<open>definitions of the grammar rules of foxy::uri\<close>
named_theorems unicode_defs \<open>definitions of the grammar rules of foxy::uri::unicode\<close>

type_synonym u32 = "32 word"

text \<open>
  The code point of a narrow character (\<open>char\<close> is the byte type of the source, read as a
  value between 0 and 255).
\<close>

definition cp :: "char \<Rightarrow> u32" where
  "cp c = word_of_nat (of_char c)"

text \<open>The C locale's \<open>isdigit\<close>, \<open>isalpha\<close>, \<open>isxdigit\<close> and \<open>tolower\<close>, on bytes.\<close>

definition std_isdigit :: "char \<Rightarrow> bool" where
  "std_isdigit c = (CHR ''0'' \<le> c \<and> c \<le> CHR ''9'')"

definition std_isalpha :: "char \<Rightarrow> bool" where
  "std_isalpha c = (CHR ''A'' \<le> c \<and> c \<le> CHR ''Z'' \<or> CHR ''a'' \<le> c \<and> c \<le> CHR ''z'')"

definition std_isxdigit :: "char \<Rightarrow> bool" where
  "std_isxdigit c = (std_isdigit c \<or> CHR ''a'' \<le> c \<and> c \<le> CHR ''f'' \<or> CHR ''A'' \<le> c \<and> c \<le> CHR ''F'')"

definition std_tolower :: "char \<Rightarrow> char" where
  "std_tolower c = (if CHR ''A'' \<le> c \<and> c \<le> CHR ''Z'' then char_of (of_char c + 32 :: nat) else c)"

subsection \<open>Characters and code points\<close>

lemma of_char_less_256 [simp]: "of_char c < (256 :: nat)"
proof -
  have "of_char c mod (256 :: nat) = of_char c"
    by simp
  moreover have "of_char c mod (256 :: nat) < 256"
    by simp
  ultimately show ?thesis
    by simp
qed

lemma unat_cp [simp]: "unat (cp c) = of_char c"
  using less_trans [OF of_char_less_256 [of c], of "2 ^ 32"]
  by (simp add: cp_def unat_of_nat del: of_char_less_256)

lemma cp_eq_iff [simp]: "cp c = cp d \<longleftrightarrow> c = d"
  by (metis of_char_eq_iff unat_cp)

lemma cp_le_iff [simp]: "cp c \<le> cp d \<longleftrightarrow> c \<le> d"
  by (simp add: word_le_nat_alt less_eq_char_def)

lemma inj_cp [simp]: "inj cp"
  by (simp add: inj_def)

lemma map_cp_eq_iff [simp]: "map cp xs = map cp ys \<longleftrightarrow> xs = ys"
  by (simp add: inj_map_eq_map)

subsection \<open>Prefixes and suffixes of lists\<close>

lemma take_length_diff [simp]: "take (length (xs @ r) - length r) (xs @ r) = xs"
  by simp

lemma suffix_take_eq: "suffix r s \<Longrightarrow> take (length s - length r) s @ r = s"
  by (auto elim!: suffixE)

lemma prefix_map_cp [simp]: "prefix (map cp l) (map cp s) \<longleftrightarrow> prefix l s"
proof
  assume "prefix (map cp l) (map cp s)"
  then have "map cp l = map cp (take (length l) s)"
    by (metis length_map prefix_length_prefix take_is_prefix take_map prefix_order.order_refl
        append_eq_conv_conj prefix_def)
  then have "l = take (length l) s"
    by (simp only: map_cp_eq_iff)
  then show "prefix l s"
    by (metis take_is_prefix)
qed (auto simp: prefix_def)

end
