(* ===== verification/X3.thy ===== *)
theory X3
  imports Prelude
begin

text \<open>
  The parsers of the program are expressions of Boost.Spirit.X3. An expression is a value
  of the datatype below, one constructor per operator or directive the source uses, so the
  grammar rules of the source are transcribed as terms. X3 itself is not part of the
  program: what an expression does is a parameter \<open>run\<close>, and the locale \<open>x3_lib\<close> states
  the documented behaviour of every operator, as a parsing expression grammar with ordered
  choice, greedy loops and no backtracking into a loop. The reference interpreter \<open>x3_ref\<close>
  satisfies these laws, and every \<open>run\<close> that satisfies them agrees with it on expressions
  whose loops consume input (\<open>run_eq_ref\<close>).
\<close>

datatype ('c, 'f) x3 =
    CharSet "'c list"                     \<comment> \<open>\<open>char_("...")\<close>, with its definition string\<close>
  | Lit "'c list"                         \<comment> \<open>\<open>lit("...")\<close> or a string literal\<close>
  | Chr 'c                                \<comment> \<open>a character literal or \<open>char_('c')\<close>\<close>
  | AnyChar                               \<comment> \<open>\<open>char_\<close>\<close>
  | AlphaC | DigitC | XDigitC             \<comment> \<open>\<open>alpha\<close>, \<open>digit\<close>, \<open>xdigit\<close>\<close>
  | Seq "('c, 'f) x3" "('c, 'f) x3"       \<comment> \<open>\<open>a >> b\<close>\<close>
  | Alt "('c, 'f) x3" "('c, 'f) x3"       \<comment> \<open>\<open>a | b\<close>\<close>
  | Diff "('c, 'f) x3" "('c, 'f) x3"      \<comment> \<open>\<open>a - b\<close>\<close>
  | Kleene "('c, 'f) x3"                  \<comment> \<open>\<open>*a\<close>\<close>
  | Plus "('c, 'f) x3"                    \<comment> \<open>\<open>+a\<close>\<close>
  | Opt "('c, 'f) x3"                     \<comment> \<open>\<open>-a\<close>\<close>
  | Repeat nat nat "('c, 'f) x3"          \<comment> \<open>\<open>repeat(n, m)[a]\<close>; \<open>repeat(n)[a]\<close> is \<open>Repeat n n\<close>\<close>
  | NoCase "('c, 'f) x3"                  \<comment> \<open>\<open>no_case[a]\<close>\<close>
  | Raw "('c, 'f) x3"                     \<comment> \<open>\<open>foxy::uri::raw[a]\<close>\<close>
  | Act "('c, 'f) x3" 'f                  \<comment> \<open>\<open>a[f]\<close>, a semantic action\<close>

text \<open>
  An expression runs on the remaining input and on the attribute (the string view that a
  parse assigns, or the sink that semantic actions write). It answers with the input left
  after a match, or \<open>None\<close>, and with the attribute, which keeps what was written to it even
  when the match fails. A semantic action receives the matched text.
\<close>

type_synonym 'c action = "'c list \<Rightarrow> 'c list \<Rightarrow> 'c list"
type_synonym 'c parser = "('c, 'c action) x3"
type_synonym 'c result = "'c list option \<times> 'c list"
type_synonym 'c x3_run = "'c parser \<Rightarrow> 'c list \<Rightarrow> 'c list \<Rightarrow> 'c result"

text \<open>What X3 takes from the character encoding of a parser.\<close>

record 'c encoding =
  enc_dash :: 'c
  enc_alpha :: "'c \<Rightarrow> bool"
  enc_digit :: "'c \<Rightarrow> bool"
  enc_xdigit :: "'c \<Rightarrow> bool"
  enc_lower :: "'c \<Rightarrow> 'c"

text \<open>
  The definition string of a character set: \<open>a-z\<close> is a range, a dash in first or last place
  is a dash. The end of a range is read again as the start of the next item.
\<close>

fun chset_ranges :: "'c \<Rightarrow> 'c list \<Rightarrow> ('c \<times> 'c) list" where
  "chset_ranges dash [] = []"
| "chset_ranges dash [c] = [(c, c)]"
| "chset_ranges dash [c, n] = [(c, c), (n, n)]"
| "chset_ranges dash (c # n # m # r) =
     (if n = dash then (c, m) # chset_ranges dash (m # r) else (c, c) # chset_ranges dash (n # m # r))"

definition chset_mem :: "('c :: linorder) encoding \<Rightarrow> 'c list \<Rightarrow> 'c \<Rightarrow> bool" where
  "chset_mem enc d x = list_ex (\<lambda>(lo, hi). lo \<le> x \<and> x \<le> hi) (chset_ranges (enc_dash enc) d)"

text \<open>
  \<open>raw_directive::parse\<close> of the source: the subject is parsed without an attribute, and a
  match assigns the view from the saved to the reached position.
\<close>

definition raw_directive_parse ::
  "('c list \<Rightarrow> 'c list \<Rightarrow> 'c result) \<Rightarrow> 'c list \<Rightarrow> 'c list \<Rightarrow> 'c result" where
  "raw_directive_parse subject first attr =
     (case subject first attr of
        (Some rest, _) \<Rightarrow> (Some rest, take (length first - length rest) first)
      | (None, _) \<Rightarrow> (None, attr))"

text \<open>One character of the input, by a test.\<close>

definition one_char :: "('c \<Rightarrow> bool) \<Rightarrow> 'c list \<Rightarrow> 'c list \<Rightarrow> 'c result" where
  "one_char P s a = (case s of [] \<Rightarrow> (None, a) | c # r \<Rightarrow> (if P c then Some r else None, a))"

text \<open>
  Expressions that contain neither a \<open>raw\<close> directive nor a semantic action, and literals
  that the \<open>no_case\<close> directive compares after folding the input.
\<close>

primrec attr_free :: "('c, 'f) x3 \<Rightarrow> bool" where
  "attr_free (CharSet d) = True"
| "attr_free (Lit l) = True"
| "attr_free (Chr c) = True"
| "attr_free AnyChar = True"
| "attr_free AlphaC = True"
| "attr_free DigitC = True"
| "attr_free XDigitC = True"
| "attr_free (Seq p q) = (attr_free p \<and> attr_free q)"
| "attr_free (Alt p q) = (attr_free p \<and> attr_free q)"
| "attr_free (Diff p q) = (attr_free p \<and> attr_free q)"
| "attr_free (Kleene p) = attr_free p"
| "attr_free (Plus p) = attr_free p"
| "attr_free (Opt p) = attr_free p"
| "attr_free (Repeat n m p) = attr_free p"
| "attr_free (NoCase p) = attr_free p"
| "attr_free (Raw p) = False"
| "attr_free (Act p f) = False"

primrec folded :: "'c encoding \<Rightarrow> ('c, 'f) x3 \<Rightarrow> bool" where
  "folded enc (CharSet d) = False"
| "folded enc (Lit l) = (map (enc_lower enc) l = l)"
| "folded enc (Chr c) = (enc_lower enc c = c)"
| "folded enc AnyChar = True"
| "folded enc AlphaC = True"
| "folded enc DigitC = True"
| "folded enc XDigitC = True"
| "folded enc (Seq p q) = (folded enc p \<and> folded enc q)"
| "folded enc (Alt p q) = (folded enc p \<and> folded enc q)"
| "folded enc (Diff p q) = (folded enc p \<and> folded enc q)"
| "folded enc (Kleene p) = folded enc p"
| "folded enc (Plus p) = folded enc p"
| "folded enc (Opt p) = folded enc p"
| "folded enc (Repeat n m p) = folded enc p"
| "folded enc (NoCase p) = folded enc p"
| "folded enc (Raw p) = folded enc p"
| "folded enc (Act p f) = folded enc p"

subsection \<open>The documented behaviour of the operators\<close>

locale x3_lib =
  fixes enc :: "('c :: linorder) encoding"
    and run :: "'c x3_run"
  assumes run_char_set: "run (CharSet d) s a = one_char (chset_mem enc d) s a"
    and run_lit: "run (Lit l) s a = (if prefix l s then Some (drop (length l) s) else None, a)"
    and run_chr: "run (Chr c) s a = one_char ((=) c) s a"
    and run_any: "run AnyChar s a = one_char (\<lambda>_. True) s a"
    and run_alpha: "run AlphaC s a = one_char (enc_alpha enc) s a"
    and run_digit: "run DigitC s a = one_char (enc_digit enc) s a"
    and run_xdigit: "run XDigitC s a = one_char (enc_xdigit enc) s a"
    and run_seq: "run (Seq p q) s a =
          (case run p s a of (None, a') \<Rightarrow> (None, a') | (Some r, a') \<Rightarrow> run q r a')"
    and run_alt: "run (Alt p q) s a =
          (case run p s a of (None, a') \<Rightarrow> run q s a' | (Some r, a') \<Rightarrow> (Some r, a'))"
    and run_diff: "run (Diff p q) s a =
          (case run q s a of (None, a') \<Rightarrow> run p s a' | (Some r, a') \<Rightarrow> (None, a'))"
    and run_kleene_stop: "run p s a = (None, a') \<Longrightarrow> run (Kleene p) s a = (Some s, a')"
    and run_kleene_step: "run p s a = (Some r, a') \<Longrightarrow> length r < length s \<Longrightarrow>
          run (Kleene p) s a = run (Kleene p) r a'"
    and run_plus: "run (Plus p) s a =
          (case run p s a of (None, a') \<Rightarrow> (None, a') | (Some r, a') \<Rightarrow> run (Kleene p) r a')"
    and run_opt: "run (Opt p) s a =
          (case run p s a of (None, a') \<Rightarrow> (Some s, a') | (Some r, a') \<Rightarrow> (Some r, a'))"
    and run_repeat_min: "run (Repeat (Suc n) m p) s a =
          (case run p s a of (None, a') \<Rightarrow> (None, a') | (Some r, a') \<Rightarrow> run (Repeat n (m - 1) p) r a')"
    and run_repeat_max: "run (Repeat 0 (Suc m) p) s a =
          (case run p s a of (None, a') \<Rightarrow> (Some s, a') | (Some r, a') \<Rightarrow> run (Repeat 0 m p) r a')"
    and run_repeat_done: "run (Repeat 0 0 p) s a = (Some s, a)"
    and run_no_case: "attr_free p \<Longrightarrow> folded enc p \<Longrightarrow> run (NoCase p) s a =
          (case run p (map (enc_lower enc) s) a of
             (None, a') \<Rightarrow> (None, a')
           | (Some r, a') \<Rightarrow> (Some (drop (length s - length r) s), a'))"
    and run_raw: "run (Raw p) s a = raw_directive_parse (run p) s a"
    and run_act: "run (Act p f) s a =
          (case run p s a of
             (None, a') \<Rightarrow> (None, a')
           | (Some r, a') \<Rightarrow> (Some r, f (take (length s - length r) s) a'))"

subsection \<open>A reference interpreter\<close>

text \<open>
  The loop of \<open>*a\<close>. X3 does not return when the subject matches the empty input for ever;
  the reference stops there, and the laws say nothing about it.
\<close>

function x3_loop :: "('c list \<Rightarrow> 'c list \<Rightarrow> 'c result) \<Rightarrow> 'c list \<Rightarrow> 'c list \<Rightarrow> 'c result" where
  "x3_loop f s a =
     (case f s a of
        (None, a') \<Rightarrow> (Some s, a')
      | (Some r, a') \<Rightarrow> if length r < length s then x3_loop f r a' else (Some r, a'))"
  by pat_completeness auto
termination
  by (relation "measure (\<lambda>(f, s, a). length s)") auto

declare x3_loop.simps [simp del]

fun x3_repeat :: "('c list \<Rightarrow> 'c list \<Rightarrow> 'c result) \<Rightarrow> nat \<Rightarrow> nat \<Rightarrow> 'c list \<Rightarrow> 'c list \<Rightarrow> 'c result" where
  "x3_repeat f (Suc n) m s a =
     (case f s a of (None, a') \<Rightarrow> (None, a') | (Some r, a') \<Rightarrow> x3_repeat f n (m - 1) r a')"
| "x3_repeat f 0 (Suc m) s a =
     (case f s a of (None, a') \<Rightarrow> (Some s, a') | (Some r, a') \<Rightarrow> x3_repeat f 0 m r a')"
| "x3_repeat f 0 0 s a = (Some s, a)"

primrec x3_ref :: "('c :: linorder) encoding \<Rightarrow> 'c x3_run" where
  "x3_ref enc (CharSet d) = one_char (chset_mem enc d)"
| "x3_ref enc (Lit l) = (\<lambda>s a. (if prefix l s then Some (drop (length l) s) else None, a))"
| "x3_ref enc (Chr c) = one_char ((=) c)"
| "x3_ref enc AnyChar = one_char (\<lambda>_. True)"
| "x3_ref enc AlphaC = one_char (enc_alpha enc)"
| "x3_ref enc DigitC = one_char (enc_digit enc)"
| "x3_ref enc XDigitC = one_char (enc_xdigit enc)"
| "x3_ref enc (Seq p q) = (\<lambda>s a.
     case x3_ref enc p s a of (None, a') \<Rightarrow> (None, a') | (Some r, a') \<Rightarrow> x3_ref enc q r a')"
| "x3_ref enc (Alt p q) = (\<lambda>s a.
     case x3_ref enc p s a of (None, a') \<Rightarrow> x3_ref enc q s a' | (Some r, a') \<Rightarrow> (Some r, a'))"
| "x3_ref enc (Diff p q) = (\<lambda>s a.
     case x3_ref enc q s a of (None, a') \<Rightarrow> x3_ref enc p s a' | (Some r, a') \<Rightarrow> (None, a'))"
| "x3_ref enc (Kleene p) = x3_loop (x3_ref enc p)"
| "x3_ref enc (Plus p) = (\<lambda>s a.
     case x3_ref enc p s a of (None, a') \<Rightarrow> (None, a') | (Some r, a') \<Rightarrow> x3_loop (x3_ref enc p) r a')"
| "x3_ref enc (Opt p) = (\<lambda>s a.
     case x3_ref enc p s a of (None, a') \<Rightarrow> (Some s, a') | (Some r, a') \<Rightarrow> (Some r, a'))"
| "x3_ref enc (Repeat n m p) = x3_repeat (x3_ref enc p) n m"
| "x3_ref enc (NoCase p) = (\<lambda>s a.
     case x3_ref enc p (map (enc_lower enc) s) a of
       (None, a') \<Rightarrow> (None, a')
     | (Some r, a') \<Rightarrow> (Some (drop (length s - length r) s), a'))"
| "x3_ref enc (Raw p) = raw_directive_parse (x3_ref enc p)"
| "x3_ref enc (Act p f) = (\<lambda>s a.
     case x3_ref enc p s a of
       (None, a') \<Rightarrow> (None, a')
     | (Some r, a') \<Rightarrow> (Some r, f (take (length s - length r) s) a'))"

interpretation ref: x3_lib enc "x3_ref enc" for enc :: "('c :: linorder) encoding"
proof unfold_locales
  fix p :: "'c parser" and s r a a' :: "'c list"
  assume "x3_ref enc p s a = (None, a')"
  then show "x3_ref enc (Kleene p) s a = (Some s, a')"
    by (simp add: x3_loop.simps [of "x3_ref enc p" s a])
next
  fix p :: "'c parser" and s r a a' :: "'c list"
  assume "x3_ref enc p s a = (Some r, a')" and "length r < length s"
  then show "x3_ref enc (Kleene p) s a = x3_ref enc (Kleene p) r a'"
    by (simp add: x3_loop.simps [of "x3_ref enc p" s a])
qed (simp_all split: prod.split option.split)

subsection \<open>Recognition\<close>

text \<open>
  Control flow never depends on the attribute. \<open>match\<close> is the recogniser of an expression:
  the input left after a match.
\<close>

function match_loop :: "('c list \<Rightarrow> 'c list option) \<Rightarrow> 'c list \<Rightarrow> 'c list" where
  "match_loop f s =
     (case f s of None \<Rightarrow> s | Some r \<Rightarrow> if length r < length s then match_loop f r else r)"
  by pat_completeness auto
termination
  by (relation "measure (\<lambda>(f, s). length s)") auto

declare match_loop.simps [simp del]

fun match_repeat :: "('c list \<Rightarrow> 'c list option) \<Rightarrow> nat \<Rightarrow> nat \<Rightarrow> 'c list \<Rightarrow> 'c list option" where
  "match_repeat f (Suc n) m s = (case f s of None \<Rightarrow> None | Some r \<Rightarrow> match_repeat f n (m - 1) r)"
| "match_repeat f 0 (Suc m) s = (case f s of None \<Rightarrow> Some s | Some r \<Rightarrow> match_repeat f 0 m r)"
| "match_repeat f 0 0 s = Some s"

definition match_one :: "('c \<Rightarrow> bool) \<Rightarrow> 'c list \<Rightarrow> 'c list option" where
  "match_one P s = (case s of [] \<Rightarrow> None | c # r \<Rightarrow> if P c then Some r else None)"

primrec match :: "('c :: linorder) encoding \<Rightarrow> ('c, 'f) x3 \<Rightarrow> 'c list \<Rightarrow> 'c list option" where
  "match enc (CharSet d) = match_one (chset_mem enc d)"
| "match enc (Lit l) = (\<lambda>s. if prefix l s then Some (drop (length l) s) else None)"
| "match enc (Chr c) = match_one ((=) c)"
| "match enc AnyChar = match_one (\<lambda>_. True)"
| "match enc AlphaC = match_one (enc_alpha enc)"
| "match enc DigitC = match_one (enc_digit enc)"
| "match enc XDigitC = match_one (enc_xdigit enc)"
| "match enc (Seq p q) = (\<lambda>s. case match enc p s of None \<Rightarrow> None | Some r \<Rightarrow> match enc q r)"
| "match enc (Alt p q) = (\<lambda>s. case match enc p s of None \<Rightarrow> match enc q s | Some r \<Rightarrow> Some r)"
| "match enc (Diff p q) = (\<lambda>s. case match enc q s of None \<Rightarrow> match enc p s | Some r \<Rightarrow> None)"
| "match enc (Kleene p) = (\<lambda>s. Some (match_loop (match enc p) s))"
| "match enc (Plus p) =
     (\<lambda>s. case match enc p s of None \<Rightarrow> None | Some r \<Rightarrow> Some (match_loop (match enc p) r))"
| "match enc (Opt p) = (\<lambda>s. case match enc p s of None \<Rightarrow> Some s | Some r \<Rightarrow> Some r)"
| "match enc (Repeat n m p) = match_repeat (match enc p) n m"
| "match enc (NoCase p) =
     (\<lambda>s. map_option (\<lambda>r. drop (length s - length r) s) (match enc p (map (enc_lower enc) s)))"
| "match enc (Raw p) = match enc p"
| "match enc (Act p f) = match enc p"

lemma match_one_simps [simp]:
  "match_one P [] = None"
  "match_one P (c # r) = (if P c then Some r else None)"
  by (simp_all add: match_one_def)

lemma fst_one_char [simp]: "fst (one_char P s a) = match_one P s"
  and snd_one_char [simp]: "snd (one_char P s a) = a"
  by (simp_all add: one_char_def match_one_def split: list.split)

lemma fst_case_result:
  "fst (case x of (None, a) \<Rightarrow> f a | (Some r, a) \<Rightarrow> g r a) =
     (case fst x of None \<Rightarrow> fst (f (snd x)) | Some r \<Rightarrow> fst (g r (snd x)))"
  by (simp split: prod.split option.split)

lemma snd_case_result:
  "snd (case x of (None, a) \<Rightarrow> f a | (Some r, a) \<Rightarrow> g r a) =
     (case fst x of None \<Rightarrow> snd (f (snd x)) | Some r \<Rightarrow> snd (g r (snd x)))"
  by (simp split: prod.split option.split)

lemma fst_raw_directive_parse [simp]:
    "fst (raw_directive_parse f s a) = fst (f s a)"
  and snd_raw_directive_parse:
    "snd (raw_directive_parse f s a) =
       (case fst (f s a) of None \<Rightarrow> a | Some r \<Rightarrow> take (length s - length r) s)"
  by (simp_all add: raw_directive_parse_def split: prod.split option.split)

lemma x3_loop_match:
  assumes f: "\<And>s a. fst (f s a) = g s"
  shows "fst (x3_loop f s a) = Some (match_loop g s)"
proof (induction s arbitrary: a rule: length_induct)
  case (1 s)
  then show ?case
    by (simp add: x3_loop.simps [of f s a] match_loop.simps [of g s] fst_case_result f
        split: option.split)
qed

lemma x3_repeat_match:
  assumes f: "\<And>s a. fst (f s a) = g s"
  shows "fst (x3_repeat f n m s a) = match_repeat g n m s"
proof (induction n arbitrary: m s a)
  case 0
  show ?case
    by (induction m arbitrary: s a) (simp_all add: fst_case_result f split: option.split)
next
  case (Suc n)
  then show ?case
    by (simp add: fst_case_result f split: option.split)
qed

lemma x3_ref_match [simp]: "fst (x3_ref enc p s a) = match enc p s"
  by (induction p arbitrary: s a)
     (simp_all add: x3_loop_match x3_repeat_match fst_case_result split: option.split)

text \<open>An expression without directives and actions leaves the attribute alone.\<close>

lemma x3_loop_attr:
  assumes f: "\<And>s a. snd (f s a) = a"
  shows "snd (x3_loop f s a) = a"
proof (induction s arbitrary: a rule: length_induct)
  case (1 s)
  then show ?case
    by (simp add: x3_loop.simps [of f s a] snd_case_result f split: option.split)
qed

lemma x3_repeat_attr:
  assumes f: "\<And>s a. snd (f s a) = a"
  shows "snd (x3_repeat f n m s a) = a"
proof (induction n arbitrary: m s a)
  case 0
  show ?case
    by (induction m arbitrary: s a) (simp_all add: snd_case_result f split: option.split)
next
  case (Suc n)
  then show ?case
    by (simp add: snd_case_result f split: option.split)
qed

lemma x3_ref_attr: "attr_free p \<Longrightarrow> snd (x3_ref enc p s a) = a"
  by (induction p arbitrary: s a)
     (simp_all add: x3_loop_attr x3_repeat_attr snd_case_result split: option.split)

lemma x3_ref_attr_free: "attr_free p \<Longrightarrow> x3_ref enc p s a = (match enc p s, a)"
  by (rule prod_eqI) (simp_all add: x3_ref_attr)

subsection \<open>Progress\<close>

text \<open>
  A match leaves a suffix of the input, and an expression that cannot match the empty input
  leaves a shorter one. \<open>x3_ok\<close> says that every loop of an expression makes progress.
\<close>

primrec consumes :: "('c, 'f) x3 \<Rightarrow> bool" where
  "consumes (CharSet d) = True"
| "consumes (Lit l) = (l \<noteq> [])"
| "consumes (Chr c) = True"
| "consumes AnyChar = True"
| "consumes AlphaC = True"
| "consumes DigitC = True"
| "consumes XDigitC = True"
| "consumes (Seq p q) = (consumes p \<or> consumes q)"
| "consumes (Alt p q) = (consumes p \<and> consumes q)"
| "consumes (Diff p q) = consumes p"
| "consumes (Kleene p) = False"
| "consumes (Plus p) = consumes p"
| "consumes (Opt p) = False"
| "consumes (Repeat n m p) = (0 < n \<and> consumes p)"
| "consumes (NoCase p) = consumes p"
| "consumes (Raw p) = consumes p"
| "consumes (Act p f) = consumes p"

primrec x3_ok :: "'c encoding \<Rightarrow> ('c, 'f) x3 \<Rightarrow> bool" where
  "x3_ok enc (CharSet d) = True"
| "x3_ok enc (Lit l) = True"
| "x3_ok enc (Chr c) = True"
| "x3_ok enc AnyChar = True"
| "x3_ok enc AlphaC = True"
| "x3_ok enc DigitC = True"
| "x3_ok enc XDigitC = True"
| "x3_ok enc (Seq p q) = (x3_ok enc p \<and> x3_ok enc q)"
| "x3_ok enc (Alt p q) = (x3_ok enc p \<and> x3_ok enc q)"
| "x3_ok enc (Diff p q) = (x3_ok enc p \<and> x3_ok enc q)"
| "x3_ok enc (Kleene p) = (consumes p \<and> x3_ok enc p)"
| "x3_ok enc (Plus p) = (consumes p \<and> x3_ok enc p)"
| "x3_ok enc (Opt p) = x3_ok enc p"
| "x3_ok enc (Repeat n m p) = x3_ok enc p"
| "x3_ok enc (NoCase p) = (attr_free p \<and> folded enc p \<and> x3_ok enc p)"
| "x3_ok enc (Raw p) = x3_ok enc p"
| "x3_ok enc (Act p f) = x3_ok enc p"

lemma match_one_suffix: "match_one P s = Some r \<Longrightarrow> \<exists>c. s = c # r \<and> P c"
  by (cases s) (auto split: if_splits)

lemma match_loop_suffix:
  assumes "\<And>s r. f s = Some r \<Longrightarrow> suffix r s"
  shows "suffix (match_loop f s) s"
proof (induction s rule: length_induct)
  case (1 s)
  show ?case
    using 1 assms
    by (subst match_loop.simps) (auto split: option.split intro: suffix_order.order_trans)
qed

lemma match_repeat_suffix:
  assumes f: "\<And>s r. f s = Some r \<Longrightarrow> suffix r s"
  shows "match_repeat f n m s = Some r \<Longrightarrow> suffix r s"
proof (induction n arbitrary: m s)
  case 0
  then show ?case
    by (induction m arbitrary: s) (auto split: option.splits dest: f intro: suffix_order.order_trans)
next
  case (Suc n)
  then show ?case
    by (auto split: option.splits dest: f intro: suffix_order.order_trans)
qed

lemma match_suffix: "match enc p s = Some r \<Longrightarrow> suffix r s"
proof (induction p arbitrary: s r)
  case (Seq p q)
  then show ?case
    by (auto split: option.splits) (meson suffix_order.order_trans)
next
  case (Kleene p)
  then show ?case
    using match_loop_suffix [of "match enc p"] by auto
next
  case (Plus p)
  then show ?case
    using match_loop_suffix [of "match enc p"]
    by (auto split: option.splits intro: suffix_order.order_trans)
next
  case (Repeat n m p)
  then show ?case
    using match_repeat_suffix [of "match enc p"] by simp
qed (auto split: option.splits if_splits dest!: match_one_suffix
      simp: suffix_drop suffix_Cons intro: suffix_order.order_trans)

lemma match_take: "match enc p s = Some r \<Longrightarrow> s = take (length s - length r) s @ r"
  by (simp add: match_suffix suffix_take_eq)

lemma match_length: "match enc p s = Some r \<Longrightarrow> length r \<le> length s"
  by (rule suffix_length_le [OF match_suffix])

lemma match_consumes: "match enc p s = Some r \<Longrightarrow> consumes p \<Longrightarrow> length r < length s"
proof (induction p arbitrary: s r)
  case (Seq p q)
  then show ?case
    by (fastforce split: option.splits dest: match_length)
next
  case (Plus p)
  then obtain t where "match enc p s = Some t" and "match enc (Kleene p) t = Some r"
    by (auto split: option.splits)
  with Plus show ?case
    by (meson consumes.simps(12) match_length order_le_less_trans)
next
  case (Repeat n m p)
  then obtain k t where "match enc p s = Some t" and "match enc (Repeat k (m - 1) p) t = Some r"
    by (cases n) (auto split: option.splits)
  with Repeat show ?case
    by (meson consumes.simps(14) match_length order_le_less_trans)
next
  case (NoCase p)
  then show ?case
    by (fastforce)
next
  case (Lit l)
  then show ?case
    by (cases s) (auto split: if_splits)
qed (auto split: option.splits dest!: match_one_suffix)

subsection \<open>Characters of a match\<close>

text \<open>If every leaf of an expression accepts characters of a class only, so does the whole.\<close>

primrec only :: "('c :: linorder) encoding \<Rightarrow> ('c \<Rightarrow> bool) \<Rightarrow> ('c, 'f) x3 \<Rightarrow> bool" where
  "only enc Q (CharSet d) = (\<forall>c. chset_mem enc d c \<longrightarrow> Q c)"
| "only enc Q (Lit l) = list_all Q l"
| "only enc Q (Chr c) = Q c"
| "only enc Q AnyChar = (\<forall>c. Q c)"
| "only enc Q AlphaC = (\<forall>c. enc_alpha enc c \<longrightarrow> Q c)"
| "only enc Q DigitC = (\<forall>c. enc_digit enc c \<longrightarrow> Q c)"
| "only enc Q XDigitC = (\<forall>c. enc_xdigit enc c \<longrightarrow> Q c)"
| "only enc Q (Seq p q) = (only enc Q p \<and> only enc Q q)"
| "only enc Q (Alt p q) = (only enc Q p \<and> only enc Q q)"
| "only enc Q (Diff p q) = only enc Q p"
| "only enc Q (Kleene p) = only enc Q p"
| "only enc Q (Plus p) = only enc Q p"
| "only enc Q (Opt p) = only enc Q p"
| "only enc Q (Repeat n m p) = only enc Q p"
| "only enc Q (NoCase p) = (\<forall>c. Q c)"
| "only enc Q (Raw p) = only enc Q p"
| "only enc Q (Act p f) = only enc Q p"

definition took :: "('c \<Rightarrow> bool) \<Rightarrow> 'c list \<Rightarrow> 'c list \<Rightarrow> bool" where
  "took Q s r = (\<exists>x. s = x @ r \<and> list_all Q x)"

lemma took_refl [simp]: "took Q s s"
  by (simp add: took_def)

lemma took_trans [trans]: "took Q s t \<Longrightarrow> took Q t r \<Longrightarrow> took Q s r"
  by (auto simp: took_def)

lemma match_loop_took:
  assumes "\<And>s r. f s = Some r \<Longrightarrow> took Q s r"
  shows "took Q s (match_loop f s)"
proof (induction s rule: length_induct)
  case (1 s)
  show ?case
    using 1 assms by (subst match_loop.simps) (auto split: option.split intro: took_trans)
qed

lemma match_repeat_took:
  assumes f: "\<And>s r. f s = Some r \<Longrightarrow> took Q s r"
  shows "match_repeat f n m s = Some r \<Longrightarrow> took Q s r"
proof (induction n arbitrary: m s)
  case 0
  then show ?case
    by (induction m arbitrary: s) (auto split: option.splits dest: f intro: took_trans)
next
  case (Suc n)
  then show ?case
    by (auto split: option.splits dest: f intro: took_trans)
qed

lemma match_one_took: "match_one P s = Some r \<Longrightarrow> (\<And>c. P c \<Longrightarrow> Q c) \<Longrightarrow> took Q s r"
  by (cases s) (auto simp: took_def split: if_splits)

lemma match_only: "match enc p s = Some r \<Longrightarrow> only enc Q p \<Longrightarrow> took Q s r"
proof (induction p arbitrary: s r)
  case (Seq p q)
  then show ?case
    by (auto split: option.splits) (meson took_trans)
next
  case (Kleene p)
  then show ?case
    using match_loop_took [of "match enc p" Q s] by auto
next
  case (Plus p)
  then show ?case
    using match_loop_took [of "match enc p" Q] by (auto split: option.splits) (meson took_trans)
next
  case (Repeat n m p)
  then show ?case
    using match_repeat_took [of "match enc p" Q] by auto
next
  case (NoCase p)
  then show ?case
    using match_take [of enc "NoCase p" s r] by (auto simp: took_def list_all_iff)
next
  case (Lit l)
  then show ?case
    by (auto simp: took_def prefix_def split: if_splits)
qed (auto split: option.splits elim: match_one_took)

subsection \<open>The laws determine the behaviour\<close>

context x3_lib
begin

lemma kleene_eq_loop:
  assumes "\<And>s a. run p s a = x3_ref enc p s a" and "consumes p"
  shows "run (Kleene p) s a = x3_loop (x3_ref enc p) s a"
proof (induction s arbitrary: a rule: length_induct)
  case (1 s)
  obtain m a' where m: "x3_ref enc p s a = (m, a')"
    by (cases "x3_ref enc p s a")
  show ?case
  proof (cases m)
    case None
    with m assms(1) show ?thesis
      by (simp add: x3_loop.simps [of "x3_ref enc p" s a] run_kleene_stop)
  next
    case (Some r)
    have "match enc p s = Some r"
      using m Some x3_ref_match [of enc p s a] by simp
    then have "length r < length s"
      using assms(2) by (rule match_consumes)
    with 1 m Some assms(1) show ?thesis
      by (simp add: x3_loop.simps [of "x3_ref enc p" s a] run_kleene_step)
  qed
qed

lemma repeat_eq_repeat:
  assumes "\<And>s a. run p s a = x3_ref enc p s a"
  shows "run (Repeat n m p) s a = x3_repeat (x3_ref enc p) n m s a"
proof (induction n arbitrary: m s a)
  case 0
  show ?case
    by (induction m arbitrary: s a)
       (simp_all add: run_repeat_done run_repeat_max assms split: prod.split option.split)
next
  case (Suc n)
  then show ?case
    by (simp add: run_repeat_min assms split: prod.split option.split)
qed

lemma run_eq_ref: "x3_ok enc p \<Longrightarrow> run p s a = x3_ref enc p s a"
proof (induction p arbitrary: s a)
  case (Kleene p)
  then show ?case
    by (simp add: kleene_eq_loop)
next
  case (Plus p)
  then show ?case
    by (simp add: kleene_eq_loop run_plus split: prod.split option.split)
next
  case (Repeat n m p)
  then show ?case
    by (simp add: repeat_eq_repeat)
next
  case (Raw p)
  then show ?case
    by (simp add: run_raw raw_directive_parse_def)
qed (simp_all add: run_char_set run_lit run_chr run_any run_alpha run_digit run_xdigit run_seq
      run_alt run_diff run_opt run_no_case run_act split: prod.split option.split)

lemma run_match: "x3_ok enc p \<Longrightarrow> attr_free p \<Longrightarrow> run p s a = (match enc p s, a)"
  by (simp add: run_eq_ref x3_ref_attr_free)

end

subsection \<open>Phrases that assign a view\<close>

text \<open>
  \<open>x3::parse(first, last, p, attr)\<close>: whether the parser matched, the iterator (moved only by
  a match) and the attribute. The facts below cover the shapes of phrases that the URI
  parsers use.
\<close>

definition x3_parse :: "'c x3_run \<Rightarrow> 'c list \<Rightarrow> 'c parser \<Rightarrow> 'c list \<Rightarrow> bool \<times> 'c list \<times> 'c list" where
  "x3_parse run first p attr =
     (case run p first attr of (Some r, a) \<Rightarrow> (True, r, a) | (None, a) \<Rightarrow> (False, first, a))"

lemma match_split:
  assumes "match enc p s = Some r"
  obtains x where "s = x @ r" and "take (length s - length r) s = x"
  using match_take [OF assms] by blast

context x3_lib
begin

lemma parse_raw:
  assumes "x3_ok enc p" "attr_free p"
  shows "x3_parse run s (Raw p) a =
    (case match enc p s of None \<Rightarrow> (False, s, a) | Some r \<Rightarrow> (True, r, take (length s - length r) s))"
  using assms by (simp add: x3_parse_def run_raw raw_directive_parse_def run_match split: option.split)

lemma parse_raw_lit:
  assumes "x3_ok enc p" "attr_free p"
  shows "x3_parse run s (Seq (Raw p) (Lit l)) a =
    (case match enc p s of
       None \<Rightarrow> (False, s, a)
     | Some r \<Rightarrow> (if prefix l r then (True, drop (length l) r, take (length s - length r) s)
                 else (False, s, take (length s - length r) s)))"
  using assms
  by (simp add: x3_parse_def run_seq run_lit run_raw raw_directive_parse_def run_match split: option.split)

lemma parse_opt_lit_raw:
  assumes "x3_ok enc p" "attr_free p"
  shows "x3_parse run s (Opt (Seq (Lit l) (Raw p))) a =
    (if prefix l s then
       (case match enc p (drop (length l) s) of
          None \<Rightarrow> (True, s, a)
        | Some r \<Rightarrow> (True, r, take (length s - length l - length r) (drop (length l) s)))
     else (True, s, a))"
  using assms
  by (simp add: x3_parse_def run_opt run_seq run_lit run_raw raw_directive_parse_def run_match
      split: option.split)

lemma parse_opt_raw:
  assumes "x3_ok enc u" "attr_free u" "x3_ok enc p" "attr_free p"
  shows "x3_parse run s (Seq (Opt u) (Raw p)) a =
    (let t = the (match enc (Opt u) s)
     in case match enc p t of
          None \<Rightarrow> (False, s, a)
        | Some r \<Rightarrow> (True, r, take (length t - length r) t))"
  using assms
  by (simp add: x3_parse_def run_opt run_seq run_raw raw_directive_parse_def run_match Let_def
      split: option.split)

lemma parse_lit_opt_raw:
  assumes "x3_ok enc u" "attr_free u" "x3_ok enc p" "attr_free p"
  shows "x3_parse run s (Seq (Seq (Lit l) (Opt u)) (Raw p)) a =
    (if prefix l s then
       (let t = the (match enc (Opt u) (drop (length l) s))
        in case match enc p t of
             None \<Rightarrow> (False, s, a)
           | Some r \<Rightarrow> (True, r, take (length t - length r) t))
     else (False, s, a))"
  using assms
  by (simp add: x3_parse_def run_opt run_seq run_lit run_raw raw_directive_parse_def run_match Let_def
      split: option.split)

text \<open>What a phrase that matched says about the input.\<close>

lemma raw_phrase:
  assumes "x3_ok enc p" "attr_free p" and "x3_parse run s (Raw p) a = (True, r, v)"
  shows "s = v @ r \<and> match enc p (v @ r) = Some r"
proof -
  have m: "match enc p s = Some r" and "v = take (length s - length r) s"
    using assms by (auto simp: parse_raw split: option.splits)
  with match_take [OF m] show ?thesis
    by simp
qed

lemma raw_lit_phrase:
  assumes "x3_ok enc p" "attr_free p" and "x3_parse run s (Seq (Raw p) (Lit l)) a = (True, r, v)"
  shows "s = v @ l @ r \<and> match enc p (v @ l @ r) = Some (l @ r)"
proof -
  have m: "match enc p s = Some (l @ r)" and "v = take (length s - length (l @ r)) s"
    using assms by (auto simp: parse_raw_lit prefix_def split: option.splits if_splits)
  with match_take [OF m] show ?thesis
    by simp
qed

lemma opt_lit_raw_phrase:
  assumes "x3_ok enc p" "attr_free p" and "x3_parse run s (Opt (Seq (Lit l) (Raw p))) a = (m, r, v)"
  shows "m \<and> (\<exists>text. s = text @ r \<and> (text = [] \<and> v = a \<or> text = l @ v \<and> match enc p (v @ r) = Some r))"
proof (cases "prefix l s \<and> match enc p (drop (length l) s) \<noteq> None")
  case True
  then obtain t where s: "s = l @ t" and t: "match enc p t \<noteq> None"
    by (auto simp: prefix_def)
  with assms have m: "m" "match enc p t = Some r" and "v = take (length t - length r) t"
    by (auto simp: parse_opt_lit_raw split: option.splits)
  with s match_take [OF m(2)] show ?thesis
    by (metis append.assoc)
next
  case False
  with assms show ?thesis
    by (auto simp: parse_opt_lit_raw split: if_splits option.splits)
qed

lemma opt_raw_phrase:
  assumes "x3_ok enc u" "attr_free u" "x3_ok enc p" "attr_free p"
    and "x3_parse run s (Seq (Opt u) (Raw p)) a = (True, r, v)"
  shows "\<exists>ut. s = ut @ v @ r \<and> (ut = [] \<or> match enc u (ut @ v @ r) = Some (v @ r)) \<and>
    match enc p (v @ r) = Some r"
proof -
  obtain t where t: "match enc (Opt u) s = Some t"
    by (cases "match enc u s") auto
  with assms have m: "match enc p t = Some r" and "v = take (length t - length r) t"
    by (auto simp: parse_opt_raw Let_def split: option.splits)
  with match_take [OF m] have vr: "t = v @ r"
    by simp
  show ?thesis
  proof (cases "match enc u s")
    case None
    with t m vr show ?thesis
      by (intro exI [of _ "[]"]) simp
  next
    case (Some w)
    with t vr have "match enc u s = Some (v @ r)"
      by simp
    with match_take [OF this] m vr show ?thesis
      by metis
  qed
qed

lemma lit_opt_raw_phrase:
  assumes "x3_ok enc u" "attr_free u" "x3_ok enc p" "attr_free p"
    and "x3_parse run s (Seq (Seq (Lit l) (Opt u)) (Raw p)) a = (True, r, v)"
  shows "\<exists>t. s = l @ t \<and> x3_parse run t (Seq (Opt u) (Raw p)) a = (True, r, v)"
  using assms
  by (auto simp: parse_lit_opt_raw parse_opt_raw prefix_def Let_def split: if_splits option.splits)

text \<open>Inputs on which a phrase matches.\<close>

lemma raw_hit:
  assumes "x3_ok enc p" "attr_free p" "match enc p (v @ r) = Some r"
  shows "x3_parse run (v @ r) (Raw p) a = (True, r, v)"
  using assms by (simp add: parse_raw)

lemma raw_lit_hit:
  assumes "x3_ok enc p" "attr_free p" "match enc p (v @ l @ r) = Some (l @ r)"
  shows "x3_parse run (v @ l @ r) (Seq (Raw p) (Lit l)) a = (True, r, v)"
  using assms by (simp add: parse_raw_lit)

lemma opt_lit_raw_hit:
  assumes "x3_ok enc p" "attr_free p" "match enc p (v @ r) = Some r"
  shows "x3_parse run (l @ v @ r) (Opt (Seq (Lit l) (Raw p))) a = (True, r, v)"
  using assms by (simp add: parse_opt_lit_raw)

lemma opt_lit_raw_miss:
  assumes "x3_ok enc p" "attr_free p" "\<not> prefix l s"
  shows "x3_parse run s (Opt (Seq (Lit l) (Raw p))) a = (True, s, a)"
  using assms by (simp add: parse_opt_lit_raw)

lemma opt_raw_hit:
  assumes "x3_ok enc u" "attr_free u" "x3_ok enc p" "attr_free p"
    and "match enc (Opt u) s = Some (v @ r)" "match enc p (v @ r) = Some r"
  shows "x3_parse run s (Seq (Opt u) (Raw p)) a = (True, r, v)"
  using assms by (simp add: parse_opt_raw Let_def)

lemma lit_opt_raw_hit:
  assumes "x3_ok enc u" "attr_free u" "x3_ok enc p" "attr_free p"
    and "match enc (Opt u) s = Some (v @ r)" "match enc p (v @ r) = Some r"
  shows "x3_parse run (l @ s) (Seq (Seq (Lit l) (Opt u)) (Raw p)) a = (True, r, v)"
  using assms by (simp add: parse_lit_opt_raw Let_def)

lemma lit_opt_raw_miss:
  assumes "x3_ok enc u" "attr_free u" "x3_ok enc p" "attr_free p" and "\<not> prefix l s"
  shows "x3_parse run s (Seq (Seq (Lit l) (Opt u)) (Raw p)) a = (False, s, a)"
  using assms by (simp add: parse_lit_opt_raw)

end

end
