(* ===== verification/Uri_Grammar.thy ===== *)
theory Uri_Grammar
  imports X3
begin

text \<open>
  The narrow-character grammar of \<^verbatim>\<open>include/foxy/uri.hpp\<close> (namespace \<open>foxy::uri\<close>), rule
  by rule in the order of the source. A rule without an attribute behaves as its right-hand
  side, so each rule is its expression. The narrow parsers classify characters with the
  functions of the C locale.
\<close>

definition ascii :: "char encoding" where
  "ascii = \<lparr>enc_dash = CHR ''-'', enc_alpha = std_isalpha, enc_digit = std_isdigit,
            enc_xdigit = std_isxdigit, enc_lower = std_tolower\<rparr>"

lemma ascii_sel [simp]:
  "enc_dash ascii = CHR ''-''"
  "enc_alpha ascii = std_isalpha"
  "enc_digit ascii = std_isdigit"
  "enc_xdigit ascii = std_isxdigit"
  "enc_lower ascii = std_tolower"
  by (simp_all add: ascii_def)

text \<open>\<open>a >> b >> c\<close> and \<open>a | b | c\<close> associate to the left.\<close>

fun seqs :: "('c, 'f) x3 \<Rightarrow> ('c, 'f) x3 list \<Rightarrow> ('c, 'f) x3" where
  "seqs p [] = p"
| "seqs p (q # qs) = seqs (Seq p q) qs"

fun alts :: "('c, 'f) x3 \<Rightarrow> ('c, 'f) x3 list \<Rightarrow> ('c, 'f) x3" where
  "alts p [] = p"
| "alts p (q # qs) = alts (Alt p q) qs"

subsection \<open>Characters\<close>

definition uri_sub_delims :: "char parser" where [uri_defs]:
  "uri_sub_delims = CharSet ''!$&'()*+,;=''"

definition uri_gen_delims :: "char parser" where [uri_defs]:
  "uri_gen_delims = CharSet '':/?#[]@''"

definition uri_reserved :: "char parser" where [uri_defs]:
  "uri_reserved = Alt uri_gen_delims uri_sub_delims"

definition uri_unreserved :: "char parser" where [uri_defs]:
  "uri_unreserved = alts AlphaC [DigitC, CharSet ''-._~'']"

definition uri_pct_encoded :: "char parser" where [uri_defs]:
  "uri_pct_encoded = seqs (Lit ''%'') [XDigitC, XDigitC]"

definition uri_pchar :: "char parser" where [uri_defs]:
  "uri_pchar = alts uri_unreserved [uri_pct_encoded, uri_sub_delims, CharSet '':@'']"

subsection \<open>Query, fragment and paths\<close>

definition uri_query :: "char parser" where [uri_defs]:
  "uri_query = Kleene (Alt uri_pchar (CharSet ''/?''))"

definition uri_fragment :: "char parser" where [uri_defs]:
  "uri_fragment = Kleene (Alt uri_pchar (CharSet ''/?''))"

definition uri_segment :: "char parser" where [uri_defs]:
  "uri_segment = Kleene uri_pchar"

definition uri_segment_nz :: "char parser" where [uri_defs]:
  "uri_segment_nz = Plus uri_pchar"

definition uri_segment_nz_nc :: "char parser" where [uri_defs]:
  "uri_segment_nz_nc = Plus (alts uri_unreserved [uri_pct_encoded, uri_sub_delims, Chr CHR ''@''])"

definition uri_path_empty :: "char parser" where [uri_defs]:
  "uri_path_empty = Repeat 0 0 uri_pchar"

definition uri_path_rootless :: "char parser" where [uri_defs]:
  "uri_path_rootless = Seq uri_segment_nz (Kleene (Seq (Chr CHR ''/'') uri_segment))"

definition uri_path_noscheme :: "char parser" where [uri_defs]:
  "uri_path_noscheme = Seq uri_segment_nz_nc (Kleene (Seq (Chr CHR ''/'') uri_segment))"

definition uri_path_absolute :: "char parser" where [uri_defs]:
  "uri_path_absolute =
     Seq (Chr CHR ''/'') (Opt (Seq uri_segment_nz (Kleene (Seq (Chr CHR ''/'') uri_segment))))"

definition uri_path_abempty :: "char parser" where [uri_defs]:
  "uri_path_abempty = Kleene (Seq (Chr CHR ''/'') uri_segment)"

definition uri_path :: "char parser" where [uri_defs]:
  "uri_path = alts uri_path_abempty
     [uri_path_absolute, uri_path_noscheme, uri_path_rootless, uri_path_empty]"

subsection \<open>Hosts\<close>

definition uri_reg_name :: "char parser" where [uri_defs]:
  "uri_reg_name = Kleene (alts uri_unreserved [uri_pct_encoded, uri_sub_delims])"

definition uri_dec_octet :: "char parser" where [uri_defs]:
  "uri_dec_octet = alts (Seq (Lit ''25'') (CharSet ''0-5''))
     [seqs (Lit ''2'') [CharSet ''0-4'', DigitC],
      Seq (Lit ''1'') (Repeat 2 2 DigitC),
      Seq (CharSet ''1-9'') DigitC,
      DigitC]"

definition uri_ip_v4_address :: "char parser" where [uri_defs]:
  "uri_ip_v4_address = seqs uri_dec_octet
     [Lit ''.'', uri_dec_octet, Lit ''.'', uri_dec_octet, Lit ''.'', uri_dec_octet]"

definition uri_h16 :: "char parser" where [uri_defs]:
  "uri_h16 = Repeat 1 4 XDigitC"

definition uri_ls32 :: "char parser" where [uri_defs]:
  "uri_ls32 = Alt (seqs uri_h16 [Lit '':'', uri_h16]) uri_ip_v4_address"

definition uri_ip_v6_address :: "char parser" where [uri_defs]:
  "uri_ip_v6_address = alts
     (Seq (Repeat 6 6 (Seq uri_h16 (Lit '':''))) uri_ls32)
     [seqs (Lit ''::'') [Repeat 5 5 (Seq uri_h16 (Lit '':'')), uri_ls32],
      seqs (Opt uri_h16) [Lit ''::'', Repeat 4 4 (Seq uri_h16 (Lit '':'')), uri_ls32],
      seqs (Opt (Seq (Repeat 0 1 (Seq uri_h16 (Lit '':''))) uri_h16))
        [Lit ''::'', Repeat 3 3 (Seq uri_h16 (Lit '':'')), uri_ls32],
      seqs (Opt (Seq uri_h16 (Repeat 0 2 (Seq (Lit '':'') uri_h16))))
        [Lit ''::'', Seq uri_ls32 (Repeat 2 2 (Seq (Lit '':'') uri_h16))],
      seqs (Opt (Seq uri_h16 (Repeat 0 3 (Seq (Lit '':'') uri_h16))))
        [Lit ''::'', uri_h16, Lit '':'', uri_ls32],
      seqs (Opt (Seq uri_h16 (Repeat 0 4 (Seq (Lit '':'') uri_h16)))) [Lit ''::'', uri_ls32],
      seqs (Opt (Seq uri_h16 (Repeat 0 5 (Seq (Lit '':'') uri_h16)))) [Lit ''::'', uri_h16],
      Seq (Opt (Seq uri_h16 (Repeat 0 6 (Seq (Lit '':'') uri_h16)))) (Lit ''::'')]"

definition uri_ip_vfuture :: "char parser" where [uri_defs]:
  "uri_ip_vfuture = seqs (Lit ''v'')
     [Plus XDigitC, Lit ''.'', Plus (alts uri_unreserved [uri_sub_delims, Lit '':''])]"

definition uri_ip_literal :: "char parser" where [uri_defs]:
  "uri_ip_literal = seqs (Lit ''['') [Alt uri_ip_v6_address uri_ip_vfuture, Lit '']'']"

definition uri_port :: "char parser" where [uri_defs]:
  "uri_port = Kleene DigitC"

definition uri_host :: "char parser" where [uri_defs]:
  "uri_host = alts uri_ip_literal [uri_ip_v4_address, uri_reg_name]"

definition uri_userinfo :: "char parser" where [uri_defs]:
  "uri_userinfo = Kleene (alts uri_unreserved [uri_pct_encoded, uri_sub_delims, Lit '':''])"

definition uri_authority :: "char parser" where [uri_defs]:
  "uri_authority = seqs (Opt (Seq uri_userinfo (Lit ''@'')))
     [uri_host, Opt (Seq (Lit '':'') uri_port)]"

subsection \<open>References\<close>

definition uri_scheme :: "char parser" where [uri_defs]:
  "uri_scheme = Seq AlphaC (Kleene (alts AlphaC [DigitC, CharSet ''+-.'']))"

definition uri_relative_part :: "char parser" where [uri_defs]:
  "uri_relative_part = alts (seqs (Lit ''//'') [uri_authority, uri_path_abempty])
     [uri_path_absolute, uri_path_noscheme, uri_path_empty]"

definition uri_relative_ref :: "char parser" where [uri_defs]:
  "uri_relative_ref = seqs uri_relative_part
     [Opt (Seq (Lit ''?'') uri_query), Opt (Seq (Lit ''#'') uri_fragment)]"

definition uri_hier_part :: "char parser" where [uri_defs]:
  "uri_hier_part = alts (seqs (Lit ''//'') [uri_authority, uri_path_abempty])
     [uri_path_absolute, uri_path_rootless, uri_path_empty]"

definition uri_uri :: "char parser" where [uri_defs]:
  "uri_uri = seqs uri_scheme [Lit '':'', uri_hier_part,
     Opt (Seq (Lit ''?'') uri_query), Opt (Seq (Lit ''#'') uri_fragment)]"

definition uri_absolute_uri :: "char parser" where [uri_defs]:
  "uri_absolute_uri = seqs uri_scheme [Lit '':'', uri_hier_part, Opt (Seq (Lit ''?'') uri_query)]"

definition uri_uri_reference :: "char parser" where [uri_defs]:
  "uri_uri_reference = Alt uri_uri uri_relative_ref"

end
