(* ===== verification/Uri_Unicode.thy ===== *)
theory Uri_Unicode
  imports Uri_Grammar
begin

text \<open>
  The port of the grammar to code points in \<^verbatim>\<open>include/foxy/uri.hpp\<close> (namespace
  \<open>foxy::uri::unicode\<close>), rule by rule, and its relation to the narrow grammar: the port is
  the image of the narrow rules under the embedding of characters into code points, and on
  ASCII input both recognise the same prefixes. The character classes of the port come from
  the Unicode tables of Boost.Spirit; they are a parameter, an encoding \<open>enc\<close> of the locale
  \<open>unicode_enc\<close>, which classifies the ASCII characters as the C locale does.
\<close>

definition cps :: "string \<Rightarrow> u32 list" where
  "cps s = map cp s"

subsection \<open>Characters\<close>

definition unicode_sub_delims :: "u32 parser" where [unicode_defs]:
  "unicode_sub_delims = CharSet (cps ''!$&'()*+,;='')"

definition unicode_gen_delims :: "u32 parser" where [unicode_defs]:
  "unicode_gen_delims = CharSet (cps '':/?#[]@'')"

definition unicode_reserved :: "u32 parser" where [unicode_defs]:
  "unicode_reserved = Alt unicode_gen_delims unicode_sub_delims"

definition unicode_unreserved :: "u32 parser" where [unicode_defs]:
  "unicode_unreserved = alts AlphaC [DigitC, CharSet (cps ''-._~'')]"

definition unicode_pct_encoded :: "u32 parser" where [unicode_defs]:
  "unicode_pct_encoded = seqs (Lit (cps ''%'')) [XDigitC, XDigitC]"

definition unicode_pchar :: "u32 parser" where [unicode_defs]:
  "unicode_pchar = alts unicode_unreserved [unicode_pct_encoded, unicode_sub_delims, CharSet (cps
       '':@'')]"

subsection \<open>Query, fragment and paths\<close>

definition unicode_query :: "u32 parser" where [unicode_defs]:
  "unicode_query = Kleene (Alt unicode_pchar (CharSet (cps ''/?'')))"

definition unicode_fragment :: "u32 parser" where [unicode_defs]:
  "unicode_fragment = Kleene (Alt unicode_pchar (CharSet (cps ''/?'')))"

definition unicode_segment :: "u32 parser" where [unicode_defs]:
  "unicode_segment = Kleene unicode_pchar"

definition unicode_segment_nz :: "u32 parser" where [unicode_defs]:
  "unicode_segment_nz = Plus unicode_pchar"

definition unicode_segment_nz_nc :: "u32 parser" where [unicode_defs]:
  "unicode_segment_nz_nc = Plus (alts unicode_unreserved [unicode_pct_encoded,
       unicode_sub_delims, Chr (cp CHR ''@'')])"

definition unicode_path_empty :: "u32 parser" where [unicode_defs]:
  "unicode_path_empty = Repeat 0 0 unicode_pchar"

definition unicode_path_rootless :: "u32 parser" where [unicode_defs]:
  "unicode_path_rootless = Seq unicode_segment_nz (Kleene (Seq (Chr (cp CHR ''/''))
       unicode_segment))"

definition unicode_path_noscheme :: "u32 parser" where [unicode_defs]:
  "unicode_path_noscheme = Seq unicode_segment_nz_nc (Kleene (Seq (Chr (cp CHR ''/''))
       unicode_segment))"

definition unicode_path_absolute :: "u32 parser" where [unicode_defs]:
  "unicode_path_absolute =
     Seq (Chr (cp CHR ''/'')) (Opt (Seq unicode_segment_nz (Kleene (Seq (Chr (cp CHR ''/''))
       unicode_segment))))"

definition unicode_path_abempty :: "u32 parser" where [unicode_defs]:
  "unicode_path_abempty = Kleene (Seq (Chr (cp CHR ''/'')) unicode_segment)"

definition unicode_path :: "u32 parser" where [unicode_defs]:
  "unicode_path = alts unicode_path_abempty
     [unicode_path_absolute, unicode_path_noscheme, unicode_path_rootless, unicode_path_empty]"

subsection \<open>Hosts\<close>

definition unicode_reg_name :: "u32 parser" where [unicode_defs]:
  "unicode_reg_name = Kleene (alts unicode_unreserved [unicode_pct_encoded, unicode_sub_delims])"

definition unicode_dec_octet :: "u32 parser" where [unicode_defs]:
  "unicode_dec_octet = alts (Seq (Lit (cps ''25'')) (CharSet (cps ''0-5'')))
     [seqs (Lit (cps ''2'')) [CharSet (cps ''0-4''), DigitC],
      Seq (Lit (cps ''1'')) (Repeat 2 2 DigitC),
      Seq (CharSet (cps ''1-9'')) DigitC,
      DigitC]"

definition unicode_ip_v4_address :: "u32 parser" where [unicode_defs]:
  "unicode_ip_v4_address = seqs unicode_dec_octet
     [Lit (cps ''.''), unicode_dec_octet, Lit (cps ''.''), unicode_dec_octet, Lit (cps ''.''),
       unicode_dec_octet]"

definition unicode_h16 :: "u32 parser" where [unicode_defs]:
  "unicode_h16 = Repeat 1 4 XDigitC"

definition unicode_ls32 :: "u32 parser" where [unicode_defs]:
  "unicode_ls32 = Alt (seqs unicode_h16 [Lit (cps '':''), unicode_h16]) unicode_ip_v4_address"

definition unicode_ip_v6_address :: "u32 parser" where [unicode_defs]:
  "unicode_ip_v6_address = alts
     (Seq (Repeat 6 6 (Seq unicode_h16 (Lit (cps '':'')))) unicode_ls32)
     [seqs (Lit (cps ''::'')) [Repeat 5 5 (Seq unicode_h16 (Lit (cps '':''))), unicode_ls32],
      seqs (Opt unicode_h16) [Lit (cps ''::''), Repeat 4 4 (Seq unicode_h16 (Lit (cps '':''))),
       unicode_ls32],
      seqs (Opt (Seq (Repeat 0 1 (Seq unicode_h16 (Lit (cps '':'')))) unicode_h16))
        [Lit (cps ''::''), Repeat 3 3 (Seq unicode_h16 (Lit (cps '':''))), unicode_ls32],
      seqs (Opt (Seq unicode_h16 (Repeat 0 2 (Seq (Lit (cps '':'')) unicode_h16))))
        [Lit (cps ''::''), Seq unicode_ls32 (Repeat 2 2 (Seq (Lit (cps '':'')) unicode_h16))],
      seqs (Opt (Seq unicode_h16 (Repeat 0 3 (Seq (Lit (cps '':'')) unicode_h16))))
        [Lit (cps ''::''), unicode_h16, Lit (cps '':''), unicode_ls32],
      seqs (Opt (Seq unicode_h16 (Repeat 0 4 (Seq (Lit (cps '':'')) unicode_h16)))) [Lit (cps
       ''::''), unicode_ls32],
      seqs (Opt (Seq unicode_h16 (Repeat 0 5 (Seq (Lit (cps '':'')) unicode_h16)))) [Lit (cps
       ''::''), unicode_h16],
      Seq (Opt (Seq unicode_h16 (Repeat 0 6 (Seq (Lit (cps '':'')) unicode_h16)))) (Lit (cps
       ''::''))]"

definition unicode_ip_vfuture :: "u32 parser" where [unicode_defs]:
  "unicode_ip_vfuture = seqs (Lit (cps ''v''))
     [Plus XDigitC, Lit (cps ''.''), Plus (alts unicode_unreserved [unicode_sub_delims, Lit (cps
       '':'')])]"

definition unicode_ip_literal :: "u32 parser" where [unicode_defs]:
  "unicode_ip_literal = seqs (Lit (cps ''['')) [Alt unicode_ip_v6_address unicode_ip_vfuture, Lit
       (cps '']'')]"

definition unicode_port :: "u32 parser" where [unicode_defs]:
  "unicode_port = Kleene DigitC"

definition unicode_host :: "u32 parser" where [unicode_defs]:
  "unicode_host = alts unicode_ip_literal [unicode_ip_v4_address, unicode_reg_name]"

definition unicode_userinfo :: "u32 parser" where [unicode_defs]:
  "unicode_userinfo = Kleene (alts unicode_unreserved [unicode_pct_encoded, unicode_sub_delims,
       Lit (cps '':'')])"

definition unicode_authority :: "u32 parser" where [unicode_defs]:
  "unicode_authority = seqs (Opt (Seq unicode_userinfo (Lit (cps ''@''))))
     [unicode_host, Opt (Seq (Lit (cps '':'')) unicode_port)]"

subsection \<open>References\<close>

definition unicode_scheme :: "u32 parser" where [unicode_defs]:
  "unicode_scheme = Seq AlphaC (Kleene (alts AlphaC [DigitC, CharSet (cps ''+-.'')]))"

definition unicode_relative_part :: "u32 parser" where [unicode_defs]:
  "unicode_relative_part = alts (seqs (Lit (cps ''//'')) [unicode_authority, unicode_path_abempty])
     [unicode_path_absolute, unicode_path_noscheme, unicode_path_empty]"

definition unicode_relative_ref :: "u32 parser" where [unicode_defs]:
  "unicode_relative_ref = seqs unicode_relative_part
     [Opt (Seq (Lit (cps ''?'')) unicode_query), Opt (Seq (Lit (cps ''#'')) unicode_fragment)]"

definition unicode_hier_part :: "u32 parser" where [unicode_defs]:
  "unicode_hier_part = alts (seqs (Lit (cps ''//'')) [unicode_authority, unicode_path_abempty])
     [unicode_path_absolute, unicode_path_rootless, unicode_path_empty]"

definition unicode_uri :: "u32 parser" where [unicode_defs]:
  "unicode_uri = seqs unicode_scheme [Lit (cps '':''), unicode_hier_part,
     Opt (Seq (Lit (cps ''?'')) unicode_query), Opt (Seq (Lit (cps ''#'')) unicode_fragment)]"

definition unicode_absolute_uri :: "u32 parser" where [unicode_defs]:
  "unicode_absolute_uri = seqs unicode_scheme [Lit (cps '':''), unicode_hier_part, Opt (Seq (Lit
       (cps ''?'')) unicode_query)]"

definition unicode_uri_reference :: "u32 parser" where [unicode_defs]:
  "unicode_uri_reference = Alt unicode_uri unicode_relative_ref"

subsection \<open>The Unicode tables on ASCII\<close>

definition is_ascii :: "char \<Rightarrow> bool" where
  "is_ascii c = (of_char c < (128 :: nat))"

locale unicode_enc =
  fixes enc :: "u32 encoding"
  assumes dash: "enc_dash enc = cp CHR ''-''"
    and alpha: "is_ascii c \<Longrightarrow> enc_alpha enc (cp c) = std_isalpha c"
    and digit: "is_ascii c \<Longrightarrow> enc_digit enc (cp c) = std_isdigit c"
    and xdigit: "is_ascii c \<Longrightarrow> enc_xdigit enc (cp c) = std_isxdigit c"
    and lower: "is_ascii c \<Longrightarrow> enc_lower enc (cp c) = cp (std_tolower c)"

text \<open>Tables that know the ASCII letters and digits only.\<close>

definition ascii32 :: "u32 encoding" where
  "ascii32 =
     (let narrow = (\<lambda>x. char_of (unat x) :: char); small = (\<lambda>x. x < 128)
      in \<lparr>enc_dash = cp CHR ''-'',
          enc_alpha = (\<lambda>x. small x \<and> std_isalpha (narrow x)),
          enc_digit = (\<lambda>x. small x \<and> std_isdigit (narrow x)),
          enc_xdigit = (\<lambda>x. small x \<and> std_isxdigit (narrow x)),
          enc_lower = (\<lambda>x. if small x then cp (std_tolower (narrow x)) else x)\<rparr>)"

lemma cp_small: "is_ascii c \<Longrightarrow> cp c < 128"
  by (simp add: is_ascii_def word_less_nat_alt)

interpretation a32: unicode_enc ascii32
  by unfold_locales (simp_all add: ascii32_def cp_small)

subsection \<open>The port is the image of the narrow grammar\<close>

lemma map_seqs [simp]: "map_x3 f g (seqs p qs) = seqs (map_x3 f g p) (map (map_x3 f g) qs)"
  by (induction p qs rule: seqs.induct) simp_all

lemma map_alts [simp]: "map_x3 f g (alts p qs) = alts (map_x3 f g p) (map (map_x3 f g) qs)"
  by (induction p qs rule: alts.induct) simp_all

lemma unicode_eq_map:
  "unicode_scheme = map_x3 cp g uri_scheme"
  "unicode_userinfo = map_x3 cp g uri_userinfo"
  "unicode_host = map_x3 cp g uri_host"
  "unicode_port = map_x3 cp g uri_port"
  "unicode_path_abempty = map_x3 cp g uri_path_abempty"
  "unicode_path_empty = map_x3 cp g uri_path_empty"
  "unicode_query = map_x3 cp g uri_query"
  "unicode_fragment = map_x3 cp g uri_fragment"
  "unicode_ip_literal = map_x3 cp g uri_ip_literal"
  "unicode_ip_v4_address = map_x3 cp g uri_ip_v4_address"
  "unicode_uri_reference = map_x3 cp g uri_uri_reference"
  "unicode_absolute_uri = map_x3 cp g uri_absolute_uri"
  by (simp_all add: unicode_defs uri_defs cps_def)

subsection \<open>Both grammars agree on ASCII input\<close>

lemma chset_ranges_map:
  "chset_ranges (cp d) (map cp l) = map (map_prod cp cp) (chset_ranges d l)"
  by (induction d l rule: chset_ranges.induct) simp_all

lemma match_loop_map:
  assumes "\<And>s. list_all is_ascii s \<Longrightarrow> g (map cp s) = map_option (map cp) (f s)"
    and "\<And>s r. f s = Some r \<Longrightarrow> suffix r s"
  shows "list_all is_ascii s \<Longrightarrow> match_loop g (map cp s) = map cp (match_loop f s)"
proof (induction s rule: length_induct)
  case (1 s)
  have "list_all is_ascii r" if "f s = Some r" for r
    using assms(2) [OF that] 1(2) by (auto simp: list_all_iff dest: set_mono_suffix)
  with 1 assms(1) [OF 1(2)] show ?case
    by (simp add: match_loop.simps [of f s] match_loop.simps [of g "map cp s"] split: option.split)
qed

lemma match_repeat_map:
  assumes g: "\<And>s. list_all is_ascii s \<Longrightarrow> g (map cp s) = map_option (map cp) (f s)"
    and f: "\<And>s r. f s = Some r \<Longrightarrow> suffix r s"
  shows "list_all is_ascii s \<Longrightarrow>
    match_repeat g n m (map cp s) = map_option (map cp) (match_repeat f n m s)"
proof (induction n arbitrary: m s)
  case 0
  then show ?case
  proof (induction m arbitrary: s)
    case (Suc m)
    have "list_all is_ascii r" if "f s = Some r" for r
      using f [OF that] Suc(2) by (auto simp: list_all_iff dest: set_mono_suffix)
    with Suc g [OF Suc(2)] show ?case
      by (simp split: option.split)
  qed simp
next
  case (Suc n)
  have "list_all is_ascii r" if "f s = Some r" for r
    using f [OF that] Suc(2) by (auto simp: list_all_iff dest: set_mono_suffix)
  with Suc g [OF Suc(2)] show ?case
    by (simp split: option.split)
qed

context unicode_enc
begin

lemma chset_mem_cp: "chset_mem enc (map cp d) (cp c) = chset_mem ascii d c"
  by (simp add: chset_mem_def dash chset_ranges_map list_ex_iff split_beta)

lemma match_one_cp:
  assumes "\<And>c. is_ascii c \<Longrightarrow> Q (cp c) = P c"
  shows "list_all is_ascii s \<Longrightarrow> match_one Q (map cp s) = map_option (map cp) (match_one P s)"
  using assms by (cases s) auto

lemma match_suffix_ascii:
  "match ascii p s = Some r \<Longrightarrow> list_all is_ascii s \<Longrightarrow> list_all is_ascii r"
  by (auto simp: list_all_iff dest!: match_suffix dest: set_mono_suffix)

lemma lower_ascii: "is_ascii c \<Longrightarrow> is_ascii (std_tolower c)"
  by (auto simp: is_ascii_def std_tolower_def less_eq_char_def)

lemma match_map_cp:
  "list_all is_ascii s \<Longrightarrow> match enc (map_x3 cp g p) (map cp s) = map_option (map cp) (match ascii p s)"
proof (induction p arbitrary: s)
  case (Seq p q)
  then show ?case
    by (auto split: option.split dest: match_suffix_ascii)
next
  case (Kleene p)
  then show ?case
    using match_loop_map [of "match enc (map_x3 cp g p)" "match ascii p", OF Kleene.IH match_suffix [of ascii p]] by simp
next
  case (Plus p)
  then show ?case
    using match_loop_map [of "match enc (map_x3 cp g p)" "match ascii p", OF Plus.IH match_suffix [of ascii p]]
    by (auto split: option.split dest: match_suffix_ascii)
next
  case (Repeat n m p)
  then show ?case
    using match_repeat_map [of "match enc (map_x3 cp g p)" "match ascii p", OF Repeat.IH match_suffix [of ascii p]] by simp
next
  case (NoCase p)
  have "map (enc_lower enc) (map cp s) = map cp (map std_tolower s)"
    using NoCase.prems by (simp add: lower list_all_iff)
  moreover have "list_all is_ascii (map std_tolower s)"
    using NoCase.prems by (simp add: lower_ascii list_all_iff)
  ultimately show ?case
    by (simp add: NoCase.IH option.map_comp comp_def drop_map del: map_map)
next
  case (Lit l)
  then show ?case
    by (simp add: drop_map)
qed (auto simp: match_one_cp chset_mem_cp alpha digit xdigit split: option.split)

end

end
