(* ===== verification/Uri_Parts.thy ===== *)
theory Uri_Parts
  imports Uri_Grammar Uri_Unicode
begin

text \<open>
  \<^verbatim>\<open>include/foxy/uri_parts.hpp\<close>: the views of a parsed URI and the predicates on them. A view
  is the list of its characters; a null view is the empty list.
\<close>

record 'c uri_parts =
  up_scheme :: "'c list"
  up_host :: "'c list"
  up_port :: "'c list"
  up_path :: "'c list"
  up_query :: "'c list"
  up_fragment :: "'c list"

definition no_parts :: "'c uri_parts" where
  "no_parts = \<lparr>up_scheme = [], up_host = [], up_port = [], up_path = [], up_query = [], up_fragment = []\<rparr>"

definition is_http_impl :: "string \<Rightarrow> bool" where
  "is_http_impl scheme = (scheme = ''http'' \<or> scheme = ''https'')"

definition is_http_impl32 :: "u32 list \<Rightarrow> bool" where
  "is_http_impl32 scheme = (scheme = cps ''http'' \<or> scheme = cps ''https'')"

definition is_http :: "char uri_parts \<Rightarrow> bool" where
  "is_http p = is_http_impl (up_scheme p)"

definition is_http32 :: "u32 uri_parts \<Rightarrow> bool" where
  "is_http32 p = is_http_impl32 (up_scheme p)"

definition is_authority :: "'c uri_parts \<Rightarrow> bool" where
  "is_authority p =
     (up_scheme p = [] \<and> up_host p \<noteq> [] \<and> up_path p = [] \<and> up_query p = [] \<and> up_fragment p = [])"

definition is_absolute :: "'c uri_parts \<Rightarrow> bool" where
  "is_absolute p = (up_scheme p \<noteq> [] \<and> up_fragment p = [])"

lemma no_parts_sel [simp]:
  "up_scheme no_parts = []" "up_host no_parts = []" "up_port no_parts = []"
  "up_path no_parts = []" "up_query no_parts = []" "up_fragment no_parts = []"
  by (simp_all add: no_parts_def)

end
