(* ===== verification/Uri_Lang.thy ===== *)
theory Uri_Lang
  imports Uri_Grammar
begin

text \<open>
  What the narrow grammar rules recognise, in terms of character predicates of RFC 3986
  rather than of parser expressions: a rule that repeats single characters drops the longest
  prefix of such characters, and a rule that repeats characters or percent-encoded triples
  drops the longest prefix of such tokens.
\<close>

definition is_unreserved :: "char \<Rightarrow> bool" where
  "is_unreserved c = (std_isalpha c \<or> std_isdigit c \<or> c \<in> set ''-._~'')"

definition is_sub_delim :: "char \<Rightarrow> bool" where
  "is_sub_delim c = (c \<in> set ''!$&'()*+,;='')"

definition is_reg_char :: "char \<Rightarrow> bool" where
  "is_reg_char c = (is_unreserved c \<or> is_sub_delim c)"

definition is_user_char :: "char \<Rightarrow> bool" where
  "is_user_char c = (is_reg_char c \<or> c = CHR '':'')"

definition is_path_char :: "char \<Rightarrow> bool" where
  "is_path_char c = (is_reg_char c \<or> c \<in> set '':@'')"

definition is_query_char :: "char \<Rightarrow> bool" where
  "is_query_char c = (is_path_char c \<or> c \<in> set ''/?'')"

text \<open>
  The characters of a scheme after the first. The definition string \<open>+-.\<close> of the source is
  the range from \<open>+\<close> to \<open>.\<close>, which holds the comma besides the three characters it names.
\<close>

definition is_scheme_char :: "char \<Rightarrow> bool" where
  "is_scheme_char c = (std_isalpha c \<or> std_isdigit c \<or> c \<in> set ''+,-.'')"

text \<open>A token is a character of the class or a percent-encoded triple.\<close>

fun tok :: "(char \<Rightarrow> bool) \<Rightarrow> string \<Rightarrow> string option" where
  "tok P [] = None"
| "tok P (c # r) =
     (if P c then Some r
      else if c = CHR ''%'' then
        (case r of x # y # t \<Rightarrow> if std_isxdigit x \<and> std_isxdigit y then Some t else None | _ \<Rightarrow> None)
      else None)"

fun toks :: "(char \<Rightarrow> bool) \<Rightarrow> string \<Rightarrow> bool" where
  "toks P [] = True"
| "toks P (c # r) =
     (if P c then toks P r
      else c = CHR ''%'' \<and>
        (case r of x # y # t \<Rightarrow> std_isxdigit x \<and> std_isxdigit y \<and> toks P t | _ \<Rightarrow> False))"

subsection \<open>Character sets\<close>

lemma chset_ranges_plain: "dash \<notin> set (tl d) \<Longrightarrow> chset_ranges dash d = map (\<lambda>c. (c, c)) d"
  by (induction dash d rule: chset_ranges.induct) auto

lemma chset_mem_plain: "CHR ''-'' \<notin> set (tl d) \<Longrightarrow> chset_mem ascii d c \<longleftrightarrow> c \<in> set d"
  by (auto simp: chset_mem_def chset_ranges_plain list_ex_iff)

lemma chset_mem_range: "chset_mem ascii [lo, CHR ''-'', hi] c \<longleftrightarrow> lo \<le> c \<and> c \<le> hi \<or> c = hi"
  by (auto simp: chset_mem_def)

lemma char_range_plus_dot:
  "CHR ''+'' \<le> c \<and> c \<le> CHR ''.'' \<longleftrightarrow> c \<in> set ''+,-.''"
proof -
  have "c \<in> set ''+,-.'' \<longleftrightarrow> of_char c \<in> {43, 44, 45, 46 :: nat}"
    by (auto simp flip: of_char_eq_iff [where 'a = nat])
  then show ?thesis
    by (auto simp: less_eq_char_def)
qed

lemma pct_not_in_class [simp]:
  "\<not> is_reg_char CHR ''%''" "\<not> is_user_char CHR ''%''"
  "\<not> is_path_char CHR ''%''" "\<not> is_query_char CHR ''%''"
  "\<not> is_unreserved CHR ''%''" "\<not> is_sub_delim CHR ''%''"
  by (simp_all add: is_query_char_def is_path_char_def is_user_char_def is_reg_char_def
      is_unreserved_def is_sub_delim_def std_isalpha_def std_isdigit_def less_eq_char_def)

subsection \<open>Loops\<close>

lemma match_loop_step: "f s = Some r \<Longrightarrow> length r < length s \<Longrightarrow> match_loop f s = match_loop f r"
  by (simp add: match_loop.simps [of f s])

lemma match_loop_stop: "f s = None \<Longrightarrow> match_loop f s = s"
  by (simp add: match_loop.simps [of f s])

lemma match_loop_None:
  assumes "\<And>s r. f s = Some r \<Longrightarrow> length r < length s"
  shows "f (match_loop f s) = None"
proof (induction s rule: length_induct)
  case (1 s)
  show ?case
  proof (cases "f s")
    case (Some r)
    with 1 assms [OF Some] show ?thesis
      by (simp add: match_loop_step)
  qed (simp add: match_loop_stop)
qed

lemma match_loop_one [simp]: "match_loop (match_one P) s = dropWhile P s"
  by (induction s) (simp_all add: match_loop.simps)

lemma tok_length: "tok P s = Some r \<Longrightarrow> length r < length s"
  by (cases s) (auto split: if_splits list.splits)

lemma tok_toks: "tok P s = Some r \<Longrightarrow> toks P x \<Longrightarrow> r = x @ t \<Longrightarrow> \<exists>y. s = y @ t \<and> toks P y"
proof (cases s)
  case (Cons c u)
  assume a: "tok P s = Some r" "toks P x" "r = x @ t"
  show ?thesis
  proof (cases "P c")
    case True
    with a Cons show ?thesis
      by (intro exI [of _ "c # x"]) simp
  next
    case False
    with a Cons obtain h1 h2 where "u = h1 # h2 # r" "std_isxdigit h1" "std_isxdigit h2" "c = CHR ''%''"
      by (auto split: if_splits list.splits)
    with False a Cons show ?thesis
      by (intro exI [of _ "c # h1 # h2 # x"]) simp
  qed
qed simp

lemma loop_tok_split: "\<exists>x. s = x @ match_loop (tok P) s \<and> toks P x"
proof (induction s rule: length_induct)
  case (1 s)
  show ?case
  proof (cases "tok P s")
    case (Some r)
    with 1 obtain x where "r = x @ match_loop (tok P) r" and "toks P x"
      using tok_length by blast
    with Some tok_toks [OF Some] show ?thesis
      by (auto simp: match_loop_step tok_length)
  qed (auto simp: match_loop_stop)
qed

lemma loop_tok_None: "tok P (match_loop (tok P) s) = None"
  by (rule match_loop_None) (rule tok_length)

lemma loop_tok_append: "toks P x \<Longrightarrow> tok P r = None \<Longrightarrow> match_loop (tok P) (x @ r) = r"
proof (induction P x rule: toks.induct)
  case (2 P c u)
  then show ?case
    by (auto simp: match_loop_step [of "tok P"] split: if_splits list.splits)
qed (simp add: match_loop_stop)

lemma toks_mono: "(\<And>c. P c \<Longrightarrow> Q c) \<Longrightarrow> \<not> Q CHR ''%'' \<Longrightarrow> toks P x \<Longrightarrow> toks Q x"
  by (induction P x rule: toks.induct) (auto split: if_splits list.splits)

lemma toks_append: "toks P x \<Longrightarrow> toks P y \<Longrightarrow> toks P (x @ y)"
  by (induction P x rule: toks.induct) (auto split: if_splits list.splits)

lemma toks_list_all: "list_all P x \<Longrightarrow> toks P x"
  by (induction x) auto

subsection \<open>What the rules match\<close>

lemma match_Kleene: "match enc (Kleene p) s = Some (match_loop (match enc p) s)"
  by simp

lemma prefix_single: "prefix [c] s \<longleftrightarrow> (\<exists>r. s = c # r)"
  by (cases s) auto

lemmas chset_plain_simps = chset_mem_plain [of "''!$&'()*+,;=''"] chset_mem_plain [of "''-._~''"]
  chset_mem_plain [of "'':@''"] chset_mem_plain [of "''/?''"]

lemma match_unreserved [simp]: "match ascii uri_unreserved s = match_one is_unreserved s"
  by (cases s) (simp_all add: uri_unreserved_def is_unreserved_def chset_plain_simps)

lemma match_sub_delims [simp]: "match ascii uri_sub_delims s = match_one is_sub_delim s"
  by (cases s) (simp_all add: uri_sub_delims_def is_sub_delim_def chset_plain_simps)

lemma match_pct_encoded [simp]: "match ascii uri_pct_encoded s = tok (\<lambda>_. False) s"
proof (cases s)
  case (Cons c r)
  then show ?thesis
    by (cases r; cases "tl r") (auto simp: uri_pct_encoded_def)
qed (simp add: uri_pct_encoded_def)

lemma match_reg_tok:
  "match ascii (alts uri_unreserved [uri_pct_encoded, uri_sub_delims]) = tok is_reg_char"
proof
  show "match ascii (alts uri_unreserved [uri_pct_encoded, uri_sub_delims]) s = tok is_reg_char s" for s
    by (cases s) (auto simp: is_reg_char_def split: option.split list.split)
qed

lemma match_user_tok:
  "match ascii (alts uri_unreserved [uri_pct_encoded, uri_sub_delims, Lit '':'']) = tok is_user_char"
proof
  show "match ascii (alts uri_unreserved [uri_pct_encoded, uri_sub_delims, Lit '':'']) s =
    tok is_user_char s" for s
    by (cases s) (auto simp: is_user_char_def is_reg_char_def split: option.split list.split)
qed

lemma match_pchar [simp]: "match ascii uri_pchar = tok is_path_char"
proof
  show "match ascii uri_pchar s = tok is_path_char s" for s
    by (cases s) (auto simp: uri_pchar_def is_path_char_def is_reg_char_def chset_plain_simps
        split: option.split list.split)
qed

lemma match_query_tok: "match ascii (Alt uri_pchar (CharSet ''/?'')) = tok is_query_char"
proof
  show "match ascii (Alt uri_pchar (CharSet ''/?'')) s = tok is_query_char s" for s
    by (cases s) (auto simp: is_query_char_def chset_plain_simps split: option.split list.split)
qed

lemma match_scheme_tok:
  "match ascii (alts AlphaC [DigitC, CharSet ''+-.'']) = match_one is_scheme_char"
proof
  show "match ascii (alts AlphaC [DigitC, CharSet ''+-.'']) s = match_one is_scheme_char s" for s
    using char_range_plus_dot by (cases s) (auto simp: is_scheme_char_def chset_mem_range)
qed

lemma match_scheme:
  "match ascii uri_scheme s =
     (case s of [] \<Rightarrow> None
      | c # r \<Rightarrow> if std_isalpha c then Some (dropWhile is_scheme_char r) else None)"
  unfolding uri_scheme_def match.simps(5,8) match_Kleene match_scheme_tok by (cases s) simp_all

lemma match_query [simp]: "match ascii uri_query s = Some (match_loop (tok is_query_char) s)"
  and match_fragment [simp]: "match ascii uri_fragment s = Some (match_loop (tok is_query_char) s)"
  and match_reg_name [simp]: "match ascii uri_reg_name s = Some (match_loop (tok is_reg_char) s)"
  and match_userinfo [simp]: "match ascii uri_userinfo s = Some (match_loop (tok is_user_char) s)"
  unfolding uri_query_def uri_fragment_def uri_reg_name_def uri_userinfo_def match_Kleene
    match_query_tok match_reg_tok match_user_tok
  by (rule refl)+

lemma match_port [simp]: "match ascii uri_port s = Some (dropWhile std_isdigit s)"
  by (simp add: uri_port_def)

lemma match_path_empty [simp]: "match ascii uri_path_empty s = Some s"
  by (simp add: uri_path_empty_def)

subsection \<open>Paths\<close>

text \<open>
  \<open>path-abempty\<close> repeats segments that start with a slash: from an input that starts with a
  slash it drops the longest prefix of path tokens and slashes.
\<close>

definition is_abpath_char :: "char \<Rightarrow> bool" where
  "is_abpath_char c = (is_path_char c \<or> c = CHR ''/'')"

definition abempty :: "string \<Rightarrow> bool" where
  "abempty s = (s = [] \<or> hd s = CHR ''/'' \<and> toks is_abpath_char s)"

definition drop_abempty :: "string \<Rightarrow> string" where
  "drop_abempty s =
     (case s of c # r \<Rightarrow> if c = CHR ''/'' then match_loop (tok is_abpath_char) s else s | [] \<Rightarrow> [])"

lemma slash_not_path_char [simp]: "\<not> is_path_char CHR ''/''"
  by (simp add: is_path_char_def is_reg_char_def is_unreserved_def is_sub_delim_def
      std_isalpha_def std_isdigit_def less_eq_char_def)

lemma slash_abpath_char [simp]: "is_abpath_char CHR ''/''"
  and pct_not_abpath_char [simp]: "\<not> is_abpath_char CHR ''%''"
  by (simp_all add: is_abpath_char_def)

lemma tok_abpath: "tok is_path_char s = Some r \<Longrightarrow> tok is_abpath_char s = Some r"
  by (cases s) (auto simp: is_abpath_char_def split: if_splits list.splits)

lemma tok_abpath_None:
  "tok is_path_char s = None \<Longrightarrow> s = [] \<or> hd s \<noteq> CHR ''/'' \<Longrightarrow> tok is_abpath_char s = None"
  by (cases s) (auto simp: is_abpath_char_def split: if_splits list.splits)

lemma loop_abpath:
  "match_loop (tok is_abpath_char) (match_loop (tok is_path_char) s) = match_loop (tok is_abpath_char) s"
proof (induction s rule: length_induct)
  case (1 s)
  show ?case
  proof (cases "tok is_path_char s")
    case (Some r)
    with 1 tok_abpath [OF Some] show ?thesis
      by (simp add: match_loop_step tok_length [OF Some])
  qed (simp add: match_loop_stop)
qed

lemma match_path_abempty: "match ascii uri_path_abempty s = Some (drop_abempty s)"
proof -
  define f where "f = match ascii (Seq (Chr CHR ''/'') uri_segment)"
  have seg: "f (c # r) = (if c = CHR ''/'' then Some (match_loop (tok is_path_char) r) else None)"
    "f [] = None" for c r
    by (simp_all add: f_def uri_segment_def)
  have "match_loop f s = drop_abempty s"
  proof (induction s rule: length_induct)
    case (1 s)
    show ?case
    proof (cases "\<exists>r. s = CHR ''/'' # r")
      case True
      then obtain r where s: "s = CHR ''/'' # r"
        by blast
      let ?t = "match_loop (tok is_path_char) r"
      have len: "length ?t < length s"
        using s loop_tok_split [of r is_path_char] by (metis length_Cons le_imp_less_Suc
            length_append le_add2)
      have "match_loop f s = drop_abempty ?t"
        using s len 1 by (simp add: match_loop_step seg)
      also have "\<dots> = match_loop (tok is_abpath_char) ?t"
        using tok_abpath_None [OF loop_tok_None [of is_path_char r]]
        by (auto simp: drop_abempty_def match_loop_stop split: list.split)
      also have "\<dots> = drop_abempty s"
        using s by (simp add: drop_abempty_def loop_abpath match_loop_step)
      finally show ?thesis .
    next
      case False
      then show ?thesis
        by (cases s) (auto simp: match_loop_stop seg drop_abempty_def)
    qed
  qed
  then show ?thesis
    unfolding uri_path_abempty_def match_Kleene f_def by (rule arg_cong)
qed

lemma drop_abempty_split: "\<exists>x. s = x @ drop_abempty s \<and> abempty x"
proof (cases s)
  case (Cons c r)
  show ?thesis
  proof (cases "c = CHR ''/''")
    case True
    have c: "drop_abempty s = match_loop (tok is_abpath_char) s"
      using Cons True by (simp add: drop_abempty_def)
    obtain x where x: "s = x @ match_loop (tok is_abpath_char) s" "toks is_abpath_char x"
      using loop_tok_split by blast
    moreover have "tok is_abpath_char s \<noteq> None"
      using Cons True by simp
    then have "x \<noteq> []"
      by (metis append_Nil loop_tok_None x(1))
    ultimately show ?thesis
      using c Cons True by (metis abempty_def append_self_conv2 hd_append2 list.sel(1))
  qed (use Cons in \<open>auto simp: drop_abempty_def abempty_def\<close>)
qed (simp add: drop_abempty_def abempty_def)

lemma drop_abempty_append:
  assumes "abempty x" and "tok is_abpath_char r = None"
  shows "drop_abempty (x @ r) = r"
proof (cases x)
  case Nil
  with assms(2) show ?thesis
    by (cases r) (auto simp: drop_abempty_def)
next
  case (Cons c u)
  with assms loop_tok_append [of is_abpath_char x r] show ?thesis
    by (auto simp: drop_abempty_def abempty_def)
qed

end
