(* ===== verification/Uri_Host.thy ===== *)
theory Uri_Host
  imports Uri_Lang
begin

text \<open>
  The host rules of the narrow grammar: \<open>dec-octet\<close> and \<open>IPv4address\<close> recognise exactly the
  decimal numerals below 256 and their dotted quadruples, and \<open>host\<close> always matches.
\<close>

definition dig :: "nat \<Rightarrow> char" where
  "dig d = char_of (48 + d)"

definition dec :: "nat \<Rightarrow> string" where
  "dec n =
     (if n < 10 then [dig n]
      else if n < 100 then [dig (n div 10), dig (n mod 10)]
      else [dig (n div 100), dig (n div 10 mod 10), dig (n mod 10)])"

definition dotted :: "nat \<Rightarrow> nat \<Rightarrow> nat \<Rightarrow> nat \<Rightarrow> string" where
  "dotted a b c d = dec a @ ''.'' @ dec b @ ''.'' @ dec c @ ''.'' @ dec d"

definition no_digit :: "string \<Rightarrow> bool" where
  "no_digit s = (case s of [] \<Rightarrow> True | c # r \<Rightarrow> \<not> std_isdigit c)"

lemma of_char_dig: "d < 10 \<Longrightarrow> of_char (dig d) = 48 + d"
  by (simp add: dig_def)

lemma isdigit_dig: "d < 10 \<Longrightarrow> std_isdigit (dig d)"
  by (simp add: std_isdigit_def less_eq_char_def of_char_dig)

lemma isdigitE:
  assumes "std_isdigit c"
  obtains d where "d < 10" and "c = dig d"
proof -
  have "of_char c - 48 < (10 :: nat)" and "48 \<le> (of_char c :: nat)"
    using assms by (auto simp: std_isdigit_def less_eq_char_def)
  then have "c = dig (of_char c - 48)"
    by (simp add: dig_def)
  with \<open>of_char c - 48 < 10\<close> show thesis
    by (rule that)
qed

lemma dig_le_iff: "d < 10 \<Longrightarrow> e < 10 \<Longrightarrow> dig d \<le> dig e \<longleftrightarrow> d \<le> e"
  by (simp add: less_eq_char_def of_char_dig)

lemma dig_eq_iff: "d < 10 \<Longrightarrow> e < 10 \<Longrightarrow> dig d = dig e \<longleftrightarrow> d = e"
  by (metis add_left_cancel of_char_dig)

lemma dig_lits: "CHR ''0'' = dig 0" "CHR ''1'' = dig 1" "CHR ''2'' = dig 2" "CHR ''4'' = dig 4"
  "CHR ''5'' = dig 5" "CHR ''9'' = dig 9"
  unfolding dig_def by (code_simp)+

lemma dec_octet_eq:
  "match ascii uri_dec_octet s =
     (case s of
        [] \<Rightarrow> None
      | [a] \<Rightarrow> if std_isdigit a then Some [] else None
      | [a, b] \<Rightarrow> if std_isdigit a then Some (if CHR ''1'' \<le> a \<and> std_isdigit b then [] else [b]) else None
      | a # b # c # r \<Rightarrow>
          if \<not> std_isdigit a then None
          else if \<not> (std_isdigit b \<and> CHR ''1'' \<le> a) then Some (b # c # r)
          else if std_isdigit c \<and>
             (a = CHR ''1'' \<or> a = CHR ''2'' \<and> (b \<le> CHR ''4'' \<or> b = CHR ''5'' \<and> c \<le> CHR ''5''))
            then Some r else Some (c # r))"
proof -
  have range: "chset_mem ascii ''0-5'' x = (std_isdigit x \<and> x \<le> CHR ''5'')"
    "chset_mem ascii ''0-4'' x = (std_isdigit x \<and> x \<le> CHR ''4'')"
    "chset_mem ascii ''1-9'' x = (std_isdigit x \<and> CHR ''1'' \<le> x)" for x
    by (auto simp: chset_mem_range less_eq_char_def std_isdigit_def)
  have lit: "std_isdigit CHR ''1''" "std_isdigit CHR ''2''" "std_isdigit CHR ''5''"
    "CHR ''1'' \<le> CHR ''2''"
    by (simp_all add: std_isdigit_def less_eq_char_def)
  show ?thesis
    by (cases s; cases "tl s"; cases "tl (tl s)")
       (auto simp: uri_dec_octet_def range lit numeral_2_eq_2)
qed

lemma dec_1: "a < 10 \<Longrightarrow> dec a = [dig a]"
  and dec_2: "0 < a \<Longrightarrow> a < 10 \<Longrightarrow> b < 10 \<Longrightarrow> dec (10 * a + b) = [dig a, dig b]"
  by (simp_all add: dec_def)

lemma dec_3:
  assumes "0 < a" "a < 10" "b < 10" "c < 10"
  shows "dec (100 * a + 10 * b + c) = [dig a, dig b, dig c]"
proof -
  let ?n = "100 * a + 10 * b + c"
  have "?n div 100 = a" and "?n div 10 = 10 * a + b"
    using assms by (auto intro!: div_nat_eqI)
  moreover have "?n = 10 * (10 * a + b) + c"
    by simp
  then have "?n mod 10 = c"
    using assms(4) by (simp only: mod_mult_self4 mod_less)
  ultimately show ?thesis
    using assms by (simp add: dec_def)
qed

lemma dec_octet_shape:
  assumes "match ascii uri_dec_octet s = Some r"
  obtains a where "s = a # r" "std_isdigit a"
  | a b where "s = a # b # r" "std_isdigit a" "std_isdigit b" "CHR ''1'' \<le> a"
  | a b c where "s = a # b # c # r" "std_isdigit a" "std_isdigit b" "std_isdigit c"
      "a = CHR ''1'' \<or> a = CHR ''2'' \<and> (b \<le> CHR ''4'' \<or> b = CHR ''5'' \<and> c \<le> CHR ''5'')"
  using assms by (simp add: dec_octet_eq split: list.splits if_splits)

lemma dec_octet_sound:
  assumes "match ascii uri_dec_octet s = Some r"
  shows "\<exists>n<256. s = dec n @ r"
  using assms
proof (cases rule: dec_octet_shape)
  case (1 a)
  then obtain x where "x < 10" "a = dig x"
    by (auto elim: isdigitE)
  with 1 show ?thesis
    by (intro exI [of _ x]) (simp add: dec_1)
next
  case (2 a b)
  then obtain x y where "x < 10" "a = dig x" "y < 10" "b = dig y"
    by (auto elim!: isdigitE)
  with 2 show ?thesis
    by (intro exI [of _ "10 * x + y"]) (simp add: dec_2 dig_lits dig_le_iff)
next
  case (3 a b c)
  then obtain x y z where xyz: "x < 10" "a = dig x" "y < 10" "b = dig y" "z < 10" "c = dig z"
    by (auto elim!: isdigitE)
  with 3 have "x = 1 \<or> x = 2 \<and> (y \<le> 4 \<or> y = 5 \<and> z \<le> 5)"
    by (simp add: dig_lits dig_le_iff dig_eq_iff)
  with xyz have "dec (100 * x + 10 * y + z) = [dig x, dig y, dig z]" "100 * x + 10 * y + z < 256"
    by (auto intro: dec_3)
  moreover have "s = [dig x, dig y, dig z] @ r"
    using 3(1) xyz by simp
  ultimately show ?thesis
    by metis
qed

lemma digits_of_octet:
  fixes n :: nat
  assumes "100 \<le> n" and "n < 256"
  shows "n div 100 = 1 \<or>
    n div 100 = 2 \<and> (n div 10 mod 10 \<le> 4 \<or> n div 10 mod 10 = 5 \<and> n mod 10 \<le> 5)"
proof -
  have "n div 100 = n div 10 div 10"
    using div_mult2_eq [of n 10 10] by simp
  then have "n = 10 * (n div 10) + n mod 10" and "n div 10 = 10 * (n div 100) + n div 10 mod 10"
    by simp_all
  with assms show ?thesis
    by linarith
qed

lemma dec_octet_complete:
  assumes "n < 256" and "no_digit r"
  shows "match ascii uri_dec_octet (dec n @ r) = Some r"
proof -
  consider "n < 10" | "10 \<le> n" "n < 100" | "100 \<le> n" "n < 256"
    using assms(1) by linarith
  then show ?thesis
  proof cases
    case 1
    with assms(2) show ?thesis
      by (auto simp: dec_octet_eq dec_1 isdigit_dig no_digit_def split: list.split)
  next
    case 2
    then have d: "0 < n div 10" "n div 10 < 10" "n mod 10 < 10"
      by auto
    with 2 assms(2) show ?thesis
      by (auto simp: dec_octet_eq dec_def isdigit_dig no_digit_def dig_lits dig_le_iff dig_eq_iff
          split: list.split)
  next
    case 3
    then have d: "n div 100 < 10" "n div 10 mod 10 < 10" "n mod 10 < 10"
      by auto
    with 3 digits_of_octet [OF 3] show ?thesis
      by (auto simp add: dec_octet_eq dec_def isdigit_dig dig_lits dig_le_iff dig_eq_iff)
  qed
qed

subsection \<open>IPv4 addresses\<close>

lemma dec_digits: "n < 256 \<Longrightarrow> dec n \<noteq> [] \<and> list_all std_isdigit (dec n)"
  by (auto simp: dec_def isdigit_dig)

lemma no_digit_dot [simp]: "no_digit (CHR ''.'' # s)"
  by (simp add: no_digit_def std_isdigit_def less_eq_char_def)

lemma match_dot: "match ascii (Lit ''.'') s = Some r \<longleftrightarrow> s = ''.'' @ r"
  by (cases s) auto

lemma match_Seq_iff:
  "match enc (Seq p q) s = Some r \<longleftrightarrow> (\<exists>t. match enc p s = Some t \<and> match enc q t = Some r)"
  by (simp split: option.split)

lemma ip_v4_sound:
  assumes "match ascii uri_ip_v4_address s = Some r"
  shows "\<exists>a<256. \<exists>b<256. \<exists>c<256. \<exists>d<256. s = dotted a b c d @ r"
proof -
  from assms obtain t1 t2 t3 where t:
    "match ascii uri_dec_octet s = Some (''.'' @ t1)" "match ascii uri_dec_octet t1 = Some (''.'' @ t2)"
    "match ascii uri_dec_octet t2 = Some (''.'' @ t3)" "match ascii uri_dec_octet t3 = Some r"
    unfolding uri_ip_v4_address_def seqs.simps match_Seq_iff match_dot by blast
  obtain a b c d where lt: "a < 256" "b < 256" "c < 256" "d < 256"
    and "s = dec a @ ''.'' @ t1" "t1 = dec b @ ''.'' @ t2" "t2 = dec c @ ''.'' @ t3" "t3 = dec d @ r"
    using t [THEN dec_octet_sound] by metis
  then have "s = dotted a b c d @ r"
    by (simp add: dotted_def)
  with lt show ?thesis
    by blast
qed

lemma ip_v4_complete:
  assumes "a < 256" "b < 256" "c < 256" "d < 256" and "no_digit r"
  shows "match ascii uri_ip_v4_address (dotted a b c d @ r) = Some r"
  unfolding uri_ip_v4_address_def seqs.simps match_Seq_iff match_dot
  using assms by (force simp: dotted_def dec_octet_complete)

lemma ip_v4_None: "no_digit s \<Longrightarrow> match ascii uri_ip_v4_address s = None"
  by (cases s) (auto simp: uri_ip_v4_address_def dec_octet_eq no_digit_def split: list.split)

subsection \<open>Hosts\<close>

lemma ip_literal_None: "s = [] \<or> hd s \<noteq> CHR ''['' \<Longrightarrow> match ascii uri_ip_literal s = None"
  by (cases s) (auto simp: uri_ip_literal_def)

lemma host_cases:
  "match ascii uri_host s =
     (case match ascii uri_ip_literal s of
        Some r \<Rightarrow> Some r
      | None \<Rightarrow> (case match ascii uri_ip_v4_address s of
                   Some r \<Rightarrow> Some r
                 | None \<Rightarrow> Some (match_loop (tok is_reg_char) s)))"
  by (simp add: uri_host_def split: option.split)

lemma host_always_matches: "\<exists>r. match ascii uri_host s = Some r"
  by (simp add: host_cases split: option.split)

text \<open>
  Hosts that the ordered choice of \<open>host\<close> recognises as a whole: a dotted quadruple, or a
  registered name that does not start with one (after the quadruple the choice is not revised).
\<close>

inductive v4_host :: "string \<Rightarrow> bool" where
  v4_host: "a < 256 \<Longrightarrow> b < 256 \<Longrightarrow> c < 256 \<Longrightarrow> d < 256 \<Longrightarrow> v4_host (dotted a b c d)"

definition plain_host :: "string \<Rightarrow> bool" where
  "plain_host h = (toks is_reg_char h \<and> (\<nexists>q. v4_host q \<and> prefix q h))"

lemma v4_host_chars: "v4_host q \<Longrightarrow> c \<in> set q \<Longrightarrow> std_isdigit c \<or> c = CHR ''.''"
  using dec_digits by (auto simp: v4_host.simps dotted_def list_all_iff)

lemma v4_host_digit: "v4_host q \<Longrightarrow> \<exists>c r. q = c # r \<and> std_isdigit c"
  by (erule v4_host.cases, rename_tac a b c d, case_tac "dec a") (use dec_digits in \<open>fastforce simp: dotted_def\<close>)+

lemma plain_hostI: "no_digit h \<Longrightarrow> toks is_reg_char h \<Longrightarrow> plain_host h"
  by (auto simp: plain_host_def no_digit_def prefix_def dest!: v4_host_digit)

text \<open>What may follow a host or a port in a URI.\<close>

definition at_delim :: "string \<Rightarrow> bool" where
  "at_delim s = (case s of [] \<Rightarrow> True | c # r \<Rightarrow> c \<in> set '':/?#'')"

lemma at_delim_no_digit: "at_delim s \<Longrightarrow> no_digit s"
  by (cases s) (auto simp: at_delim_def no_digit_def std_isdigit_def less_eq_char_def)

lemma at_delim_tok: "at_delim s \<Longrightarrow> tok is_reg_char s = None"
  by (cases s) (auto simp: at_delim_def is_reg_char_def is_unreserved_def is_sub_delim_def
      std_isdigit_def std_isalpha_def less_eq_char_def)

lemma plain_host_hd: "plain_host (c # h) \<Longrightarrow> c \<noteq> CHR ''[''"
  by (auto simp: plain_host_def is_reg_char_def is_unreserved_def is_sub_delim_def
      std_isdigit_def std_isalpha_def less_eq_char_def split: if_splits)

lemma plain_host_not_v4:
  assumes "plain_host h" "at_delim r"
  shows "match ascii uri_ip_v4_address (h @ r) = None"
proof (rule ccontr)
  assume "match ascii uri_ip_v4_address (h @ r) \<noteq> None"
  then obtain q t where q: "h @ r = q @ t" "v4_host q"
    using ip_v4_sound v4_host.intros by (metis not_None_eq)
  with assms(1) have "\<not> prefix q h"
    by (auto simp: plain_host_def)
  with q(1) obtain u where "q = h @ u" "r = u @ t" "u \<noteq> []"
    by (auto simp: append_eq_append_conv2 prefix_def)
  then obtain c where c: "c \<in> set q" "c \<in> set '':/?#''"
    using assms(2) by (cases u) (auto simp: at_delim_def)
  with v4_host_chars [OF q(2) c(1)] show False
    by (auto simp: std_isdigit_def less_eq_char_def)
qed

lemma host_plain:
  assumes "plain_host h" and "at_delim r"
  shows "match ascii uri_host (h @ r) = Some r"
proof -
  have "h @ r = [] \<or> hd (h @ r) \<noteq> CHR ''[''"
    using plain_host_hd assms by (cases h) (auto simp: at_delim_def split: list.splits)
  then have "match ascii uri_ip_literal (h @ r) = None"
    by (rule ip_literal_None)
  moreover have "match_loop (tok is_reg_char) (h @ r) = r"
    using assms by (intro loop_tok_append) (simp_all add: plain_host_def at_delim_tok)
  ultimately show ?thesis
    by (simp add: host_cases plain_host_not_v4 [OF assms])
qed

lemma host_v4:
  assumes "v4_host h" and "at_delim r"
  shows "match ascii uri_host (h @ r) = Some r"
  using assms(1)
proof cases
  case (v4_host a b c d)
  have "std_isdigit (hd (h @ r))"
    using v4_host dec_digits [of a] by (cases "dec a") (auto simp: dotted_def)
  then have "hd (h @ r) \<noteq> CHR ''[''"
    by (auto simp: std_isdigit_def less_eq_char_def)
  then have "match ascii uri_ip_literal (h @ r) = None"
    by (intro ip_literal_None) simp
  with v4_host at_delim_no_digit [OF assms(2)] show ?thesis
    by (simp add: host_cases ip_v4_complete)
qed

end
