(* ===== verification/Parse_Uri.thy ===== *)
theory Parse_Uri
  imports Uri_Parts Uri_Host
begin

text \<open>
  \<^verbatim>\<open>src/parse_uri.cpp\<close>: \<open>parse_complete\<close>, \<open>parse_authority\<close> and \<open>parse_uri\<close>, for narrow
  characters and for code points. \<open>run\<close> is the behaviour of X3. Each function returns its
  result and the parts it leaves behind; a phrase that fails may have assigned its view.
\<close>

subsection \<open>Narrow characters\<close>

text \<open>The end of both parsers: query, fragment and the test that the input is exhausted.\<close>

definition parse_tail :: "char x3_run \<Rightarrow> string \<Rightarrow> char uri_parts \<Rightarrow> bool \<times> char uri_parts" where
  "parse_tail run iter parts =
     (let (match, iter, v) = x3_parse run iter (Opt (Seq (Lit ''?'') (Raw uri_query))) (up_query parts);
          parts = parts\<lparr>up_query := v\<rparr>
      in if \<not> match then (False, parts) else
      let (match, iter, v) = x3_parse run iter (Opt (Seq (Lit ''#'') (Raw uri_fragment))) (up_fragment parts);
          parts = parts\<lparr>up_fragment := v\<rparr>
      in if \<not> match then (False, parts) else (iter = [], parts))"

text \<open>What both parsers do once they have a host: the port, the path and the tail.\<close>

definition parse_port_path :: "char x3_run \<Rightarrow> string \<Rightarrow> char uri_parts \<Rightarrow> bool \<times> char uri_parts" where
  "parse_port_path run iter parts =
     (let (match, iter, v) = x3_parse run iter (Opt (Seq (Lit '':'') (Raw uri_port))) (up_port parts);
          parts = parts\<lparr>up_port := v\<rparr>
      in if \<not> match then (False, parts) else
      let (match, iter, v) = x3_parse run iter (Raw uri_path_abempty) (up_path parts);
          parts = parts\<lparr>up_path := v\<rparr>
      in if \<not> match then (False, parts) else parse_tail run iter parts)"

definition parse_complete :: "char x3_run \<Rightarrow> string \<Rightarrow> char uri_parts \<Rightarrow> bool \<times> char uri_parts" where
  "parse_complete run uri parts =
     (let (match, iter, v) = x3_parse run uri (Seq (Raw uri_scheme) (Lit '':'')) (up_scheme parts);
          parts = parts\<lparr>up_scheme := v\<rparr>
      in if \<not> match then (False, parts) else
      let old = iter;
          (match, iter, v) = x3_parse run iter
            (seqs (Lit ''//'') [Opt (Seq uri_userinfo (Lit ''@'')), Raw uri_host]) (up_host parts);
          parts = parts\<lparr>up_host := v\<rparr>
      in if match then parse_port_path run iter parts
      else
        (let (match, iter, v) = x3_parse run old (Raw uri_path_empty) (up_path parts);
             parts = parts\<lparr>up_path := v\<rparr>
         in if \<not> match then (False, parts) else parse_tail run iter parts))"

definition parse_authority :: "char x3_run \<Rightarrow> string \<Rightarrow> char uri_parts \<Rightarrow> bool \<times> char uri_parts" where
  "parse_authority run uri parts =
     (let (match, iter, v) = x3_parse run uri
            (Seq (Opt (Seq uri_userinfo (Lit ''@''))) (Raw uri_host)) (up_host parts);
          parts = parts\<lparr>up_host := v\<rparr>
      in if match then parse_port_path run iter parts else (False, parts))"

definition parse_uri :: "char x3_run \<Rightarrow> string \<Rightarrow> char uri_parts" where
  "parse_uri run uri =
     (let (ok, parts) = parse_complete run uri no_parts
      in if ok then parts else
      let (ok, parts) = parse_authority run uri no_parts
      in if ok then parts else no_parts)"

subsection \<open>Code points\<close>

definition parse_tail32 :: "u32 x3_run \<Rightarrow> u32 list \<Rightarrow> u32 uri_parts \<Rightarrow> bool \<times> u32 uri_parts" where
  "parse_tail32 run iter parts =
     (let (match, iter, v) = x3_parse run iter (Opt (Seq (Lit (cps ''?'')) (Raw unicode_query))) (up_query parts);
          parts = parts\<lparr>up_query := v\<rparr>
      in if \<not> match then (False, parts) else
      let (match, iter, v) = x3_parse run iter (Opt (Seq (Lit (cps ''#'')) (Raw unicode_fragment))) (up_fragment parts);
          parts = parts\<lparr>up_fragment := v\<rparr>
      in if \<not> match then (False, parts) else (iter = [], parts))"

definition parse_port_path32 :: "u32 x3_run \<Rightarrow> u32 list \<Rightarrow> u32 uri_parts \<Rightarrow> bool \<times> u32 uri_parts" where
  "parse_port_path32 run iter parts =
     (let (match, iter, v) = x3_parse run iter (Opt (Seq (Lit (cps '':'')) (Raw unicode_port))) (up_port parts);
          parts = parts\<lparr>up_port := v\<rparr>
      in if \<not> match then (False, parts) else
      let (match, iter, v) = x3_parse run iter (Raw unicode_path_abempty) (up_path parts);
          parts = parts\<lparr>up_path := v\<rparr>
      in if \<not> match then (False, parts) else parse_tail32 run iter parts)"

definition parse_complete32 :: "u32 x3_run \<Rightarrow> u32 list \<Rightarrow> u32 uri_parts \<Rightarrow> bool \<times> u32 uri_parts" where
  "parse_complete32 run uri parts =
     (let (match, iter, v) = x3_parse run uri (Seq (Raw unicode_scheme) (Lit (cps '':''))) (up_scheme parts);
          parts = parts\<lparr>up_scheme := v\<rparr>
      in if \<not> match then (False, parts) else
      let old = iter;
          (match, iter, v) = x3_parse run iter
            (seqs (Lit (cps ''//'')) [Opt (Seq unicode_userinfo (Lit (cps ''@''))), Raw unicode_host]) (up_host parts);
          parts = parts\<lparr>up_host := v\<rparr>
      in if match then parse_port_path32 run iter parts
      else
        (let (match, iter, v) = x3_parse run old (Raw unicode_path_empty) (up_path parts);
             parts = parts\<lparr>up_path := v\<rparr>
         in if \<not> match then (False, parts) else parse_tail32 run iter parts))"

definition parse_authority32 :: "u32 x3_run \<Rightarrow> u32 list \<Rightarrow> u32 uri_parts \<Rightarrow> bool \<times> u32 uri_parts" where
  "parse_authority32 run uri parts =
     (let (match, iter, v) = x3_parse run uri
            (Seq (Opt (Seq unicode_userinfo (Lit (cps ''@'')))) (Raw unicode_host)) (up_host parts);
          parts = parts\<lparr>up_host := v\<rparr>
      in if match then parse_port_path32 run iter parts else (False, parts))"

definition parse_uri32 :: "u32 x3_run \<Rightarrow> u32 list \<Rightarrow> u32 uri_parts" where
  "parse_uri32 run uri =
     (let (ok, parts) = parse_complete32 run uri no_parts
      in if ok then parts else
      let (ok, parts) = parse_authority32 run uri no_parts
      in if ok then parts else no_parts)"

end
