(* ===== verification/Uri_Spec.thy ===== *)
theory Uri_Spec
  imports Uri_Host Uri_Parts
begin

text \<open>
  The abstract specification of the narrow URI parsers: which strings are a complete URI or an
  authority form, and which parts they have. It speaks of strings and character classes only.
\<close>

definition scheme_ok :: "string \<Rightarrow> bool" where
  "scheme_ok s = (case s of [] \<Rightarrow> False | c # r \<Rightarrow> std_isalpha c \<and> list_all is_scheme_char r)"

text \<open>A part that is absent, or its delimiter followed by its value.\<close>

definition opt_part :: "char \<Rightarrow> (string \<Rightarrow> bool) \<Rightarrow> string \<Rightarrow> string \<Rightarrow> bool" where
  "opt_part d P text v = (text = [] \<and> v = [] \<or> text = d # v \<and> P v)"

definition userinfo_part :: "string \<Rightarrow> bool" where
  "userinfo_part text = (text = [] \<or> (\<exists>u. text = u @ ''@'' \<and> toks is_user_char u))"

definition bracketed :: "string \<Rightarrow> bool" where
  "bracketed h = (\<exists>y. h = ''['' @ y @ '']'' \<and> list_all is_user_char y)"

definition host_ok :: "string \<Rightarrow> bool" where
  "host_ok h = (bracketed h \<or> v4_host h \<or> toks is_reg_char h)"

inductive authority_form :: "string \<Rightarrow> string \<Rightarrow> string \<Rightarrow> string \<Rightarrow> bool" where
  "userinfo_part ut \<Longrightarrow> host_ok h \<Longrightarrow> opt_part CHR '':'' (list_all std_isdigit) pt p \<Longrightarrow> abempty pa \<Longrightarrow>
   authority_form (ut @ h @ pt @ pa) h p pa"

inductive tail_form :: "string \<Rightarrow> string \<Rightarrow> string \<Rightarrow> bool" where
  "opt_part CHR ''?'' (toks is_query_char) qt q \<Longrightarrow> opt_part CHR ''#'' (toks is_query_char) ft f \<Longrightarrow>
   tail_form (qt @ ft) q f"

inductive complete_uri :: "string \<Rightarrow> char uri_parts \<Rightarrow> bool" where
  with_authority: "scheme_ok s \<Longrightarrow> authority_form a h p pa \<Longrightarrow> tail_form t q f \<Longrightarrow>
   complete_uri (s @ ''://'' @ a @ t)
     \<lparr>up_scheme = s, up_host = h, up_port = p, up_path = pa, up_query = q, up_fragment = f\<rparr>"
| without_authority: "scheme_ok s \<Longrightarrow> tail_form t q f \<Longrightarrow>
   complete_uri (s @ '':'' @ t)
     \<lparr>up_scheme = s, up_host = [], up_port = [], up_path = [], up_query = q, up_fragment = f\<rparr>"

inductive authority_uri :: "string \<Rightarrow> char uri_parts \<Rightarrow> bool" where
  "authority_form a h p pa \<Longrightarrow> tail_form t q f \<Longrightarrow>
   authority_uri (a @ t)
     \<lparr>up_scheme = [], up_host = h, up_port = p, up_path = pa, up_query = q, up_fragment = f\<rparr>"

subsection \<open>The rules and the specification\<close>

lemma uri_ok [simp]:
  "x3_ok ascii uri_scheme" "x3_ok ascii uri_userinfo" "x3_ok ascii uri_host" "x3_ok ascii uri_port"
  "x3_ok ascii uri_path_abempty" "x3_ok ascii uri_path_empty" "x3_ok ascii uri_query"
  "x3_ok ascii uri_fragment" "x3_ok ascii uri_ip_literal" "x3_ok ascii uri_ip_v4_address"
  by (simp_all add: uri_defs)

lemma uri_attr_free [simp]:
  "attr_free uri_scheme" "attr_free uri_userinfo" "attr_free uri_host" "attr_free uri_port"
  "attr_free uri_path_abempty" "attr_free uri_path_empty" "attr_free uri_query" "attr_free uri_fragment"
  "attr_free uri_ip_literal" "attr_free uri_ip_v4_address"
  by (simp_all add: uri_defs)

lemma list_all_takeWhile: "list_all P (takeWhile P s)"
  by (induction s) simp_all

lemma scheme_sound: "match ascii uri_scheme (x @ r) = Some r \<Longrightarrow> scheme_ok x"
proof -
  assume m: "match ascii uri_scheme (x @ r) = Some r"
  then obtain c u where s: "x @ r = c # u" "std_isalpha c" "r = dropWhile is_scheme_char u"
    by (auto simp: match_scheme split: list.splits if_splits)
  then have "x @ r = (c # takeWhile is_scheme_char u) @ r"
    by simp
  then have "x = c # takeWhile is_scheme_char u"
    by (simp only: append_same_eq)
  with s show ?thesis
    by (simp add: scheme_ok_def list_all_takeWhile)
qed

lemma user_char_only:
  "std_isxdigit c \<Longrightarrow> is_user_char c" "std_isdigit c \<Longrightarrow> is_user_char c"
  "is_unreserved c \<Longrightarrow> is_user_char c" "is_sub_delim c \<Longrightarrow> is_user_char c"
  by (auto simp: is_user_char_def is_reg_char_def is_unreserved_def std_isxdigit_def std_isalpha_def
      less_eq_char_def)

lemma bracketed_sound:
  assumes "match ascii uri_ip_literal (x @ r) = Some r"
  shows "bracketed x"
proof -
  have dec: "only ascii is_user_char uri_dec_octet"
    unfolding uri_dec_octet_def
    by (auto simp: chset_mem_range user_char_only std_isdigit_def less_eq_char_def
        intro!: user_char_only(2))
  have lit: "is_user_char CHR '':''" "is_user_char CHR ''.''" "is_user_char CHR ''v''"
    by (simp_all add: is_user_char_def is_reg_char_def is_unreserved_def std_isalpha_def less_eq_char_def)
  have sub: "only ascii is_user_char uri_unreserved" "only ascii is_user_char uri_sub_delims"
    by (auto simp: uri_unreserved_def uri_sub_delims_def chset_plain_simps is_user_char_def
        is_reg_char_def is_unreserved_def is_sub_delim_def)
  have "only ascii is_user_char (Alt uri_ip_v6_address uri_ip_vfuture)"
    using dec lit sub user_char_only
    by (simp add: uri_ip_v6_address_def uri_ip_vfuture_def uri_ls32_def uri_h16_def
        uri_ip_v4_address_def)
  moreover obtain y where "x @ r = CHR ''['' # y"
    and "match ascii (Alt uri_ip_v6_address uri_ip_vfuture) y = Some (CHR '']'' # r)"
    using assms unfolding uri_ip_literal_def seqs.simps match_Seq_iff
    by (auto simp: prefix_def split: if_splits)
  ultimately obtain z where "x @ r = ''['' @ (z @ '']'') @ r" and "list_all is_user_char z"
    using match_only by (fastforce simp: took_def)
  then show ?thesis
    by (auto simp: bracketed_def)
qed

lemma host_sound:
  assumes "match ascii uri_host (x @ r) = Some r"
  shows "host_ok x"
proof (cases "match ascii uri_ip_literal (x @ r)")
  case (Some t)
  with assms bracketed_sound [of x r] show ?thesis
    by (simp add: host_cases host_ok_def)
next
  case None
  show ?thesis
  proof (cases "match ascii uri_ip_v4_address (x @ r)")
    case (Some t)
    with assms None ip_v4_sound [OF Some] show ?thesis
      by (auto simp: host_cases host_ok_def intro: v4_host.intros)
  next
    case v4: None
    with assms None loop_tok_split [of "x @ r" is_reg_char] show ?thesis
      by (auto simp: host_cases host_ok_def)
  qed
qed

lemma loop_sound: "match_loop (tok P) (x @ r) = r \<Longrightarrow> toks P x"
  using loop_tok_split [of "x @ r" P] by auto

lemma dropWhile_sound: "dropWhile P (x @ r) = r \<Longrightarrow> list_all P x"
proof -
  assume "dropWhile P (x @ r) = r"
  then have "x @ r = takeWhile P (x @ r) @ r"
    by (metis takeWhile_dropWhile_id)
  then have "x = takeWhile P (x @ r)"
    by (simp only: append_same_eq)
  then show ?thesis
    by (metis list_all_takeWhile)
qed

lemma path_sound: "match ascii uri_path_abempty (x @ r) = Some r \<Longrightarrow> abempty x"
  using drop_abempty_split [of "x @ r"] by (auto simp: match_path_abempty)

lemma query_sound: "match ascii uri_query (x @ r) = Some r \<Longrightarrow> toks is_query_char x"
  and fragment_sound: "match ascii uri_fragment (x @ r) = Some r \<Longrightarrow> toks is_query_char x"
  by (simp_all add: loop_sound)

lemma userinfo_sound:
  assumes "match ascii (Seq uri_userinfo (Lit ''@'')) (u @ r) = Some r"
  shows "userinfo_part u"
proof -
  have "match_loop (tok is_user_char) (u @ r) = CHR ''@'' # r"
    using assms by (auto simp: prefix_def split: if_splits)
  with loop_tok_split [of "u @ r" is_user_char] obtain x where "u @ r = (x @ ''@'') @ r" "toks is_user_char x"
    by auto
  then show ?thesis
    by (auto simp: userinfo_part_def)
qed

end
