(* ===== verification/Parse_Uri_Correct.thy ===== *)
theory Parse_Uri_Correct
  imports Parse_Uri Uri_Spec
begin

text \<open>
  The narrow URI parsers refine the abstract forms: what \<open>parse_complete\<close> and
  \<open>parse_authority\<close> accept is a complete URI or an authority form with the parts they return,
  and what is composed from well-formed parts parses back into these parts.
\<close>

subsection \<open>Soundness\<close>

lemma tail_sound:
  assumes lib: "x3_lib ascii run" and "parse_tail run s parts = (True, p)"
    and "up_query parts = []" "up_fragment parts = []"
  shows "\<exists>q f. tail_form s q f \<and> p = parts\<lparr>up_query := q, up_fragment := f\<rparr>"
proof -
  obtain m1 r1 q where q: "x3_parse run s (Opt (Seq (Lit ''?'') (Raw uri_query))) [] = (m1, r1, q)"
    by (rule prod_cases3)
  obtain m2 r2 f where f: "x3_parse run r1 (Opt (Seq (Lit ''#'') (Raw uri_fragment))) [] = (m2, r2, f)"
    by (rule prod_cases3)
  obtain qt where "m1" "s = qt @ r1" "opt_part CHR ''?'' (toks is_query_char) qt q"
    using x3_lib.opt_lit_raw_phrase [OF lib _ _ q] by (auto simp: opt_part_def dest: loop_sound)
  moreover obtain ft where "m2" "r1 = ft @ r2" "opt_part CHR ''#'' (toks is_query_char) ft f"
    using x3_lib.opt_lit_raw_phrase [OF lib _ _ f] by (auto simp: opt_part_def dest: loop_sound)
  moreover from calculation have "r2 = []" "p = parts\<lparr>up_query := q, up_fragment := f\<rparr>"
    using assms(2-4) q f by (auto simp: parse_tail_def split: if_splits)
  ultimately show ?thesis
    using tail_form.intros [of qt q ft f] by auto
qed

lemma port_path_sound:
  assumes lib: "x3_lib ascii run" and "parse_port_path run s parts = (True, p)"
    and "up_port parts = []" "up_path parts = []" "up_query parts = []" "up_fragment parts = []"
  shows "\<exists>pt po pa t q f. s = pt @ pa @ t \<and> opt_part CHR '':'' (list_all std_isdigit) pt po \<and> abempty pa \<and>
    tail_form t q f \<and> p = parts\<lparr>up_port := po, up_path := pa, up_query := q, up_fragment := f\<rparr>"
proof -
  obtain m1 r1 po where po: "x3_parse run s (Opt (Seq (Lit '':'') (Raw uri_port))) [] = (m1, r1, po)"
    by (rule prod_cases3)
  obtain m2 r2 pa where pa: "x3_parse run r1 (Raw uri_path_abempty) [] = (m2, r2, pa)"
    by (rule prod_cases3)
  obtain pt where pt: "m1" "s = pt @ r1" "opt_part CHR '':'' (list_all std_isdigit) pt po"
    using x3_lib.opt_lit_raw_phrase [OF lib _ _ po] by (auto simp: opt_part_def dest: dropWhile_sound)
  with assms(2-4) po pa have m2: "m2"
    and tail: "parse_tail run r2 (parts\<lparr>up_port := po, up_path := pa\<rparr>) = (True, p)"
    by (auto simp: parse_port_path_def Let_def split: if_splits)
  with pa have "r1 = pa @ r2" "abempty pa"
    using x3_lib.raw_phrase [OF lib, of uri_path_abempty r1 "[]" r2 pa] path_sound [of pa r2] by auto
  moreover obtain q f where "tail_form r2 q f"
    "p = parts\<lparr>up_port := po, up_path := pa, up_query := q, up_fragment := f\<rparr>"
    using tail_sound [OF lib tail] assms(5,6) by auto
  moreover from calculation have "s = pt @ pa @ r2"
    using pt(2) by simp
  ultimately show ?thesis
    using pt(3) by blast
qed

lemma host_phrase_sound:
  assumes lib: "x3_lib ascii run"
    and "x3_parse run s (Seq (Opt (Seq uri_userinfo (Lit ''@''))) (Raw uri_host)) a = (True, r, h)"
  shows "\<exists>ut. s = ut @ h @ r \<and> userinfo_part ut \<and> host_ok h"
  using x3_lib.opt_raw_phrase [OF lib _ _ _ _ assms(2)] userinfo_sound host_sound
  by (auto simp: userinfo_part_def)

lemma parse_authority_sound:
  assumes lib: "x3_lib ascii run" and "parse_authority run uri no_parts = (True, p)"
  shows "authority_uri uri p"
proof -
  obtain r h where h: "x3_parse run uri (Seq (Opt (Seq uri_userinfo (Lit ''@''))) (Raw uri_host)) [] = (True, r, h)"
    and rest: "parse_port_path run r (no_parts\<lparr>up_host := h\<rparr>) = (True, p)"
    using assms(2) by (auto simp: parse_authority_def Let_def split: prod.splits if_splits)
  obtain ut where "uri = ut @ h @ r" "userinfo_part ut" "host_ok h"
    using host_phrase_sound [OF lib h] by blast
  moreover obtain pt po pa t q f where "r = pt @ pa @ t" "opt_part CHR '':'' (list_all std_isdigit) pt po"
    "abempty pa" "tail_form t q f"
    "p = no_parts\<lparr>up_host := h, up_port := po, up_path := pa, up_query := q, up_fragment := f\<rparr>"
    using port_path_sound [OF lib rest] by auto
  ultimately show ?thesis
    using authority_uri.intros [OF authority_form.intros [of ut h pt po pa] \<open>tail_form t q f\<close>]
    by (simp add: no_parts_def)
qed

lemma parse_complete_sound:
  assumes lib: "x3_lib ascii run" and "parse_complete run uri no_parts = (True, p)"
  shows "complete_uri uri p"
proof -
  let ?host = "Seq (Seq (Lit ''//'') (Opt (Seq uri_userinfo (Lit ''@'')))) (Raw uri_host)"
  obtain s r where s: "x3_parse run uri (Seq (Raw uri_scheme) (Lit '':'')) [] = (True, r, s)"
    using assms(2) by (auto simp: parse_complete_def Let_def split: prod.splits if_splits)
  then have scheme: "uri = s @ '':'' @ r" "scheme_ok s"
    using x3_lib.raw_lit_phrase [OF lib _ _ s] scheme_sound by auto
  obtain m r2 h where h: "x3_parse run r ?host [] = (m, r2, h)"
    by (rule prod_cases3)
  show ?thesis
  proof (cases m)
    case True
    with h obtain a where a: "r = ''//'' @ a"
      "x3_parse run a (Seq (Opt (Seq uri_userinfo (Lit ''@''))) (Raw uri_host)) [] = (True, r2, h)"
      using x3_lib.lit_opt_raw_phrase [OF lib, of "Seq uri_userinfo (Lit ''@'')" uri_host r "''//''" "[]" r2 h]
      by auto
    obtain ut where "a = ut @ h @ r2" "userinfo_part ut" "host_ok h"
      using host_phrase_sound [OF lib a(2)] by blast
    moreover have rest: "parse_port_path run r2 (no_parts\<lparr>up_scheme := s, up_host := h\<rparr>) = (True, p)"
      using assms(2) s h True by (simp add: parse_complete_def)
    obtain pt po pa t q f where "r2 = pt @ pa @ t" "opt_part CHR '':'' (list_all std_isdigit) pt po"
      "abempty pa" "tail_form t q f" "p = no_parts\<lparr>up_scheme := s, up_host := h, up_port := po,
        up_path := pa, up_query := q, up_fragment := f\<rparr>"
      using port_path_sound [OF lib rest] by auto
    ultimately show ?thesis
      using complete_uri.with_authority [OF scheme(2) authority_form.intros [of ut h pt po pa] \<open>tail_form t q f\<close>]
        scheme(1) a(1) by (simp add: no_parts_def)
  next
    case False
    have "h = []"
      using h False x3_lib.parse_lit_opt_raw [OF lib, of "Seq uri_userinfo (Lit ''@'')" uri_host r "''//''" "[]"]
      by (auto simp: Let_def split: if_splits option.splits)
    moreover have "x3_parse run r (Raw uri_path_empty) [] = (True, r, [])"
      using x3_lib.parse_raw [OF lib, of uri_path_empty r "[]"] by simp
    ultimately have rest: "parse_tail run r (no_parts\<lparr>up_scheme := s\<rparr>) = (True, p)"
      using assms(2) s h False by (simp add: parse_complete_def no_parts_def)
    obtain q f where "tail_form r q f" "p = no_parts\<lparr>up_scheme := s, up_query := q, up_fragment := f\<rparr>"
      using tail_sound [OF lib rest] by auto
    then show ?thesis
      using complete_uri.without_authority [OF scheme(2) \<open>tail_form r q f\<close>] scheme(1)
      by (simp add: no_parts_def)
  qed
qed

subsection \<open>Completeness\<close>

text \<open>What may follow a path, and what may follow a port.\<close>

definition at_tail :: "string \<Rightarrow> bool" where
  "at_tail s = (case s of [] \<Rightarrow> True | c # r \<Rightarrow> c \<in> set ''?#'')"

definition simple_host :: "string \<Rightarrow> bool" where
  "simple_host h = (plain_host h \<or> v4_host h)"

lemma tail_form_at_tail: "tail_form t q f \<Longrightarrow> at_tail t"
  by (auto simp: tail_form.simps opt_part_def at_tail_def)

lemma class_simps:
  "\<not> is_query_char CHR ''#''" "\<not> is_abpath_char CHR ''#''" "\<not> is_abpath_char CHR ''?''"
  "\<not> is_user_char CHR ''@''" "\<not> is_user_char CHR ''/''" "\<not> is_user_char CHR ''?''"
  "\<not> is_user_char CHR ''#''" "is_user_char CHR '':''" "\<not> is_scheme_char CHR '':''"
  "\<not> std_isdigit CHR ''/''" "\<not> std_isdigit CHR ''?''" "\<not> std_isdigit CHR ''#''"
  by (simp_all add: is_query_char_def is_abpath_char_def is_path_char_def is_user_char_def is_reg_char_def
      is_unreserved_def is_sub_delim_def is_scheme_char_def std_isalpha_def std_isdigit_def less_eq_char_def)

lemma at_tail_tok: "at_tail t \<Longrightarrow> tok is_abpath_char t = None"
  by (cases t) (auto simp: at_tail_def class_simps)

lemma path_tail_head:
  assumes "abempty pa" "at_tail t"
  shows "pa @ t = [] \<or> hd (pa @ t) \<in> set ''/?#''"
  using assms by (cases pa; cases t) (auto simp: abempty_def at_tail_def)

lemma path_tail_tok: "abempty pa \<Longrightarrow> at_tail t \<Longrightarrow> tok is_user_char (pa @ t) = None"
  using path_tail_head [of pa t] by (cases "pa @ t") (auto simp: class_simps)

lemma dropWhile_append_stop:
  "list_all P x \<Longrightarrow> r = [] \<or> \<not> P (hd r) \<Longrightarrow> dropWhile P (x @ r) = r"
  by (induction x) (auto simp: dropWhile_eq_self_iff)

lemma opt_part_hit:
  assumes lib: "x3_lib ascii run" and "x3_ok ascii p" "attr_free p"
    and "opt_part d P text v" and "\<And>x. P x \<Longrightarrow> match ascii p (x @ r) = Some r"
    and "r = [] \<or> hd r \<noteq> d"
  shows "x3_parse run (text @ r) (Opt (Seq (Lit [d]) (Raw p))) [] = (True, r, v)"
proof (cases "text = []")
  case True
  moreover have "\<not> prefix [d] r"
    using assms(6) by (cases r) auto
  ultimately show ?thesis
    using assms x3_lib.opt_lit_raw_miss [OF lib, of p "[d]" r "[]"] by (auto simp: opt_part_def)
next
  case False
  with assms have "text @ r = [d] @ v @ r" and "match ascii p (v @ r) = Some r"
    by (auto simp: opt_part_def)
  with assms(2,3) show ?thesis
    using x3_lib.opt_lit_raw_hit [OF lib] by metis
qed

lemma tail_complete:
  assumes lib: "x3_lib ascii run" and "tail_form s q f"
    and "up_query parts = []" "up_fragment parts = []"
  shows "parse_tail run s parts = (True, parts\<lparr>up_query := q, up_fragment := f\<rparr>)"
proof -
  obtain qt ft where s: "s = qt @ ft" and qt: "opt_part CHR ''?'' (toks is_query_char) qt q"
    and ft: "opt_part CHR ''#'' (toks is_query_char) ft f"
    using assms(2) by cases
  have stop: "tok is_query_char ft = None" "ft = [] \<or> hd ft \<noteq> CHR ''?''"
    using ft by (auto simp: opt_part_def class_simps)
  have "x3_parse run s (Opt (Seq (Lit ''?'') (Raw uri_query))) [] = (True, ft, q)"
    unfolding s using stop by (intro opt_part_hit [OF lib _ _ qt]) (simp_all add: loop_tok_append)
  moreover have "x3_parse run ft (Opt (Seq (Lit ''#'') (Raw uri_fragment))) [] = (True, [], f)"
    using opt_part_hit [OF lib _ _ ft, of uri_fragment "[]"] loop_tok_append [of is_query_char _ "[]"]
    by simp
  ultimately show ?thesis
    using assms(3,4) by (simp add: parse_tail_def)
qed

lemma port_path_complete:
  assumes lib: "x3_lib ascii run" and pt: "opt_part CHR '':'' (list_all std_isdigit) pt po"
    and pa: "abempty pa" and t: "tail_form t q f"
    and "up_port parts = []" "up_path parts = []" "up_query parts = []" "up_fragment parts = []"
  shows "parse_port_path run (pt @ pa @ t) parts =
    (True, parts\<lparr>up_port := po, up_path := pa, up_query := q, up_fragment := f\<rparr>)"
proof -
  have at: "at_tail t"
    using t by (rule tail_form_at_tail)
  have hd: "pa @ t = [] \<or> \<not> std_isdigit (hd (pa @ t))" "pa @ t = [] \<or> hd (pa @ t) \<noteq> CHR '':''"
    using path_tail_head [OF pa at] by (auto simp: class_simps)
  have "x3_parse run (pt @ pa @ t) (Opt (Seq (Lit '':'') (Raw uri_port))) [] = (True, pa @ t, po)"
    using hd by (intro opt_part_hit [OF lib _ _ pt]) (simp_all add: dropWhile_append_stop)
  moreover have "x3_parse run (pa @ t) (Raw uri_path_abempty) [] = (True, t, pa)"
    using pa at
    by (intro x3_lib.raw_hit [OF lib]) (simp_all add: match_path_abempty drop_abempty_append at_tail_tok)
  ultimately show ?thesis
    using assms(5-8) tail_complete [OF lib t] by (simp add: parse_port_path_def)
qed

lemma simple_host_match:
  "simple_host h \<Longrightarrow> at_delim r \<Longrightarrow> match ascii uri_host (h @ r) = Some r"
  by (auto simp: simple_host_def host_plain host_v4)

lemma digit_user_char: "std_isdigit c \<Longrightarrow> is_user_char c"
  and reg_user_char: "is_reg_char c \<Longrightarrow> is_user_char c"
  by (simp_all add: is_user_char_def is_reg_char_def is_unreserved_def)

lemma dec_user: "n < 256 \<Longrightarrow> list_all is_user_char (dec n)"
  using dec_digits [of n] digit_user_char by (auto simp: list_all_iff)

lemma simple_host_toks: "simple_host h \<Longrightarrow> toks is_user_char h"
proof (unfold simple_host_def, elim disjE)
  assume "plain_host h"
  then show ?thesis
    by (auto simp: plain_host_def elim: toks_mono [rotated 2] intro: reg_user_char)
next
  assume "v4_host h"
  then show ?thesis
  proof cases
    case (v4_host a b c d)
    moreover have "is_user_char CHR ''.''"
      by (simp add: is_user_char_def is_reg_char_def is_unreserved_def)
    ultimately have "list_all is_user_char h"
      by (simp add: dotted_def dec_user)
    then show ?thesis
      by (rule toks_list_all)
  qed
qed

text \<open>The optional user information before a host whose rest is port, path and tail.\<close>

lemma userinfo_match:
  assumes ut: "userinfo_part ut" and h: "simple_host h"
    and pt: "opt_part CHR '':'' (list_all std_isdigit) pt po" and pa: "abempty pa" and t: "at_tail t"
  shows "match ascii (Opt (Seq uri_userinfo (Lit ''@''))) (ut @ h @ pt @ pa @ t) = Some (h @ pt @ pa @ t)"
proof (cases "ut = []")
  case True
  have "toks is_user_char pt"
    using pt by (auto simp: opt_part_def class_simps list_all_iff intro!: toks_list_all digit_user_char)
  then have "toks is_user_char (h @ pt)"
    using toks_append simple_host_toks [OF h] by blast
  then have "match_loop (tok is_user_char) ((h @ pt) @ pa @ t) = pa @ t"
    using path_tail_tok [OF pa t] by (rule loop_tok_append)
  moreover have "\<not> prefix ''@'' (pa @ t)"
    using path_tail_head [OF pa t] by (cases "pa @ t") auto
  ultimately show ?thesis
    using True by simp
next
  case False
  with ut obtain u where u: "ut = u @ ''@''" "toks is_user_char u"
    by (auto simp: userinfo_part_def)
  then have "match_loop (tok is_user_char) (u @ ''@'' @ h @ pt @ pa @ t) = ''@'' @ h @ pt @ pa @ t"
    by (intro loop_tok_append) (simp_all add: class_simps)
  with u show ?thesis
    by simp
qed

lemma host_hit:
  assumes lib: "x3_lib ascii run" and h: "simple_host h"
    and "userinfo_part ut" "opt_part CHR '':'' (list_all std_isdigit) pt po" "abempty pa" "at_tail t"
  defines "r \<equiv> pt @ pa @ t"
  shows "x3_parse run (ut @ h @ r) (Seq (Opt (Seq uri_userinfo (Lit ''@''))) (Raw uri_host)) a = (True, r, h)"
    and "x3_parse run (''//'' @ ut @ h @ r)
      (Seq (Seq (Lit ''//'') (Opt (Seq uri_userinfo (Lit ''@'')))) (Raw uri_host)) a = (True, r, h)"
proof -
  have "at_delim r"
    using assms(4) path_tail_head [OF assms(5,6)]
    by (cases "pa @ t") (auto simp: r_def opt_part_def at_delim_def)
  with h have m: "match ascii uri_host (h @ r) = Some r"
    by (rule simple_host_match)
  have u: "match ascii (Opt (Seq uri_userinfo (Lit ''@''))) (ut @ h @ r) = Some (h @ r)"
    using userinfo_match [OF assms(3) h assms(4-6)] by (simp add: r_def)
  show "x3_parse run (ut @ h @ r) (Seq (Opt (Seq uri_userinfo (Lit ''@''))) (Raw uri_host)) a = (True, r, h)"
    by (rule x3_lib.opt_raw_hit [OF lib _ _ _ _ u m]) simp_all
  show "x3_parse run (''//'' @ ut @ h @ r)
      (Seq (Seq (Lit ''//'') (Opt (Seq uri_userinfo (Lit ''@'')))) (Raw uri_host)) a = (True, r, h)"
    by (rule x3_lib.lit_opt_raw_hit [OF lib _ _ _ _ u m]) simp_all
qed

lemma scheme_hit:
  assumes lib: "x3_lib ascii run" and "scheme_ok s"
  shows "x3_parse run (s @ '':'' @ r) (Seq (Raw uri_scheme) (Lit '':'')) a = (True, r, s)"
proof (rule x3_lib.raw_lit_hit [OF lib])
  show "match ascii uri_scheme (s @ '':'' @ r) = Some ('':'' @ r)"
    using assms(2) dropWhile_append_stop [of is_scheme_char "tl s" "'':'' @ r"]
    by (auto simp: scheme_ok_def match_scheme class_simps split: list.splits)
qed simp_all

lemma parse_complete_compose:
  assumes lib: "x3_lib ascii run" and "scheme_ok s" and ut: "userinfo_part ut" and h: "simple_host h"
    and pt: "opt_part CHR '':'' (list_all std_isdigit) pt po" and pa: "abempty pa" and t: "tail_form t q f"
  shows "parse_complete run (s @ '':'' @ ''//'' @ ut @ h @ pt @ pa @ t) no_parts =
    (True, \<lparr>up_scheme = s, up_host = h, up_port = po, up_path = pa, up_query = q, up_fragment = f\<rparr>)"
proof -
  note hh = host_hit(2) [OF lib h ut pt pa tail_form_at_tail [OF t], of "[]"]
  show ?thesis
    using scheme_hit [OF lib assms(2), of "''//'' @ ut @ h @ pt @ pa @ t" "[]"] hh
      port_path_complete [OF lib pt pa t, of "no_parts\<lparr>up_scheme := s, up_host := h\<rparr>"]
    by (simp add: parse_complete_def no_parts_def)
qed

lemma parse_authority_compose:
  assumes lib: "x3_lib ascii run" and ut: "userinfo_part ut" and h: "simple_host h"
    and pt: "opt_part CHR '':'' (list_all std_isdigit) pt po" and pa: "abempty pa" and t: "tail_form t q f"
  shows "parse_authority run (ut @ h @ pt @ pa @ t) no_parts =
    (True, \<lparr>up_scheme = [], up_host = h, up_port = po, up_path = pa, up_query = q, up_fragment = f\<rparr>)"
  using host_hit(1) [OF lib h ut pt pa tail_form_at_tail [OF t], of "[]"]
    port_path_complete [OF lib pt pa t, of "no_parts\<lparr>up_host := h\<rparr>"]
  by (simp add: parse_authority_def no_parts_def)

end
