(* ===== verification/Parse_Uri_Facts.thy ===== *)
theory Parse_Uri_Facts
  imports Parse_Uri_Correct
begin

text \<open>
  The theorems about \<^verbatim>\<open>src/parse_uri.cpp\<close> on narrow characters: refinement of the abstract
  forms, round trips, the choice between the two parsers and IPv4 addresses.
\<close>

lemma parse_uri_cases:
  assumes "x3_lib ascii run"
  shows "parse_uri run uri = no_parts \<or> complete_uri uri (parse_uri run uri) \<or>
    authority_uri uri (parse_uri run uri)"
  using parse_complete_sound [OF assms] parse_authority_sound [OF assms]
  by (auto simp: parse_uri_def split: prod.splits)

subsection \<open>The colon after a scheme\<close>

lemma toks_chars: "toks P s \<Longrightarrow> c \<in> set s \<Longrightarrow> P c \<or> c = CHR ''%'' \<or> std_isxdigit c"
  by (induction P s rule: toks.induct) (auto split: if_splits list.splits)

lemma simple_host_no_colon:
  assumes "simple_host h"
  shows "CHR '':'' \<notin> set h"
proof -
  have d: "CHR '':'' \<notin> set (dec n)" if "n < 256" for n
    using dec_digits [OF that] by (auto simp: list_all_iff std_isdigit_def less_eq_char_def)
  have "\<not> is_reg_char CHR '':''" "\<not> std_isxdigit CHR '':''"
    by (simp_all add: is_reg_char_def is_unreserved_def is_sub_delim_def std_isalpha_def
        std_isdigit_def std_isxdigit_def less_eq_char_def)
  with assms toks_chars [of is_reg_char h "CHR '':''"] d show ?thesis
    by (auto simp: simple_host_def plain_host_def v4_host.simps dotted_def)
qed

lemma scheme_ok_chars: "scheme_ok s \<Longrightarrow> c \<in> set s \<Longrightarrow> is_scheme_char c"
  by (auto simp: scheme_ok_def is_scheme_char_def list_all_iff split: list.splits)

lemma complete_uri_colon:
  assumes "complete_uri uri p"
  obtains s r where "uri = s @ CHR '':'' # r" "scheme_ok s" "r = [] \<or> hd r \<in> set ''/?#''"
  using assms
proof cases
  case (with_authority s a h p pa t q f)
  then show ?thesis
    using that [of s "''//'' @ a @ t"] by simp
next
  case (without_authority s t q f)
  then have "t = [] \<or> hd t \<in> set ''/?#''"
    using tail_form_at_tail [of t q f] by (auto simp: at_tail_def split: list.splits)
  with without_authority show ?thesis
    using that [of s t] by simp
qed

text \<open>
  A host that is followed by a port with digits, a path, a query, a fragment or nothing has no
  reading as a complete URI: its only colon, if any, is followed by a digit.
\<close>

lemma no_complete_reading:
  assumes h: "CHR '':'' \<notin> set h" and x: "x = [] \<or> hd x \<in> set ''/?#'' \<or>
    (\<exists>d r. x = CHR '':'' # d # r \<and> std_isdigit d)"
  shows "\<not> complete_uri (h @ x) p"
proof
  assume "complete_uri (h @ x) p"
  then obtain s r where eq: "h @ x = s @ CHR '':'' # r" and s: "scheme_ok s"
    and r: "r = [] \<or> hd r \<in> set ''/?#''"
    by (rule complete_uri_colon)
  consider us where "h = s @ us" "us @ x = CHR '':'' # r" | us where "s = h @ us" "x = us @ CHR '':'' # r"
    using eq by (auto simp: append_eq_append_conv2)
  then have "x = CHR '':'' # r \<or> (\<exists>c u. x = c # u \<and> is_scheme_char c)"
  proof cases
    case (1 us)
    then show ?thesis
      using h by (cases us) auto
  next
    case (2 us)
    then show ?thesis
      using scheme_ok_chars [OF s] by (cases us) auto
  qed
  then show False
    using x r by (auto simp: class_simps is_scheme_char_def std_isalpha_def std_isdigit_def less_eq_char_def)
qed

definition port_text :: "string \<Rightarrow> string \<Rightarrow> bool" where
  "port_text pt po = opt_part CHR '':'' (\<lambda>p. p \<noteq> [] \<and> list_all std_isdigit p) pt po"

lemma port_text_opt_part: "port_text pt po \<Longrightarrow> opt_part CHR '':'' (list_all std_isdigit) pt po"
  by (auto simp: port_text_def opt_part_def)

lemma parse_uri_host:
  assumes lib: "x3_lib ascii run" and h: "simple_host h" and pt: "port_text pt po"
    and pa: "abempty pa" and t: "tail_form t q f"
  shows "parse_uri run (h @ pt @ pa @ t) =
    \<lparr>up_scheme = [], up_host = h, up_port = po, up_path = pa, up_query = q, up_fragment = f\<rparr>"
proof -
  let ?x = "pt @ pa @ t"
  have "?x = [] \<or> hd ?x \<in> set ''/?#'' \<or> (\<exists>d r. ?x = CHR '':'' # d # r \<and> std_isdigit d)"
  proof (cases "pt = []")
    case True
    then show ?thesis
      using path_tail_head [OF pa tail_form_at_tail [OF t]] by auto
  next
    case False
    then show ?thesis
      using pt by (cases po) (auto simp: port_text_def opt_part_def)
  qed
  then have "\<not> complete_uri (h @ ?x) p" for p
    by (rule no_complete_reading [OF simple_host_no_colon [OF h]])
  then have "\<not> fst (parse_complete run (h @ ?x) no_parts)"
    using parse_complete_sound [OF lib, of "h @ ?x"] by (metis prod.collapse)
  with parse_authority_compose [OF lib _ h port_text_opt_part [OF pt] pa t, of "[]"] show ?thesis
    by (simp add: parse_uri_def userinfo_part_def split_beta)
qed

lemma tail_form_none: "tail_form [] [] []"
  using tail_form.intros [of "[]" "[]" "[]" "[]"] by (simp add: opt_part_def)

text \<open>Composed URIs parse into their parts.\<close>

lemma parse_uri_complete:
  assumes "x3_lib ascii run" and "scheme_ok s" and "userinfo_part ut" and "simple_host h"
    and "opt_part CHR '':'' (list_all std_isdigit) pt po" and "abempty pa" and "tail_form t q f"
  shows "parse_uri run (s @ '':'' @ ''//'' @ ut @ h @ pt @ pa @ t) =
    \<lparr>up_scheme = s, up_host = h, up_port = po, up_path = pa, up_query = q, up_fragment = f\<rparr>"
  using parse_complete_compose [OF assms] by (simp add: parse_uri_def)

lemma parse_uri_authority:
  assumes "x3_lib ascii run" and "simple_host h" and "port_text pt po"
  shows "parse_uri run (h @ pt) = no_parts\<lparr>up_host := h, up_port := po\<rparr>"
  using parse_uri_host [OF assms(1,2,3) _ tail_form_none, of "[]"] by (simp add: abempty_def no_parts_def)

end
