(* ===== verification/Parse_Uri32.thy ===== *)
theory Parse_Uri32
  imports Parse_Uri Uri_Spec
begin

text \<open>
  The parsers of \<^verbatim>\<open>src/parse_uri.cpp\<close> on code points agree with the narrow ones on ASCII
  input. Each phrase of the wide parsers is the image of a phrase of the narrow ones; the
  locale \<open>both_runs\<close> holds the two instances of the parser library side by side.
\<close>

definition map_parts :: "('a \<Rightarrow> 'b) \<Rightarrow> 'a uri_parts \<Rightarrow> 'b uri_parts" where
  "map_parts f p = \<lparr>up_scheme = map f (up_scheme p), up_host = map f (up_host p),
     up_port = map f (up_port p), up_path = map f (up_path p), up_query = map f (up_query p),
     up_fragment = map f (up_fragment p)\<rparr>"

lemma map_parts_upd [simp]:
  "(map_parts f p)\<lparr>up_scheme := map f v\<rparr> = map_parts f (p\<lparr>up_scheme := v\<rparr>)"
  "(map_parts f p)\<lparr>up_host := map f v\<rparr> = map_parts f (p\<lparr>up_host := v\<rparr>)"
  "(map_parts f p)\<lparr>up_port := map f v\<rparr> = map_parts f (p\<lparr>up_port := v\<rparr>)"
  "(map_parts f p)\<lparr>up_path := map f v\<rparr> = map_parts f (p\<lparr>up_path := v\<rparr>)"
  "(map_parts f p)\<lparr>up_query := map f v\<rparr> = map_parts f (p\<lparr>up_query := v\<rparr>)"
  "(map_parts f p)\<lparr>up_fragment := map f v\<rparr> = map_parts f (p\<lparr>up_fragment := v\<rparr>)"
  by (simp_all add: map_parts_def)

lemma map_parts_sel [simp]:
  "up_scheme (map_parts f p) = map f (up_scheme p)" "up_host (map_parts f p) = map f (up_host p)"
  "up_port (map_parts f p) = map f (up_port p)" "up_path (map_parts f p) = map f (up_path p)"
  "up_query (map_parts f p) = map f (up_query p)" "up_fragment (map_parts f p) = map f (up_fragment p)"
  by (simp_all add: map_parts_def)

lemma map_parts_none [simp]: "map_parts f no_parts = no_parts"
  by (simp add: map_parts_def no_parts_def)

lemma unicode_ok [simp]:
  "x3_ok enc unicode_scheme" "x3_ok enc unicode_userinfo" "x3_ok enc unicode_host" "x3_ok enc unicode_port"
  "x3_ok enc unicode_path_abempty" "x3_ok enc unicode_path_empty" "x3_ok enc unicode_query"
  "x3_ok enc unicode_fragment" "x3_ok enc unicode_ip_literal" "x3_ok enc unicode_ip_v4_address"
  by (simp_all add: unicode_defs cps_def)

lemma unicode_attr_free [simp]:
  "attr_free unicode_scheme" "attr_free unicode_userinfo" "attr_free unicode_host" "attr_free unicode_port"
  "attr_free unicode_path_abempty" "attr_free unicode_path_empty" "attr_free unicode_query"
  "attr_free unicode_fragment" "attr_free unicode_ip_literal" "attr_free unicode_ip_v4_address"
  by (simp_all add: unicode_defs)

text \<open>A wide rule is the image of a narrow one, and both are loops that progress and raw.\<close>

definition rule_image :: "u32 encoding \<Rightarrow> u32 parser \<Rightarrow> char parser \<Rightarrow> bool" where
  "rule_image enc q p \<longleftrightarrow> x3_ok enc q \<and> attr_free q \<and> x3_ok ascii p \<and> attr_free p \<and>
     (\<exists>g. q = map_x3 cp g p)"

lemma rule_image_lit: "rule_image enc q p \<Longrightarrow> rule_image enc (Seq q (Lit (cps l))) (Seq p (Lit l))"
  by (auto simp: rule_image_def cps_def)

text \<open>A wide phrase does on the image of an ASCII string what the narrow one does on the string.\<close>

definition phrase_image :: "u32 x3_run \<Rightarrow> char x3_run \<Rightarrow> u32 parser \<Rightarrow> char parser \<Rightarrow> bool" where
  "phrase_image run32 run q p \<longleftrightarrow> (\<forall>s a m r v. list_all is_ascii s \<longrightarrow> x3_parse run s p a = (m, r, v) \<longrightarrow>
     x3_parse run32 (map cp s) q (map cp a) = (m, map cp r, map cp v) \<and> list_all is_ascii r)"

lemma list_all_drop: "list_all P s \<Longrightarrow> list_all P (drop n s)"
  by (auto simp: list_all_iff dest: in_set_dropD)

locale both_runs = wide: unicode_enc enc + wl: x3_lib enc run32 + nl: x3_lib ascii run
  for enc run32 run
begin

lemma rule_match:
  assumes "rule_image enc q p" "list_all is_ascii s"
  shows "match enc q (map cp s) = map_option (map cp) (match ascii p s)"
  using assms wide.match_map_cp by (auto simp: rule_image_def)

lemma opt_match:
  assumes "rule_image enc q p" "list_all is_ascii s"
  shows "the (match enc (Opt q) (map cp s)) = map cp (the (match ascii (Opt p) s))"
    and "list_all is_ascii (the (match ascii (Opt p) s))"
  using assms wide.match_suffix_ascii [of p s] by (auto simp: rule_match split: option.split)

lemma raw_image: "rule_image enc q p \<Longrightarrow> phrase_image run32 run (Raw q) (Raw p)"
  unfolding phrase_image_def
  by (auto simp: wl.parse_raw nl.parse_raw rule_image_def wide.match_map_cp take_map
      split: option.splits intro: wide.match_suffix_ascii)

lemma raw_lit_image:
  "rule_image enc q p \<Longrightarrow> phrase_image run32 run (Seq (Raw q) (Lit (cps l))) (Seq (Raw p) (Lit l))"
  unfolding phrase_image_def
  by (auto simp: wl.parse_raw_lit nl.parse_raw_lit rule_image_def wide.match_map_cp take_map drop_map
      cps_def prefix_map_cp split: option.splits if_splits intro!: list_all_drop intro: wide.match_suffix_ascii)

lemma opt_lit_raw_image:
  "rule_image enc q p \<Longrightarrow> phrase_image run32 run (Opt (Seq (Lit (cps l)) (Raw q))) (Opt (Seq (Lit l) (Raw p)))"
  unfolding phrase_image_def
  by (auto simp: wl.parse_opt_lit_raw nl.parse_opt_lit_raw rule_image_def wide.match_map_cp take_map drop_map
      cps_def prefix_map_cp list_all_drop split: option.splits if_splits
      dest: wide.match_suffix_ascii [OF _ list_all_drop])

lemma opt_raw_image:
  assumes "rule_image enc u' u" "rule_image enc q p"
  shows "phrase_image run32 run (Seq (Opt u') (Raw q)) (Seq (Opt u) (Raw p))"
proof -
  note m = opt_match [OF assms(1)]
  show ?thesis
    using assms m unfolding phrase_image_def
    by (auto simp: wl.parse_opt_raw nl.parse_opt_raw rule_image_def rule_match [OF assms(2)] take_map Let_def
        split: option.splits simp del: match.simps dest: wide.match_suffix_ascii)
qed

lemma lit_opt_raw_image:
  assumes "rule_image enc u' u" "rule_image enc q p"
  shows "phrase_image run32 run (Seq (Seq (Lit (cps l)) (Opt u')) (Raw q)) (Seq (Seq (Lit l) (Opt u)) (Raw p))"
proof -
  note m = opt_match [OF assms(1) list_all_drop]
  show ?thesis
    using assms m unfolding phrase_image_def
    by (auto simp: wl.parse_lit_opt_raw nl.parse_lit_opt_raw rule_image_def rule_match [OF assms(2)] take_map Let_def
        drop_map cps_def prefix_map_cp split: option.splits if_splits simp del: match.simps
        dest: wide.match_suffix_ascii)
qed

lemma image_simps:
  "rule_image enc unicode_scheme uri_scheme" "rule_image enc unicode_userinfo uri_userinfo"
  "rule_image enc unicode_host uri_host" "rule_image enc unicode_port uri_port"
  "rule_image enc unicode_path_abempty uri_path_abempty" "rule_image enc unicode_path_empty uri_path_empty"
  "rule_image enc unicode_query uri_query" "rule_image enc unicode_fragment uri_fragment"
  by (auto simp: rule_image_def intro: unicode_eq_map)

lemma phraseD:
  assumes "phrase_image run32 run q p" "list_all is_ascii s" "x3_parse run s p a = (m, r, v)"
  shows "x3_parse run32 (map cp s) q (map cp a) = (m, map cp r, map cp v) \<and> list_all is_ascii r"
  using assms unfolding phrase_image_def by blast

lemma tail_image:
  assumes "list_all is_ascii s"
  shows "parse_tail32 run32 (map cp s) (map_parts cp p) = map_prod id (map_parts cp) (parse_tail run s p)"
proof -
  obtain m1 r1 v1 where q: "x3_parse run s (Opt (Seq (Lit ''?'') (Raw uri_query))) (up_query p) = (m1, r1, v1)"
    by (rule prod_cases3)
  note q' = phraseD [OF opt_lit_raw_image [OF image_simps(7)] assms q]
  obtain m2 r2 v2 where f: "x3_parse run r1 (Opt (Seq (Lit ''#'') (Raw uri_fragment))) (up_fragment p) = (m2, r2, v2)"
    by (rule prod_cases3)
  note f' = phraseD [OF opt_lit_raw_image [OF image_simps(8)] conjunct2 [OF q'] f]
  show ?thesis
    using q f q' f' by (simp add: parse_tail32_def parse_tail_def Let_def)
qed

lemma port_path_image:
  assumes "list_all is_ascii s"
  shows "parse_port_path32 run32 (map cp s) (map_parts cp p) =
    map_prod id (map_parts cp) (parse_port_path run s p)"
proof -
  obtain m1 r1 v1 where po: "x3_parse run s (Opt (Seq (Lit '':'') (Raw uri_port))) (up_port p) = (m1, r1, v1)"
    by (rule prod_cases3)
  note po' = phraseD [OF opt_lit_raw_image [OF image_simps(4)] assms po]
  obtain m2 r2 v2 where pa: "x3_parse run r1 (Raw uri_path_abempty) (up_path p) = (m2, r2, v2)"
    by (rule prod_cases3)
  note pa' = phraseD [OF raw_image [OF image_simps(5)] conjunct2 [OF po'] pa]
  show ?thesis
    using po pa po' pa' tail_image [OF conjunct2 [OF pa']]
    by (simp add: parse_port_path32_def parse_port_path_def Let_def)
qed

lemma authority_image:
  assumes "list_all is_ascii s"
  shows "parse_authority32 run32 (map cp s) (map_parts cp p) =
    map_prod id (map_parts cp) (parse_authority run s p)"
proof -
  obtain m r v where h: "x3_parse run s (Seq (Opt (Seq uri_userinfo (Lit ''@''))) (Raw uri_host)) (up_host p) = (m, r, v)"
    by (rule prod_cases3)
  note h' = phraseD [OF opt_raw_image [OF rule_image_lit [OF image_simps(2)] image_simps(3)] assms h]
  show ?thesis
    using h h' port_path_image [OF conjunct2 [OF h']]
    by (simp add: parse_authority32_def parse_authority_def Let_def)
qed

lemma complete_image:
  assumes "list_all is_ascii s"
  shows "parse_complete32 run32 (map cp s) (map_parts cp p) =
    map_prod id (map_parts cp) (parse_complete run s p)"
proof -
  let ?host = "Seq (Seq (Lit ''//'') (Opt (Seq uri_userinfo (Lit ''@'')))) (Raw uri_host)"
  obtain m1 r1 v1 where sc: "x3_parse run s (Seq (Raw uri_scheme) (Lit '':'')) (up_scheme p) = (m1, r1, v1)"
    by (rule prod_cases3)
  note sc' = phraseD [OF raw_lit_image [OF image_simps(1)] assms sc]
  note r1 = conjunct2 [OF sc']
  obtain m2 r2 v2 where h: "x3_parse run r1 ?host (up_host p) = (m2, r2, v2)"
    by (rule prod_cases3)
  note h' = phraseD [OF lit_opt_raw_image [OF rule_image_lit [OF image_simps(2)] image_simps(3)] r1 h]
  obtain m3 r3 v3 where e: "x3_parse run r1 (Raw uri_path_empty) (up_path p) = (m3, r3, v3)"
    by (rule prod_cases3)
  note e' = phraseD [OF raw_image [OF image_simps(6)] r1 e]
  show ?thesis
    using sc h e sc' h' e' port_path_image [OF conjunct2 [OF h']] tail_image [OF conjunct2 [OF e']]
    by (simp add: parse_complete32_def parse_complete_def Let_def)
qed

lemma uri_image:
  assumes "list_all is_ascii s"
  shows "parse_uri32 run32 (map cp s) = map_parts cp (parse_uri run s)"
  using complete_image [OF assms, of no_parts] authority_image [OF assms, of no_parts]
  by (simp add: parse_uri32_def parse_uri_def split: prod.split)

end

interpretation both: both_runs ascii32 "x3_ref ascii32" "x3_ref ascii"
  by unfold_locales

end
