(* ===== verification/Uri_Properties.thy ===== *)
theory Uri_Properties
  imports Parse_Uri_Facts Parse_Uri32
begin

text \<open>
  The properties of the URI grammar and of \<^verbatim>\<open>src/parse_uri.cpp\<close>, each with a witness at the
  reference behaviour \<open>x3_ref\<close> of the parser library.
\<close>

text \<open>
  C1: whatever the input, \<open>parse_uri\<close> returns either empty parts, or the parts of a
  reading of the whole input as a complete URI or as an authority form: a refinement of the
  abstract forms.
\<close>

theorem parse_uri_refines:
  assumes "x3_lib ascii run"
  shows "parse_uri run uri = no_parts \<or> complete_uri uri (parse_uri run uri) \<or>
    authority_uri uri (parse_uri run uri)"
  using assms by (rule parse_uri_cases)

theorem parse_uri_refines_witness:
  "let p = parse_uri (x3_ref ascii) ''http://a.b:80/x?q#f'' in up_port p = ''80'' \<and>
     (complete_uri ''http://a.b:80/x?q#f'' p \<or> authority_uri ''http://a.b:80/x?q#f'' p)"
proof -
  have "up_port (parse_uri (x3_ref ascii) ''http://a.b:80/x?q#f'') = ''80''"
    by code_simp
  then show ?thesis
    using parse_uri_refines [OF ref.x3_lib_axioms, of "''http://a.b:80/x?q#f''"] by (auto simp: Let_def)
qed

text \<open>
  C2: a URI composed of a scheme, user information, a host, a port, a path, a query and a
  fragment parses back into exactly these parts, and is recognised as absolute when it has no
  fragment, provided the host is an IPv4 address or a registered name that does not start with
  one (\<open>simple_host\<close>; IP literals in brackets are not covered).
\<close>

theorem parse_uri_round_trip:
  assumes "x3_lib ascii run" and "scheme_ok s" and "userinfo_part ut" and "simple_host h"
    and "opt_part CHR '':'' (list_all std_isdigit) pt po" and "abempty pa" and "tail_form t q f"
  defines "p \<equiv> parse_uri run (s @ '':'' @ ''//'' @ ut @ h @ pt @ pa @ t)"
  shows "p = \<lparr>up_scheme = s, up_host = h, up_port = po, up_path = pa, up_query = q, up_fragment = f\<rparr> \<and>
    is_absolute p = (f = []) \<and> \<not> is_authority p \<and> is_http p = (s = ''http'' \<or> s = ''https'')"
proof -
  have "s \<noteq> []"
    using assms(2) by (auto simp: scheme_ok_def)
  then show ?thesis
    using parse_uri_complete [OF assms(1-7)]
    by (simp add: p_def is_absolute_def is_authority_def is_http_def is_http_impl_def)
qed

lemma sample_host: "simple_host ''a.b''"
  by (simp add: simple_host_def plain_hostI no_digit_def std_isdigit_def less_eq_char_def is_reg_char_def
      is_unreserved_def std_isalpha_def)

theorem parse_uri_round_trip_witness:
  "up_host (parse_uri (x3_ref ascii) ''http://u@a.b:80/x'') = ''a.b'' \<and>
   is_http (parse_uri (x3_ref ascii) ''http://u@a.b:80/x'')"
proof -
  have "scheme_ok ''http''" "userinfo_part ''u@''" "abempty ''/x''"
    "opt_part CHR '':'' (list_all std_isdigit) '':80'' ''80''"
    by (auto simp: scheme_ok_def userinfo_part_def abempty_def opt_part_def std_isalpha_def is_scheme_char_def
        std_isdigit_def less_eq_char_def is_user_char_def is_reg_char_def is_unreserved_def
        is_abpath_char_def is_path_char_def intro!: exI [of _ "''u''"])
  then show ?thesis
    using parse_uri_round_trip [OF ref.x3_lib_axioms _ _ sample_host _ _ tail_form_none, of "''http''" "''u@''"
        "'':80''" "''80''" "''/x''"]
    by (simp add: is_http_def is_http_impl_def)
qed

text \<open>
  The target of a CONNECT request, a host with an optional nonempty port, is not taken for
  a URI whose scheme is the host: it parses as an authority form with this host and port.
\<close>

lemma parse_uri_connect_target:
  assumes "x3_lib ascii run" and "simple_host h" and "h \<noteq> []" and "port_text pt po"
  shows "parse_uri run (h @ pt) = no_parts\<lparr>up_host := h, up_port := po\<rparr> \<and>
    is_authority (parse_uri run (h @ pt)) \<and> \<not> is_http (parse_uri run (h @ pt))"
  using parse_uri_authority [OF assms(1,2,4)] assms(3)
  by (simp add: is_authority_def is_http_def is_http_impl_def)

lemma parse_uri_connect_target_instance:
  "port_text '':443'' ''443'' \<and> is_authority (parse_uri (x3_ref ascii) ''a.b:443'')"
proof -
  have "port_text '':443'' ''443''"
    by (simp add: port_text_def opt_part_def std_isdigit_def less_eq_char_def)
  then show ?thesis
    using parse_uri_connect_target [OF ref.x3_lib_axioms sample_host, of "'':443''" "''443''"]
    by (simp add: is_authority_def)
qed

text \<open>
  C31: on ASCII input the parser on code points returns the image of what the narrow parser
  returns, whatever the Unicode tables say beyond ASCII.
\<close>

theorem parse_uri32_ascii:
  assumes "unicode_enc enc" "x3_lib enc run32" "x3_lib ascii run" and "list_all is_ascii s"
  shows "parse_uri32 run32 (map cp s) = map_parts cp (parse_uri run s)"
  using both_runs.uri_image [OF both_runs.intro [OF assms(1-3)] assms(4)] .

theorem parse_uri32_ascii_witness:
  "parse_uri32 (x3_ref ascii32) (map cp ''a.b:80'') = map_parts cp (parse_uri (x3_ref ascii) ''a.b:80'')"
  using parse_uri32_ascii [OF a32.unicode_enc_axioms ref.x3_lib_axioms ref.x3_lib_axioms, of "''a.b:80''"]
  by (simp add: is_ascii_def)

text \<open>
  C32: the rule for IPv4 addresses, followed by anything but a digit, matches exactly the
  four dotted decimals below 256 written without leading zeros.
\<close>

theorem ip_v4_exact:
  assumes "no_digit r"
  shows "match ascii uri_ip_v4_address s = Some r \<longleftrightarrow>
    (\<exists>a<256. \<exists>b<256. \<exists>c<256. \<exists>d<256. s = dotted a b c d @ r)"
  using ip_v4_sound ip_v4_complete [OF _ _ _ _ assms] by blast

theorem ip_v4_exact_witness:
  "no_digit '':80'' \<and> (\<exists>a<256. \<exists>b<256. \<exists>c<256. \<exists>d<256. ''10.0.0.255:80'' = dotted a b c d @ '':80'')"
proof -
  have "no_digit '':80''" "match ascii uri_ip_v4_address ''10.0.0.255:80'' = Some '':80''"
    by code_simp+
  then show ?thesis
    using ip_v4_exact by blast
qed

text \<open>
  The scheme rule takes the longest prefix of a letter followed by scheme characters;
  the class of these characters includes the comma, which RFC 3986 and the comment on the
  rule exclude.
\<close>

lemma scheme_longest_prefix:
  "(match ascii uri_scheme s = Some r \<longleftrightarrow>
     (\<exists>x. s = x @ r \<and> scheme_ok x \<and> (r = [] \<or> \<not> is_scheme_char (hd r)))) \<and>
   scheme_ok ''a,b''"
proof
  have "match ascii uri_scheme (x @ r) = Some r" if "scheme_ok x" "r = [] \<or> \<not> is_scheme_char (hd r)" for x
    using that dropWhile_append_stop [of is_scheme_char "tl x" r]
    by (auto simp: scheme_ok_def match_scheme split: list.splits)
  moreover have "r = [] \<or> \<not> is_scheme_char (hd r)" if "match ascii uri_scheme s = Some r"
    using that hd_dropWhile [of is_scheme_char]
    by (auto simp: match_scheme simp del: dropWhile_eq_Nil_conv split: list.splits if_splits)
  ultimately show "match ascii uri_scheme s = Some r \<longleftrightarrow>
     (\<exists>x. s = x @ r \<and> scheme_ok x \<and> (r = [] \<or> \<not> is_scheme_char (hd r)))"
    using match_take [of ascii uri_scheme s r] scheme_sound [of _ r] by metis
qed code_simp

lemma scheme_longest_prefix_instance: "match ascii uri_scheme ''a,b:'' = Some '':''"
  using scheme_longest_prefix [of "''a,b:''" "'':''"] by (auto simp: is_scheme_char_def std_isalpha_def std_isdigit_def less_eq_char_def)

text \<open>
  Where the ordered choices of the IPv6 rule leave the grammar of RFC 3986. An address
  with one or more groups before \<open>::\<close> and a colon list after it that the greedy prefix or
  the first alternative cannot give back is rejected, and an embedded IPv4 address may be
  followed by two more groups.
\<close>

lemma ip_v6_deviations:
  "match ascii uri_ip_literal ''[1::2:3:4:5:6]'' = None \<and>
   match ascii uri_ip_literal ''[::1:2:1.2.3.4]'' = None \<and>
   match ascii uri_ip_literal ''[::1.2.3.4:5:6]'' = Some [] \<and>
   match ascii uri_ip_literal ''[2001:db8::1]'' = Some []"
  by code_simp

end
