(* ===== verification/Utf8.thy ===== *)
theory Utf8
  imports Prelude
begin

text \<open>
  \<^verbatim>\<open>include/foxy/utf8.hpp\<close>, \<^verbatim>\<open>code_point_iterator.hpp\<close> and \<^verbatim>\<open>code_point_view.hpp\<close>.
  The codec \<open>boost::locale::utf::utf_traits<char>\<close> is not part of the program: \<open>enc\<close> and
  \<open>dec\<close> are parameters, and the locale \<open>utf_codec\<close> states what its documentation and the
  comment in \<^verbatim>\<open>utf8.hpp\<close> say of valid code points. A byte is a \<open>char\<close>; a pointer into a
  buffer is an offset, and \<open>None\<close> is the null pointer.
\<close>

subsection \<open>The codec\<close>

definition valid_cp :: "u32 \<Rightarrow> bool" where
  "valid_cp c = (c \<le> 0x10FFFF \<and> \<not> (0xD800 \<le> c \<and> c \<le> 0xDFFF))"

text \<open>The binary templates of UTF-8: a lead byte and continuation bytes of six bits.\<close>

definition utf8_template :: "u32 \<Rightarrow> string" where
  "utf8_template c =
     (let n = unat c in
      if n < 0x80 then [char_of n]
      else if n < 0x800 then [char_of (0xC0 + n div 64), char_of (0x80 + n mod 64)]
      else if n < 0x10000 then
        [char_of (0xE0 + n div 4096), char_of (0x80 + n div 64 mod 64), char_of (0x80 + n mod 64)]
      else [char_of (0xF0 + n div 262144 mod 8), char_of (0x80 + n div 4096 mod 64),
            char_of (0x80 + n div 64 mod 64), char_of (0x80 + n mod 64)])"

locale utf_codec =
  fixes enc :: "u32 \<Rightarrow> string" and dec :: "string \<Rightarrow> u32 \<times> string"
  assumes enc_template: "valid_cp c \<Longrightarrow> enc c = utf8_template c"
    and dec_enc: "valid_cp c \<Longrightarrow> dec (enc c @ r) = (c, r)"

text \<open>A decoder that reads by the lead byte.\<close>

definition utf8_illegal :: u32 where
  "utf8_illegal = 0xFFFFFFFF"

fun utf8_ref :: "string \<Rightarrow> u32 \<times> string" where
  "utf8_ref [] = (utf8_illegal, [])"
| "utf8_ref (c # r) =
     (let b = of_char c :: nat; six = (\<lambda>x. of_char x mod 64 :: nat) in
      if b < 0x80 then (of_nat b, r)
      else if b < 0xE0 then
        (case r of x # t \<Rightarrow> (of_nat ((b - 0xC0) * 64 + six x), t) | _ \<Rightarrow> (utf8_illegal, r))
      else if b < 0xF0 then
        (case r of x # y # t \<Rightarrow> (of_nat ((b - 0xE0) * 4096 + six x * 64 + six y), t)
         | _ \<Rightarrow> (utf8_illegal, r))
      else
        (case r of x # y # z # t \<Rightarrow>
           (of_nat ((b - 0xF0) * 262144 + six x * 4096 + six y * 64 + six z), t)
         | _ \<Rightarrow> (utf8_illegal, r)))"

lemma of_char_of: "n < 256 \<Longrightarrow> (of_char (char_of n :: char) :: nat) = n"
  by simp

lemma split_2: "(n :: nat) div 64 * 64 + n mod 64 = n"
  by simp

lemma split_3: "(n :: nat) div 4096 * 4096 + n div 64 mod 64 * 64 + n mod 64 = n"
proof -
  have "n div 4096 = n div 64 div 64"
    by (simp flip: div_mult2_eq)
  then show ?thesis
    using split_2 [of n] split_2 [of "n div 64"] by linarith
qed

lemma split_4:
  "(n :: nat) div 262144 * 262144 + n div 4096 mod 64 * 4096 + n div 64 mod 64 * 64 + n mod 64 = n"
proof -
  have "n div 262144 = n div 4096 div 64"
    by (simp flip: div_mult2_eq)
  then show ?thesis
    using split_3 [of n] split_2 [of "n div 4096"] by linarith
qed

lemma six_bits: "(128 + x mod 64) mod 64 = x mod (64 :: nat)"
  using mod_mult_self2 [of "x mod 64" 64 2] by (simp add: add.commute)

lemma utf8_ref_template:
  assumes "valid_cp c"
  shows "utf8_ref (utf8_template c @ r) = (c, r)"
proof -
  define n where "n = unat c"
  have c: "word_of_nat n = c"
    by (simp add: n_def)
  have n: "n \<le> 0x10FFFF"
    using assms by (simp add: valid_cp_def n_def word_le_nat_alt)
  note template = utf8_template_def [of c, folded n_def, unfolded Let_def]
  consider "n < 0x80" | "0x80 \<le> n" "n < 0x800" | "0x800 \<le> n" "n < 0x10000" | "0x10000 \<le> n"
    by linarith
  then show ?thesis
  proof cases
    case 1
    with c show ?thesis
      by (simp add: template)
  next
    case 2
    then have "n div 64 < 32"
      by (simp add: less_mult_imp_div_less)
    moreover have "word_of_nat (n div 64 * 64 + n mod 64) = c"
      using c by (simp only: split_2)
    ultimately show ?thesis
      using 2 by (simp add: template Let_def six_bits)
  next
    case 3
    then have "n div 4096 < 16"
      by (simp add: less_mult_imp_div_less)
    moreover have "word_of_nat (n div 4096 * 4096 + n div 64 mod 64 * 64 + n mod 64) = c"
      using c by (simp only: split_3)
    ultimately show ?thesis
      using 3 by (simp add: template Let_def six_bits)
  next
    case 4
    with n have "n div 262144 < 8"
      by (simp add: less_mult_imp_div_less)
    moreover have "word_of_nat (n div 262144 * 262144 + n div 4096 mod 64 * 4096 + n div 64 mod 64 * 64 + n mod 64) = c"
      using c by (simp only: split_4)
    ultimately show ?thesis
      using 4 by (simp add: template Let_def six_bits)
  qed
qed

interpretation utf8: utf_codec utf8_template utf8_ref
  by unfold_locales (simp_all add: utf8_ref_template)


subsection \<open>Encoding\<close>

text \<open>\<open>utf8_encode\<close> of one code point; a sink is what has been written to it.\<close>

definition utf8_encode :: "(u32 \<Rightarrow> string) \<Rightarrow> u32 \<Rightarrow> string \<Rightarrow> string" where
  "utf8_encode enc code_point sink = sink @ enc code_point"

text \<open>
  \<open>utf8_encode\<close> of a range. The operations of the iterator type are arguments: \<open>deref\<close>
  (which may move the iterator it reads), \<open>incr\<close> and \<open>differ\<close>, the operator \<open>!=\<close>. A range
  whose end is not reached makes the loop run for ever, which is \<open>None\<close>.
\<close>

partial_function (option) utf8_encode_range ::
  "(u32 \<Rightarrow> string) \<Rightarrow> ('it \<Rightarrow> u32 \<times> 'it) \<Rightarrow> ('it \<Rightarrow> 'it) \<Rightarrow> ('it \<Rightarrow> 'it \<Rightarrow> bool) \<Rightarrow>
   'it \<Rightarrow> 'it \<Rightarrow> string \<Rightarrow> string option" where
  [code]: "utf8_encode_range enc deref incr differ pos e sink =
     (if differ pos e then
        (case deref pos of
           (code_point, pos) \<Rightarrow>
             utf8_encode_range enc deref incr differ (incr pos) e (utf8_encode enc code_point sink))
      else Some sink)"

subsection \<open>Code point iterators\<close>

type_synonym ptr = "nat option"

record cp_iter =
  cpi_iterator :: ptr
  cpi_end :: ptr

definition make_code_point_iterator :: "ptr \<Rightarrow> ptr \<Rightarrow> cp_iter" where
  "make_code_point_iterator iterator e = \<lparr>cpi_iterator = iterator, cpi_end = e\<rparr>"

text \<open>
  \<open>operator*\<close> decodes at the iterator, which the decoder moves; \<open>buf\<close> is the memory the
  pointers point into. A null range is empty.
\<close>

definition cpi_deref :: "(string \<Rightarrow> u32 \<times> string) \<Rightarrow> string \<Rightarrow> cp_iter \<Rightarrow> u32 \<times> cp_iter" where
  "cpi_deref dec buf it =
     (case (cpi_iterator it, cpi_end it) of
        (Some p, Some e) \<Rightarrow>
          (case dec (take (e - p) (drop p buf)) of
             (c, r) \<Rightarrow> (c, it\<lparr>cpi_iterator := Some (e - length r)\<rparr>))
      | _ \<Rightarrow> (fst (dec []), it))"

definition cpi_incr :: "cp_iter \<Rightarrow> cp_iter" where
  "cpi_incr it = it"

definition cpi_eq :: "cp_iter \<Rightarrow> cp_iter \<Rightarrow> bool" where
  "cpi_eq it rhs = (cpi_iterator it = cpi_iterator rhs)"

definition cpi_differ :: "cp_iter \<Rightarrow> cp_iter \<Rightarrow> bool" where
  "cpi_differ it rhs = (\<not> cpi_eq it rhs)"

text \<open>
  Assignment and swap, on a store of iterator objects, since both operands may be the same
  object. Each statement is one update of the store.
\<close>

type_synonym cp_store = "nat \<Rightarrow> cp_iter"

definition cpi_copy_assign :: "nat \<Rightarrow> nat \<Rightarrow> cp_store \<Rightarrow> cp_store" where
  "cpi_copy_assign this rhs st =
     (let st = st(this := (st this)\<lparr>cpi_iterator := cpi_iterator (st rhs)\<rparr>)
      in st(this := (st this)\<lparr>cpi_end := cpi_end (st rhs)\<rparr>))"

definition cpi_move_assign :: "nat \<Rightarrow> nat \<Rightarrow> cp_store \<Rightarrow> cp_store" where
  "cpi_move_assign this rhs st =
     (let st = st(this := (st this)\<lparr>cpi_iterator := cpi_iterator (st rhs)\<rparr>);
          st = st(this := (st this)\<lparr>cpi_end := cpi_end (st rhs)\<rparr>);
          st = st(rhs := (st rhs)\<lparr>cpi_iterator := None\<rparr>)
      in st(rhs := (st rhs)\<lparr>cpi_end := None\<rparr>))"

definition cpi_swap :: "nat \<Rightarrow> nat \<Rightarrow> cp_store \<Rightarrow> cp_store" where
  "cpi_swap this rhs st =
     (let tmp_iterator = cpi_iterator (st rhs);
          tmp_end = cpi_end (st rhs);
          st = st(rhs := (st rhs)\<lparr>cpi_iterator := cpi_iterator (st this)\<rparr>);
          st = st(rhs := (st rhs)\<lparr>cpi_end := cpi_end (st this)\<rparr>);
          st = st(this := (st this)\<lparr>cpi_iterator := tmp_iterator\<rparr>)
      in st(this := (st this)\<lparr>cpi_end := tmp_end\<rparr>))"

subsection \<open>Code point views\<close>

definition cpv_begin :: "string \<Rightarrow> cp_iter" where
  "cpv_begin view = make_code_point_iterator (Some 0) (Some (length view))"

definition cpv_end :: "string \<Rightarrow> cp_iter" where
  "cpv_end view = make_code_point_iterator (Some (length view)) (Some (length view))"

subsection \<open>Facts\<close>

lemma cpi_swap_eq: "cpi_swap this rhs st = st(this := st rhs, rhs := st this)"
  by (rule ext) (simp add: cpi_swap_def Let_def)

lemma cpi_move_assign_eq:
  "cpi_move_assign this rhs st = st(this := st rhs, rhs := \<lparr>cpi_iterator = None, cpi_end = None\<rparr>)"
  by (rule ext) (simp add: cpi_move_assign_def Let_def)

lemma utf8_template_length: "1 \<le> length (utf8_template c) \<and> length (utf8_template c) \<le> 4"
  by (simp add: utf8_template_def Let_def)

lemma utf8_template_ascii: "c < 128 \<Longrightarrow> utf8_template c = [char_of (unat c)]"
  by (simp add: utf8_template_def word_less_nat_alt)

lemma utf8_template_cp: "of_char c < (128 :: nat) \<Longrightarrow> utf8_template (cp c) = [c]"
  by (simp add: utf8_template_def)

lemma cpi_incr_fields: "cpi_incr \<lparr>cpi_iterator = i, cpi_end = e\<rparr> = \<lparr>cpi_iterator = i, cpi_end = e\<rparr>"
  by (simp add: cpi_incr_def)

context utf_codec
begin

lemma enc_nonempty: "valid_cp c \<Longrightarrow> enc c \<noteq> []"
  using utf8_template_length [of c] by (auto simp: enc_template)

text \<open>A dereference in a buffer of encoded code points reads the next one and moves past it.\<close>

lemma deref_encoded:
  assumes "valid_cp c"
  shows "cpi_deref dec (x @ enc c @ y)
      \<lparr>cpi_iterator = Some (length x), cpi_end = Some (length (x @ enc c @ y))\<rparr> =
    (c, \<lparr>cpi_iterator = Some (length (x @ enc c)), cpi_end = Some (length (x @ enc c @ y))\<rparr>)"
  using dec_enc [OF assms, of y] by (simp add: cpi_deref_def)

lemma encode_view_loop:
  assumes "list_all valid_cp cs" and "buf = x @ concat (map enc cs)"
  shows "utf8_encode_range enc' (cpi_deref dec buf) cpi_incr cpi_differ
      \<lparr>cpi_iterator = Some (length x), cpi_end = Some (length buf)\<rparr> (cpv_end buf) sink =
    Some (sink @ concat (map enc' cs))"
  using assms(1) unfolding assms(2)
proof (induction cs arbitrary: x sink)
  case Nil
  then show ?case
    by (simp add: utf8_encode_range.simps cpi_differ_def cpi_eq_def cpv_end_def make_code_point_iterator_def)
next
  case (Cons c cs)
  let ?y = "concat (map enc cs)" and ?e = "Some (length (x @ enc c @ concat (map enc cs)))"
  have "cpi_differ \<lparr>cpi_iterator = Some (length x), cpi_end = ?e\<rparr> (cpv_end (x @ enc c @ ?y))"
    using Cons.prems enc_nonempty [of c]
    by (simp add: cpi_differ_def cpi_eq_def cpv_end_def make_code_point_iterator_def)
  then show ?case
    using Cons.IH [of "x @ enc c" "sink @ enc' c"] Cons.prems deref_encoded [of c x ?y]
    by (subst utf8_encode_range.simps) (simp add: cpi_incr_fields utf8_encode_def)
qed

end

text \<open>Over an iterator that steps through a list, the range overload always returns.\<close>

lemma encode_list_loop:
  "utf8_encode_range enc (\<lambda>l. (hd l, l)) tl (\<noteq>) cs [] sink = Some (sink @ concat (map enc cs))"
proof (induction cs arbitrary: sink)
  case Nil
  then show ?case
    by (subst utf8_encode_range.simps) simp
next
  case (Cons c cs)
  then show ?case
    by (subst utf8_encode_range.simps) (simp add: utf8_encode_def)
qed

end
