(* ===== verification/Pct_Encode.thy ===== *)
theory Pct_Encode
  imports Utf8 Uri_Lang Parse_Uri32
begin

text \<open>
  \<^verbatim>\<open>include/foxy/pct_encode.hpp\<close>: percent-encoding of hosts, paths, queries and fragments.
  \<open>enc\<close> is the UTF-8 encoder, \<open>run\<close> the parser library on code points, and \<open>hex\<close> the
  Karma generator \<open>"%" << right_align(2, "0")[hex]\<close> on one byte. The locale \<open>hex_gen\<close> states
  its documented output; \<open>pct_hex\<close> is a function with this output.
\<close>

definition hex_digit :: "nat \<Rightarrow> char" where
  "hex_digit n = (if n < 10 then char_of (48 + n) else char_of (87 + n))"

definition pct_hex :: "char \<Rightarrow> string" where
  "pct_hex b = [CHR ''%'', hex_digit (of_char b div 16), hex_digit (of_char b mod 16)]"

locale hex_gen =
  fixes hex :: "char \<Rightarrow> string"
  assumes hex_two_digits: "hex b = [CHR ''%'', hex_digit (of_char b div 16), hex_digit (of_char b mod 16)]"
begin

lemma hex_eq: "hex = pct_hex"
  by (rule ext) (simp add: hex_two_digits pct_hex_def)

end

interpretation pct: hex_gen pct_hex
  by unfold_locales (simp add: pct_hex_def)

subsection \<open>The encoders\<close>

text \<open>
  The body of the three loops: a code point between 33 and 126 that is not in the exclusion
  list is written as it is; of any other one, each byte of its encoding is written in
  hexadecimal.
\<close>

definition encode_code_point :: "(u32 \<Rightarrow> string) \<Rightarrow> (char \<Rightarrow> string) \<Rightarrow> u32 list \<Rightarrow> u32 \<Rightarrow> string \<Rightarrow> string" where
  "encode_code_point enc hex excluded code_point out =
     (if 32 < code_point \<and> code_point < 127 \<and> code_point \<notin> set excluded
      then out @ enc code_point
      else
        (let buffer = utf8_encode enc code_point []
         in fold (\<lambda>b out. out @ hex b) buffer out))"

definition host_excluded :: "u32 list" where
  "host_excluded = cps (CHR 0x22 # ''#/<>?@['' @ CHR 0x5C # '']^`{|}'')"

definition path_excluded :: "u32 list" where
  "path_excluded = cps (CHR 0x22 # ''#<>?['' @ CHR 0x5C # '']^`{|}'')"

definition query_excluded :: "u32 list" where
  "query_excluded = cps (CHR 0x22 # ''#:<>@['' @ CHR 0x5C # '']^`{|}'')"

definition encode_host ::
  "u32 x3_run \<Rightarrow> (u32 \<Rightarrow> string) \<Rightarrow> (char \<Rightarrow> string) \<Rightarrow> u32 list \<Rightarrow> string \<Rightarrow> string" where
  "encode_host run enc hex host out =
     (if fst (x3_parse run host (Alt unicode_ip_literal unicode_ip_v4_address) [])
      then fold (\<lambda>c out. out @ enc c) host out
      else fold (encode_code_point enc hex host_excluded) host out)"

definition encode_path :: "(u32 \<Rightarrow> string) \<Rightarrow> (char \<Rightarrow> string) \<Rightarrow> u32 list \<Rightarrow> string \<Rightarrow> string" where
  "encode_path enc hex host out = fold (encode_code_point enc hex path_excluded) host out"

definition encode_query :: "(u32 \<Rightarrow> string) \<Rightarrow> (char \<Rightarrow> string) \<Rightarrow> u32 list \<Rightarrow> string \<Rightarrow> string" where
  "encode_query enc hex host out = fold (encode_code_point enc hex query_excluded) host out"

definition encode_fragment :: "(u32 \<Rightarrow> string) \<Rightarrow> (char \<Rightarrow> string) \<Rightarrow> u32 list \<Rightarrow> string \<Rightarrow> string" where
  "encode_fragment enc hex host out = encode_query enc hex host out"

subsection \<open>Closed forms\<close>

lemma fold_append: "fold (\<lambda>c out. out @ f c) cs out = out @ concat (map f cs)"
  by (induction cs arbitrary: out) simp_all

text \<open>What one code point contributes.\<close>

definition piece :: "(u32 \<Rightarrow> string) \<Rightarrow> u32 list \<Rightarrow> u32 \<Rightarrow> string" where
  "piece enc excluded c =
     (if 32 < c \<and> c < 127 \<and> c \<notin> set excluded then enc c else concat (map pct_hex (enc c)))"

lemma encode_code_point_eq:
  assumes "hex_gen hex"
  shows "encode_code_point enc hex excluded = (\<lambda>c out. out @ piece enc excluded c)"
  using hex_gen.hex_eq [OF assms]
  by (intro ext) (simp add: encode_code_point_def piece_def utf8_encode_def fold_append)

lemma encoders_eq:
  assumes "hex_gen hex"
  shows "encode_path enc hex cs out = out @ concat (map (piece enc path_excluded) cs)"
    and "encode_query enc hex cs out = out @ concat (map (piece enc query_excluded) cs)"
    and "fold (encode_code_point enc hex host_excluded) cs out =
      out @ concat (map (piece enc host_excluded) cs)"
  by (simp_all add: encode_path_def encode_query_def encode_code_point_eq [OF assms] fold_append)

lemma encode_host_eq:
  assumes "hex_gen hex" and "x3_lib t run"
  shows "encode_host run enc hex cs out =
    (if match t (Alt unicode_ip_literal unicode_ip_v4_address) cs \<noteq> None
     then out @ concat (map enc cs) else out @ concat (map (piece enc host_excluded) cs))"
proof -
  have "x3_parse run cs (Alt unicode_ip_literal unicode_ip_v4_address) [] =
    (case match t (Alt unicode_ip_literal unicode_ip_v4_address) cs of
       Some r \<Rightarrow> (True, r, []) | None \<Rightarrow> (False, cs, []))"
    using x3_lib.run_match [OF assms(2), of "Alt unicode_ip_literal unicode_ip_v4_address" cs "[]"]
    by (simp add: x3_parse_def split: option.split)
  then show ?thesis
    by (auto simp: encode_host_def fold_append encoders_eq(3) [OF assms(1)] split: option.split)
qed

subsection \<open>The encoded text\<close>

lemma isxdigit_hex_digit: "n < 16 \<Longrightarrow> std_isxdigit (hex_digit n)"
  by (auto simp: hex_digit_def std_isxdigit_def std_isdigit_def less_eq_char_def)

lemma toks_pct_hex:
  assumes "\<not> P CHR ''%''"
  shows "toks P (pct_hex b)"
proof -
  have "of_char b div 16 < (16 :: nat)"
    using of_char_less_256 [of b] by (simp add: less_mult_imp_div_less)
  with assms show ?thesis
    by (simp add: pct_hex_def isxdigit_hex_digit)
qed

lemma toks_concat: "(\<And>x. x \<in> set xs \<Longrightarrow> toks P (f x)) \<Longrightarrow> toks P (concat (map f xs))"
  by (induction xs) (simp_all add: toks_append)

text \<open>
  The printable ASCII characters outside a list of characters. For each of the encoders,
  those are characters of the rule the encoded text is meant for.
\<close>

definition plain :: "string \<Rightarrow> char \<Rightarrow> bool" where
  "plain excluded c = (CHR 32 < c \<and> c < CHR 127 \<and> c \<notin> set excluded)"

text \<open>The classes by character code, so that they can be compared by enumeration.\<close>

definition reg_code :: "nat \<Rightarrow> bool" where
  "reg_code n = (65 \<le> n \<and> n \<le> 90 \<or> 97 \<le> n \<and> n \<le> 122 \<or> 48 \<le> n \<and> n \<le> 57 \<or>
     n \<in> set [45, 46, 95, 126, 33, 36, 38, 39, 40, 41, 42, 43, 44, 59, 61])"

lemma is_reg_char_code: "is_reg_char c \<longleftrightarrow> reg_code (of_char c)"
  by (auto simp: is_reg_char_def is_unreserved_def is_sub_delim_def std_isalpha_def std_isdigit_def
      reg_code_def less_eq_char_def simp flip: of_char_eq_iff [where 'a = nat])

lemma plain_check:
  assumes "list_all (\<lambda>n. n \<in> set (map of_char ex) \<or> Q n) [33..<127]" and "plain ex c"
  shows "Q (of_char c)"
proof -
  have "of_char c \<in> {33..<127 :: nat}" and "of_char c \<notin> set (map of_char ex :: nat list)"
    using assms(2) by (auto simp: plain_def less_char_def)
  with assms(1) show ?thesis
    unfolding list_all_iff set_upt by blast
qed

lemma plain_query:
  assumes "plain (CHR ''%'' # CHR 0x22 # ''#:<>@['' @ CHR 0x5C # '']^`{|}'') c"
  shows "is_query_char c"
proof -
  have "reg_code (of_char c) \<or> of_char c \<in> set [47, 63 :: nat]"
    by (rule plain_check [OF _ assms]) (simp add: reg_code_def)
  then show ?thesis
    by (auto simp: is_query_char_def is_path_char_def is_reg_char_code simp flip: of_char_eq_iff [where 'a = nat])
qed

lemma plain_path:
  assumes "plain (CHR ''%'' # CHR 0x22 # ''#<>?['' @ CHR 0x5C # '']^`{|}'') c"
  shows "is_abpath_char c"
proof -
  have "reg_code (of_char c) \<or> of_char c \<in> set [47, 58, 64 :: nat]"
    by (rule plain_check [OF _ assms]) (simp add: reg_code_def)
  then show ?thesis
    by (auto simp: is_abpath_char_def is_path_char_def is_reg_char_code simp flip: of_char_eq_iff [where 'a = nat])
qed

lemma plain_host_char:
  assumes "plain (CHR ''%'' # CHR 0x22 # ''#/<>?@['' @ CHR 0x5C # '']^`{|}'') c"
  shows "is_user_char c"
proof -
  have "reg_code (of_char c) \<or> of_char c \<in> set [58 :: nat]"
    by (rule plain_check [OF _ assms]) (simp add: reg_code_def)
  then show ?thesis
    by (auto simp: is_user_char_def is_reg_char_code simp flip: of_char_eq_iff [where 'a = nat])
qed

lemma cp_char_of: "c < 256 \<Longrightarrow> cp (char_of (unat c)) = c"
  by (simp add: cp_def word_less_nat_alt)

lemma piece_cases:
  assumes "utf_codec enc dc" "valid_cp c"
  obtains ch where "c = cp ch" "plain ex ch" "enc c = [ch]" "piece enc (cps ex) c = [ch]"
  | "piece enc (cps ex) c = concat (map pct_hex (enc c))"
proof (cases "32 < c \<and> c < 127 \<and> c \<notin> set (cps ex)")
  case True
  define ch where "ch = (char_of (unat c) :: char)"
  have "c < 256" "c < 128"
    using True by (auto intro: order.strict_trans)
  then have c: "c = cp ch"
    by (simp add: ch_def cp_char_of)
  have "enc c = [ch]"
    using utf_codec.enc_template [OF assms] \<open>c < 128\<close> by (simp add: utf8_template_ascii ch_def)
  moreover have "plain ex ch"
    using True by (auto simp: c plain_def less_char_def word_less_nat_alt cps_def)
  ultimately show ?thesis
    using that(1) c True by (simp add: piece_def)
next
  case False
  then have "piece enc (cps ex) c = concat (map pct_hex (enc c))"
    by (auto simp: piece_def)
  then show ?thesis
    by (rule that(2))
qed

lemma piece_toks:
  assumes "utf_codec enc dc" "valid_cp c" "c \<noteq> cp CHR ''%''" and "\<not> P CHR ''%''"
    and "\<And>ch. plain (CHR ''%'' # ex) ch \<Longrightarrow> c = cp ch \<Longrightarrow> P ch"
  shows "toks P (piece enc (cps ex) c)"
  using assms(1,2)
proof (cases rule: piece_cases [where ex = ex])
  case (1 ch)
  with assms(3) have "plain (CHR ''%'' # ex) ch"
    by (auto simp: plain_def)
  with assms(5) 1 have "P ch"
    by blast
  with 1 show ?thesis
    by simp
next
  case 2
  then show ?thesis
    using toks_concat [of "enc c" P pct_hex] toks_pct_hex [of P] assms(4) by simp
qed

definition no_pct :: "u32 list \<Rightarrow> bool" where
  "no_pct cs = (list_all valid_cp cs \<and> cp CHR ''%'' \<notin> set cs)"

lemma pieces_toks:
  assumes "utf_codec enc dc" "no_pct cs" and "\<not> P CHR ''%''"
    and "\<And>ch. plain (CHR ''%'' # ex) ch \<Longrightarrow> cp ch \<in> set cs \<Longrightarrow> P ch"
  shows "toks P (concat (map (piece enc (cps ex)) cs))"
  using assms(2) by (intro toks_concat piece_toks [OF assms(1)])
    (auto simp: no_pct_def list_all_iff assms(3,4))

end
