(* ===== verification/Foxy_Error.thy ===== *)
theory Foxy_Error
  imports Main
begin

text \<open>
  \<^verbatim>\<open>include/foxy/error.hpp\<close>: the error enumeration, its category and \<open>make_error_code\<close>; and
  the error codes of the libraries that the program compares with. An error code is a value
  with its category, as in \<open>boost::system::error_code\<close>.
\<close>

datatype foxy_error = unexpected_pct

definition foxy_error_value :: "foxy_error \<Rightarrow> int" where
  "foxy_error_value e = (case e of unexpected_pct \<Rightarrow> 1)"

text \<open>Categories are compared by address; \<open>Foreign_category\<close> stands for any other one.\<close>

datatype err_category =
    Foxy_category | System_category | Misc_category | Http_category | Stream_category
  | Ssl_category | Foreign_category nat

record error_code =
  ec_value :: int
  ec_category :: err_category

definition no_error :: error_code where
  "no_error = \<lparr>ec_value = 0, ec_category = System_category\<rparr>"

definition ec_failed :: "error_code \<Rightarrow> bool" where
  "ec_failed ec = (ec_value ec \<noteq> 0)"

definition foxy_category_name :: string where
  "foxy_category_name = ''foxy''"

definition foxy_message :: "int \<Rightarrow> string" where
  "foxy_message ev =
     (if ev = foxy_error_value unexpected_pct then ''consecutive percent sign detected''
      else ''foxy default error'')"

definition foxy_default_error_condition :: "int \<Rightarrow> error_code" where
  "foxy_default_error_condition ev = \<lparr>ec_value = ev, ec_category = Foxy_category\<rparr>"

definition foxy_equivalent_condition :: "int \<Rightarrow> error_code \<Rightarrow> bool" where
  "foxy_equivalent_condition ev cond = (ec_value cond = ev \<and> ec_category cond = Foxy_category)"

definition foxy_equivalent_code :: "error_code \<Rightarrow> int \<Rightarrow> bool" where
  "foxy_equivalent_code err ev = (ec_value err = ev \<and> ec_category err = Foxy_category)"

definition make_error_code :: "foxy_error \<Rightarrow> error_code" where
  "make_error_code ev = \<lparr>ec_value = foxy_error_value ev, ec_category = Foxy_category\<rparr>"


subsection \<open>Codes the program compares with\<close>

definition operation_aborted :: error_code where
  "operation_aborted = \<lparr>ec_value = 125, ec_category = System_category\<rparr>"

definition asio_eof :: error_code where
  "asio_eof = \<lparr>ec_value = 2, ec_category = Misc_category\<rparr>"

definition need_buffer :: error_code where
  "need_buffer = \<lparr>ec_value = 5, ec_category = Http_category\<rparr>"

definition stream_truncated :: error_code where
  "stream_truncated = \<lparr>ec_value = 1, ec_category = Stream_category\<rparr>"

lemmas error_codes = no_error_def operation_aborted_def asio_eof_def need_buffer_def stream_truncated_def

lemma ec_failed_codes [simp]:
  "\<not> ec_failed no_error" "ec_failed operation_aborted" "ec_failed asio_eof" "ec_failed need_buffer"
  "ec_failed stream_truncated" "ec_failed (make_error_code e)"
  by (simp_all add: ec_failed_def error_codes make_error_code_def foxy_error_value_def split: foxy_error.split)

lemma error_codes_distinct [simp]:
  "no_error \<noteq> operation_aborted" "operation_aborted \<noteq> no_error" "no_error \<noteq> need_buffer"
  "need_buffer \<noteq> no_error" "no_error \<noteq> asio_eof" "no_error \<noteq> stream_truncated"
  by (simp_all add: error_codes)

end
