(* ===== verification/Pct_Decode.thy ===== *)
theory Pct_Decode
  imports Pct_Encode Foxy_Error
begin

text \<open>
  \<^verbatim>\<open>include/foxy/pct_decode.hpp\<close>: percent-decoding with its semantic actions, its throwing
  and its non-throwing overload.
\<close>

subsection \<open>Decoding\<close>

definition uri_xpair :: "char parser" where
  "uri_xpair = seqs (Lit ''%'') [XDigitC, XDigitC]"

text \<open>
  The value the action computes for one digit: a character up to \<open>9\<close> counts from \<open>0\<close>, any
  other one counts from \<open>a\<close>. \<open>char_of\<close> keeps the low eight bits of the sum, as the store into
  a byte does. The action receives the matched text, whose last two characters are the
  attribute of \<open>xpair\<close>.
\<close>

definition xdigit_int :: "char \<Rightarrow> int" where
  "xdigit_int c = (if c \<le> CHR ''9'' then of_char c - 48 else of_char c - 97 + 10)"

definition xpair_byte :: "char \<Rightarrow> char \<Rightarrow> char" where
  "xpair_byte first_xdigit second_xdigit =
     (let first_char = xdigit_int first_xdigit; second_char = xdigit_int second_xdigit
      in char_of (first_char * 2 ^ 4 + second_char))"

definition to_utf8_byte :: "char action" where
  "to_utf8_byte matched sink =
     (case matched of [_, first_xdigit, second_xdigit] \<Rightarrow> sink @ [xpair_byte first_xdigit second_xdigit]
      | _ \<Rightarrow> sink)"

definition append_byte :: "char action" where
  "append_byte matched sink = sink @ matched"

definition pct_decode_impl :: "char x3_run \<Rightarrow> string \<Rightarrow> string \<Rightarrow> bool \<times> string" where
  "pct_decode_impl run str sink =
     (let (match, pos, sink) = x3_parse run str
            (Kleene (Alt (Act uri_xpair to_utf8_byte) (Act (Diff AnyChar (Lit ''%'')) append_byte))) sink
      in (match \<and> pos = [], sink))"

text \<open>
  The throwing overload takes the sink by reference, so what was written before the throw
  stays; the other overload returns the sink and assigns the error code on every path.
\<close>

definition pct_decode :: "char x3_run \<Rightarrow> string \<Rightarrow> string \<Rightarrow> (error_code + unit) \<times> string" where
  "pct_decode run str sink =
     (let (full_match, sink) = pct_decode_impl run str sink
      in (if \<not> full_match then Inl (make_error_code unexpected_pct) else Inr (), sink))"

definition pct_decode_ec :: "char x3_run \<Rightarrow> string \<Rightarrow> string \<Rightarrow> error_code \<Rightarrow> string \<times> error_code" where
  "pct_decode_ec run str sink ec =
     (let (full_match, sink) = pct_decode_impl run str sink
      in (sink, if \<not> full_match then make_error_code unexpected_pct else no_error))"

subsection \<open>A reference decoder\<close>

text \<open>What has been decoded, and the input that could not be.\<close>

fun pct_ref :: "string \<Rightarrow> string \<times> string" where
  "pct_ref [] = ([], [])"
| "pct_ref (c # r) =
     (if c \<noteq> CHR ''%'' then apfst ((#) c) (pct_ref r)
      else case r of
        x # y # t \<Rightarrow>
          if std_isxdigit x \<and> std_isxdigit y then apfst ((#) (xpair_byte x y)) (pct_ref t)
          else ([], c # r)
      | _ \<Rightarrow> ([], c # r))"

definition xpair_head :: "string \<Rightarrow> bool" where
  "xpair_head r = (case r of x # y # t \<Rightarrow> std_isxdigit x \<and> std_isxdigit y | _ \<Rightarrow> False)"

lemma pct_ref_char: "c \<noteq> CHR ''%'' \<Longrightarrow> pct_ref (c # r) = apfst ((#) c) (pct_ref r)"
  and pct_ref_pair: "std_isxdigit x \<Longrightarrow> std_isxdigit y \<Longrightarrow>
    pct_ref (CHR ''%'' # x # y # t) = apfst ((#) (xpair_byte x y)) (pct_ref t)"
  and pct_ref_bad: "\<not> xpair_head r \<Longrightarrow> pct_ref (CHR ''%'' # r) = ([], CHR ''%'' # r)"
  by (auto simp: xpair_head_def split: list.splits)

lemmas pct_ref_rules = pct_ref.simps(1) pct_ref_char pct_ref_pair pct_ref_bad

declare pct_ref.simps(2) [simp del]

lemma pct_induct [case_names Nil Char Pair Bad]:
  assumes "P []"
    and "\<And>c r. c \<noteq> CHR ''%'' \<Longrightarrow> P r \<Longrightarrow> P (c # r)"
    and "\<And>x y t. std_isxdigit x \<Longrightarrow> std_isxdigit y \<Longrightarrow> P t \<Longrightarrow> P (CHR ''%'' # x # y # t)"
    and "\<And>r. \<not> xpair_head r \<Longrightarrow> P (CHR ''%'' # r)"
  shows "P s"
proof (induction s rule: length_induct)
  case (1 s)
  show ?case
  proof (cases s)
    case (Cons c r)
    show ?thesis
    proof (cases "c = CHR ''%'' \<and> xpair_head r")
      case True
      then obtain x y t where "r = x # y # t" "std_isxdigit x" "std_isxdigit y"
        by (auto simp: xpair_head_def split: list.splits)
      with True Cons 1 show ?thesis
        by (auto intro!: assms(3))
    next
      case False
      with Cons 1 show ?thesis
        using assms(2,4) by (cases "c = CHR ''%''") auto
    qed
  qed (simp add: assms(1))
qed

lemma x3_ref_xpair:
  "x3_ref ascii (Act uri_xpair to_utf8_byte) s a =
     (case s of
        p # x # y # t \<Rightarrow>
          if p = CHR ''%'' \<and> std_isxdigit x \<and> std_isxdigit y then (Some t, a @ [xpair_byte x y]) else (None, a)
      | _ \<Rightarrow> (None, a))"
  by (cases s; cases "tl s"; cases "tl (tl s)") (auto simp: uri_xpair_def one_char_def to_utf8_byte_def)

lemma x3_ref_byte:
  "x3_ref ascii (Act (Diff AnyChar (Lit ''%'')) append_byte) s a =
     (case s of c # r \<Rightarrow> if c = CHR ''%'' then (None, a) else (Some r, a @ [c]) | [] \<Rightarrow> (None, a))"
  by (cases s) (auto simp: one_char_def append_byte_def)

definition decode_step :: "string \<Rightarrow> string \<Rightarrow> char result" where
  "decode_step s a =
     (case s of
        [] \<Rightarrow> (None, a)
      | c # r \<Rightarrow>
          if c \<noteq> CHR ''%'' then (Some r, a @ [c])
          else (case r of
                  x # y # t \<Rightarrow>
                    if std_isxdigit x \<and> std_isxdigit y then (Some t, a @ [xpair_byte x y]) else (None, a)
                | _ \<Rightarrow> (None, a)))"

lemma decode_step_eq:
  "x3_ref ascii (Alt (Act uri_xpair to_utf8_byte) (Act (Diff AnyChar (Lit ''%'')) append_byte)) = decode_step"
  by (intro ext)
     (simp add: decode_step_def x3_ref_xpair x3_ref_byte del: x3_ref.simps(10,17) split: list.split)

lemma decode_loop: "x3_loop decode_step s a = (Some (snd (pct_ref s)), a @ fst (pct_ref s))"
proof (induction s arbitrary: a rule: pct_induct)
  case (Bad r)
  then have "decode_step (CHR ''%'' # r) a = (None, a)"
    by (auto simp: decode_step_def xpair_head_def split: list.splits)
  with Bad show ?case
    by (subst x3_loop.simps) (simp add: pct_ref_rules)
qed (subst x3_loop.simps, simp add: decode_step_def pct_ref_rules)+

lemma pct_decode_impl_eq:
  assumes "x3_lib ascii run"
  shows "pct_decode_impl run s sink = (snd (pct_ref s) = [], sink @ fst (pct_ref s))"
proof -
  let ?p = "Alt (Act uri_xpair to_utf8_byte) (Act (Diff AnyChar (Lit ''%'')) append_byte)"
  have "run (Kleene ?p) s sink = (Some (snd (pct_ref s)), sink @ fst (pct_ref s))"
    using x3_lib.run_eq_ref [OF assms, of "Kleene ?p" s sink] decode_loop [of s sink] decode_step_eq
    by (simp add: uri_xpair_def)
  then show ?thesis
    by (simp add: pct_decode_impl_def x3_parse_def)
qed


subsection \<open>What decodes, and into what\<close>

lemma pct_ref_complete: "snd (pct_ref s) = [] \<longleftrightarrow> toks (\<lambda>c. c \<noteq> CHR ''%'') s"
proof (induction s rule: pct_induct)
  case (Bad r)
  then show ?case
    by (auto simp: pct_ref_rules xpair_head_def split: list.splits)
qed (simp_all add: pct_ref_rules)

lemma pct_ref_append:
  "snd (pct_ref x) = [] \<Longrightarrow> pct_ref (x @ y) = (fst (pct_ref x) @ fst (pct_ref y), snd (pct_ref y))"
  by (induction x rule: pct_induct) (simp_all add: pct_ref_rules apfst_def map_prod_def split_beta)

lemma pct_ref_split: "\<exists>good. s = good @ snd (pct_ref s) \<and> pct_ref good = (fst (pct_ref s), [])"
proof (induction s rule: pct_induct)
  case (Char c r)
  then obtain good where "r = good @ snd (pct_ref r)" "pct_ref good = (fst (pct_ref r), [])"
    by blast
  with Char(1) show ?case
    by (intro exI [of _ "c # good"]) (simp add: pct_ref_rules)
next
  case (Pair x y t)
  then obtain good where "t = good @ snd (pct_ref t)" "pct_ref good = (fst (pct_ref t), [])"
    by blast
  with Pair(1,2) show ?case
    by (intro exI [of _ "CHR ''%'' # x # y # good"]) (simp add: pct_ref_rules)
qed (simp_all add: pct_ref_rules)

lemma pct_ref_concat:
  assumes "\<And>x. x \<in> set xs \<Longrightarrow> pct_ref (f x) = (g x, [])"
  shows "pct_ref (concat (map f xs)) = (concat (map g xs), [])"
  using assms by (induction xs) (simp_all add: pct_ref_append)

lemma hex_digit_int: "n < 16 \<Longrightarrow> xdigit_int (hex_digit n) = int n"
  by (auto simp: hex_digit_def xdigit_int_def less_eq_char_def simp flip: of_nat_of_char [where 'a = int])

lemma xpair_hex: "xpair_byte (hex_digit (of_char b div 16)) (hex_digit (of_char b mod 16)) = b"
proof -
  define n where "n = (of_char b :: nat)"
  have "n div 16 < 16" "n mod 16 < 16"
    using of_char_less_256 [of b] by (simp_all add: n_def less_mult_imp_div_less)
  moreover have "int (n div 16) * 16 + int (n mod 16) = int n"
    by (metis div_mult_mod_eq of_nat_add of_nat_mult of_nat_numeral)
  ultimately have "xpair_byte (hex_digit (n div 16)) (hex_digit (n mod 16)) = char_of n"
    by (simp add: xpair_byte_def hex_digit_int char_of_nat)
  then show ?thesis
    by (simp add: n_def)
qed

lemma pct_ref_pct_hex: "pct_ref (pct_hex b) = ([b], [])"
proof -
  have "of_char b div 16 < (16 :: nat)"
    using of_char_less_256 [of b] by (simp add: less_mult_imp_div_less)
  then show ?thesis
    by (simp add: pct_hex_def isxdigit_hex_digit xpair_hex pct_ref_pair)
qed

lemma pct_ref_hex_bytes: "pct_ref (concat (map pct_hex bs)) = (bs, [])"
  using pct_ref_concat [of bs pct_hex "\<lambda>b. [b]"] by (simp add: pct_ref_pct_hex)

lemma pct_ref_piece:
  assumes "utf_codec enc dc" "valid_cp c" "c \<noteq> cp CHR ''%''"
  shows "pct_ref (piece enc (cps ex) c) = (enc c, [])"
  using assms(1,2)
proof (cases rule: piece_cases [where ex = ex])
  case (1 ch)
  with assms(3) show ?thesis
    by (auto simp: pct_ref_rules)
qed (simp add: pct_ref_hex_bytes)

lemma utf8_template_pct:
  assumes "valid_cp c" "CHR ''%'' \<in> set (utf8_template c)"
  shows "c = cp CHR ''%''"
proof -
  define n where "n = unat c"
  have n: "n \<le> 0x10FFFF"
    using assms by (simp add: valid_cp_def n_def word_le_nat_alt)
  have inj: "k mod 256 = 37" if "CHR ''%'' = char_of k" for k :: nat
    using arg_cong [OF that, of "of_char :: char \<Rightarrow> nat"] by simp
  note template = utf8_template_def [of c, folded n_def, unfolded Let_def]
  have "n = 37"
  proof (rule ccontr)
    assume "n \<noteq> 37"
    moreover have "n div 64 < 32" if "n < 0x800"
      using that by (simp add: less_mult_imp_div_less)
    moreover have "n div 4096 < 16" if "n < 0x10000"
      using that by (simp add: less_mult_imp_div_less)
    moreover have "k mod 64 < 64" "k mod 8 < 8" for k :: nat
      by simp_all
    ultimately show False
      using assms(2) unfolding template
      by (auto dest!: inj split: if_splits)
  qed
  then show ?thesis
    by (simp add: word_unat_eq_iff flip: n_def)
qed

lemma pct_ref_enc:
  assumes "utf_codec enc dc" "valid_cp c" "c \<noteq> cp CHR ''%''"
  shows "pct_ref (enc c) = (enc c, [])"
proof -
  have "CHR ''%'' \<notin> set (enc c)"
    using assms utf8_template_pct [of c] utf_codec.enc_template [OF assms(1)] by auto
  moreover have "pct_ref bs = (bs, [])" if "CHR ''%'' \<notin> set bs" for bs
    using that by (induction bs) (auto simp: pct_ref_rules)
  ultimately show ?thesis
    by blast
qed


subsection \<open>The value of a pair of digits\<close>

definition is_upper_hex :: "char \<Rightarrow> bool" where
  "is_upper_hex c = (CHR ''A'' \<le> c \<and> c \<le> CHR ''F'')"

definition hex_value :: "char \<Rightarrow> int" where
  "hex_value c =
     (if std_isdigit c then of_char c - 48 else if is_upper_hex c then of_char c - 55 else of_char c - 87)"

lemma xdigit_int_value:
  assumes "std_isxdigit c"
  shows "xdigit_int c = hex_value c - (if is_upper_hex c then 32 else 0)"
proof -
  have "c \<le> CHR ''9'' \<longleftrightarrow> std_isdigit c" "std_isdigit c \<Longrightarrow> \<not> is_upper_hex c"
    using assms by (auto simp: std_isxdigit_def std_isdigit_def is_upper_hex_def less_eq_char_def)
  then show ?thesis
    by (simp add: xdigit_int_def hex_value_def)
qed

lemma char_of_minus_512: "char_of (k - 512 :: int) = (char_of k :: char)"
proof -
  have "char_of ((k - 512) mod 256) = (char_of (k mod 256) :: char)"
    using mod_diff_cong [of k 256 k 512 0] by simp
  then show ?thesis
    by simp
qed

lemma xpair_value:
  assumes "std_isxdigit x" "std_isxdigit y"
  shows "xpair_byte x y = char_of (hex_value x * 16 + hex_value y - (if is_upper_hex y then 32 else 0))"
  using char_of_minus_512 [of "hex_value x * 16 + hex_value y"]
    char_of_minus_512 [of "hex_value x * 16 + hex_value y - 32"]
  by (simp add: xpair_byte_def xdigit_int_value assms algebra_simps)

end
