(* ===== verification/Pct_Properties.thy ===== *)
theory Pct_Properties
  imports Pct_Decode Parse_Uri_Correct
begin

text \<open>
  The properties of the UTF-8 helpers, of percent-encoding and of percent-decoding.
\<close>

subsection \<open>UTF-8\<close>

text \<open>
  C34: re-encoding a view of well-formed UTF-8 through its code point iterators terminates
  and reproduces the bytes of the view: a round trip of decoder, iterator and encoder.
\<close>

theorem reencode_view:
  assumes "utf_codec enc dc" and "list_all valid_cp cs" and "view = concat (map enc cs)"
  shows "utf8_encode_range enc (cpi_deref dc view) cpi_incr cpi_differ (cpv_begin view) (cpv_end view) sink =
    Some (sink @ view)"
  using utf_codec.encode_view_loop [OF assms(1,2), of view "[]" enc sink] assms(3)
  by (simp add: cpv_begin_def make_code_point_iterator_def)

theorem reencode_view_witness:
  "utf8_encode_range utf8_template (cpi_deref utf8_ref (utf8_template 0x142)) cpi_incr cpi_differ
     (cpv_begin (utf8_template 0x142)) (cpv_end (utf8_template 0x142)) [] = Some (utf8_template 0x142)"
  using reencode_view [OF utf8.utf_codec_axioms, of "[0x142]" "utf8_template 0x142" "[]"]
  by (simp add: valid_cp_def)

text \<open>
  Dereferencing moves the iterator and incrementing does not, so a second dereference
  without an increment reads the next code point; an input iterator would read the same one.
\<close>

lemma deref_moves:
  assumes "utf_codec enc dc" and "valid_cp c" "valid_cp d" and "view = enc c @ enc d"
  shows "fst (cpi_deref dc view (cpv_begin view)) = c \<and>
    fst (cpi_deref dc view (snd (cpi_deref dc view (cpv_begin view)))) = d \<and>
    cpi_incr (cpv_begin view) = cpv_begin view"
  using utf_codec.deref_encoded [OF assms(1,2), of "[]" "enc d"]
    utf_codec.deref_encoded [OF assms(1,3), of "enc c" "[]"] assms(4)
  by (simp add: cpv_begin_def make_code_point_iterator_def cpi_incr_def)

lemma deref_moves_instance:
  "fst (cpi_deref utf8_ref ''ab'' (snd (cpi_deref utf8_ref ''ab'' (cpv_begin ''ab'')))) = cp CHR ''b''"
proof -
  have "valid_cp (cp CHR ''a'')" "valid_cp (cp CHR ''b'')"
    "''ab'' = utf8_template (cp CHR ''a'') @ utf8_template (cp CHR ''b'')"
    by (simp_all add: valid_cp_def utf8_template_cp word_le_nat_alt)
  from deref_moves [OF utf8.utf_codec_axioms this] show ?thesis
    by simp
qed

text \<open>
  Swapping two iterator objects exchanges them, also an object with itself; a move
  assignment transfers the source and leaves it null, and a self-move leaves null pointers.
\<close>

lemma iterator_store_ops:
  "cpi_swap i j st = st(i := st j, j := st i) \<and>
   cpi_copy_assign i j st = st(i := st j) \<and>
   cpi_move_assign i j st = st(i := st j, j := make_code_point_iterator None None)"
  by (intro conjI cpi_swap_eq ext)
     (simp_all add: cpi_copy_assign_def cpi_move_assign_eq make_code_point_iterator_def Let_def)

subsection \<open>Encoding and decoding\<close>

text \<open>
  C30: text without a percent sign survives percent-encoding: decoding what any of the four
  encoders writes succeeds and appends exactly the UTF-8 bytes of the text to the sink.
\<close>

theorem pct_round_trip:
  assumes "hex_gen hex" "utf_codec enc dc" "x3_lib tables run32" "x3_lib ascii run" and "no_pct cs"
  shows "pct_decode run (encode_host run32 enc hex cs []) sink = (Inr (), sink @ concat (map enc cs)) \<and>
    pct_decode run (encode_path enc hex cs []) sink = (Inr (), sink @ concat (map enc cs)) \<and>
    pct_decode run (encode_query enc hex cs []) sink = (Inr (), sink @ concat (map enc cs)) \<and>
    pct_decode run (encode_fragment enc hex cs []) sink = (Inr (), sink @ concat (map enc cs))"
proof -
  have c: "valid_cp c \<and> c \<noteq> cp CHR ''%''" if "c \<in> set cs" for c
    using assms(5) that by (auto simp: no_pct_def list_all_iff)
  have pieces: "pct_ref (concat (map (piece enc (cps ex)) cs)) = (concat (map enc cs), [])" for ex
    using c pct_ref_piece [OF assms(2)] by (intro pct_ref_concat) blast
  have verbatim: "pct_ref (concat (map enc cs)) = (concat (map enc cs), [])"
    using c pct_ref_enc [OF assms(2)] by (intro pct_ref_concat) blast
  show ?thesis
    by (simp add: pct_decode_def pct_decode_impl_eq [OF assms(4)] encode_host_eq [OF assms(1,3)]
        encoders_eq [OF assms(1)] encode_fragment_def pieces verbatim host_excluded_def path_excluded_def
        query_excluded_def)
qed

theorem pct_round_trip_witness:
  "fst (pct_decode (x3_ref ascii) (encode_query utf8_template pct_hex (cps ''a b'') []) []) = Inr () \<and>
   snd (pct_decode (x3_ref ascii) (encode_query utf8_template pct_hex (cps ''a b'') []) []) = ''a b''"
proof -
  have n: "no_pct (cps ''a b'')"
    by (simp add: no_pct_def valid_cp_def cps_def cp_def)
  moreover have "concat (map utf8_template (cps ''a b'')) = ''a b''"
    by (simp add: cps_def utf8_template_cp)
  ultimately show ?thesis
    using pct_round_trip [OF pct.hex_gen_axioms utf8.utf_codec_axioms ref.x3_lib_axioms [of ascii32]
        ref.x3_lib_axioms n, of "[]"] by simp
qed

lemma pct_not_abpath: "\<not> is_abpath_char CHR ''%''"
  by (simp add: is_abpath_char_def)

text \<open>
  C35: what the encoders write for text without a percent sign is well-formed for the grammar:
  an encoded query or fragment is matched completely by its rule, an encoded path after a slash
  by \<open>path_abempty\<close>, and an encoded host that has no colon and does not start with an IP address is
  a registered name.
\<close>

theorem encoded_text_well_formed:
  assumes "hex_gen hex" "utf_codec enc dc" "x3_lib tables run32" and "no_pct cs"
    and "cp CHR '':'' \<notin> set hs" "no_pct hs"
    and "match tables (Alt unicode_ip_literal unicode_ip_v4_address) hs = None"
  shows "match ascii uri_query (encode_query enc hex cs []) = Some [] \<and>
    match ascii uri_fragment (encode_fragment enc hex cs []) = Some [] \<and>
    match ascii uri_path_abempty (CHR ''/'' # encode_path enc hex cs []) = Some [] \<and>
    match ascii uri_reg_name (encode_host run32 enc hex hs []) = Some []"
proof -
  have q: "toks is_query_char (encode_query enc hex cs [])"
    using pieces_toks [where P = is_query_char, OF assms(2,4) _ plain_query]
    by (simp add: encoders_eq [OF assms(1)] query_excluded_def)
  have p: "abempty (CHR ''/'' # encode_path enc hex cs [])"
    using pieces_toks [where P = is_abpath_char, OF assms(2,4) _ plain_path]
    by (simp add: encoders_eq [OF assms(1)] path_excluded_def abempty_def pct_not_abpath)
  have "is_reg_char ch" if "plain (CHR ''%'' # CHR 0x22 # ''#/<>?@['' @ CHR 0x5C # '']^`{|}'') ch"
    "cp ch \<in> set hs" for ch
    using plain_host_char [OF that(1)] that(2) assms(5) by (auto simp: is_user_char_def)
  from pieces_toks [where P = is_reg_char, OF assms(2,6) _ this] have h: "toks is_reg_char (encode_host run32 enc hex hs [])"
    using assms(7) by (simp add: encode_host_eq [OF assms(1,3)] host_excluded_def)
  show ?thesis
    using loop_tok_append [OF q, of "[]"] loop_tok_append [OF h, of "[]"] drop_abempty_append [OF p, of "[]"]
    by (simp add: encode_fragment_def match_path_abempty)
qed

theorem encoded_text_well_formed_witness:
  "match ascii uri_query (encode_query utf8_template pct_hex (cps ''a b'') []) = Some [] \<and>
   match ascii uri_reg_name (encode_host (x3_ref ascii32) utf8_template pct_hex (cps ''a b'') []) = Some []"
proof -
  have n: "no_pct (cps ''a b'')" "cp CHR '':'' \<notin> set (cps ''a b'')"
    by (simp_all add: no_pct_def valid_cp_def cps_def cp_def)
  have "match ascii32 (Alt unicode_ip_literal unicode_ip_v4_address) (cps ''a b'') = None"
    by code_simp
  from encoded_text_well_formed [OF pct.hex_gen_axioms utf8.utf_codec_axioms ref.x3_lib_axioms n(1) n(2) n(1) this]
  show ?thesis
    by blast
qed

text \<open>The longest prefix that decodes: what is left starts with a percent sign without its digits.\<close>

lemma pct_ref_rest: "snd (pct_ref s) = [] \<or> (\<exists>r. snd (pct_ref s) = CHR ''%'' # r \<and> \<not> xpair_head r)"
  by (induction s rule: pct_induct) (auto simp: pct_ref_rules)

lemma xpair_head_prefix: "xpair_head x \<Longrightarrow> prefix x r \<Longrightarrow> xpair_head r"
  by (auto simp: xpair_head_def prefix_def split: list.splits)

lemma longest_decodable:
  assumes "s = good @ snd (pct_ref s)" "pct_ref good = (fst (pct_ref s), [])"
    and "prefix pre s" "toks (\<lambda>c. c \<noteq> CHR ''%'') pre"
  shows "prefix pre good"
proof (rule ccontr)
  assume "\<not> prefix pre good"
  moreover have "prefix good s"
    using assms(1) by (metis prefixI)
  ultimately obtain x where x: "pre = good @ x" "x \<noteq> []"
    using prefix_same_cases [OF assms(3)] by (metis append_Nil2 prefix_def)
  with assms(1,3) have "prefix x (snd (pct_ref s))"
    by (metis same_prefix_prefix)
  with x(2) pct_ref_rest [of s] obtain y r where y: "x = CHR ''%'' # y" "prefix y r" "\<not> xpair_head r"
    by (cases x) auto
  then have "pct_ref x = ([], x)"
    using xpair_head_prefix [OF _ y(2)] by (auto intro: pct_ref_bad)
  with x assms(2,4) show False
    using pct_ref_append [of good x] pct_ref_complete [of pre] by simp
qed

text \<open>
  C33: decoding fails exactly when some percent sign is not followed by two hexadecimal
  digits. The sink keeps what the longest decodable prefix of the input gave: the input splits
  into a decodable part, of which every decodable prefix of the input is a prefix, and a rest that
  starts with a malformed percent sign, and exactly the bytes of the first part are appended to
  the sink, by both overloads. When there is a rest both report \<open>unexpected_pct\<close>, and
  otherwise no error.
\<close>

theorem pct_decode_outcome:
  assumes "x3_lib ascii run"
  shows "\<exists>good bad. s = good @ bad \<and> toks (\<lambda>c. c \<noteq> CHR ''%'') good \<and>
    (\<forall>pre. prefix pre s \<and> toks (\<lambda>c. c \<noteq> CHR ''%'') pre \<longrightarrow> prefix pre good) \<and>
    (bad = [] \<or> (\<exists>r. bad = CHR ''%'' # r \<and> \<not> xpair_head r)) \<and>
    (bad = [] \<longleftrightarrow> toks (\<lambda>c. c \<noteq> CHR ''%'') s) \<and>
    pct_decode run s sink =
      (if bad = [] then Inr () else Inl (make_error_code unexpected_pct), sink @ fst (pct_ref good)) \<and>
    pct_decode_ec run s sink ec =
      (sink @ fst (pct_ref good), if bad = [] then no_error else make_error_code unexpected_pct)"
proof -
  obtain good where good: "s = good @ snd (pct_ref s)" "pct_ref good = (fst (pct_ref s), [])"
    using pct_ref_split by blast
  then have "toks (\<lambda>c. c \<noteq> CHR ''%'') good"
    using pct_ref_complete [of good] by simp
  then show ?thesis
    using good pct_ref_complete [of s] pct_ref_rest [of s] longest_decodable [OF good]
    by (intro exI [of _ good] exI [of _ "snd (pct_ref s)"])
       (simp add: pct_decode_def pct_decode_ec_def pct_decode_impl_eq [OF assms])
qed

theorem pct_decode_outcome_witness:
  "pct_decode (x3_ref ascii) ''goo%%gle'' [] = (Inl (make_error_code unexpected_pct), ''goo'') \<and>
   (\<exists>good bad. ''goo%%gle'' = good @ bad \<and> toks (\<lambda>c. c \<noteq> CHR ''%'') good \<and> bad \<noteq> [])"
proof -
  have "pct_decode (x3_ref ascii) ''goo%%gle'' [] = (Inl (make_error_code unexpected_pct), ''goo'')"
    by code_simp
  moreover have "\<not> toks (\<lambda>c. c \<noteq> CHR ''%'') ''goo%%gle''"
    by code_simp
  ultimately show ?thesis
    using pct_decode_outcome [OF ref.x3_lib_axioms, of "''goo%%gle''" "[]" no_error] by blast
qed


text \<open>
  C40: the byte a pair of hexadecimal digits decodes to is the number they denote, except
  that an upper-case second digit makes it 32 too small (modulo 256): \<open>%2F\<close> decodes to the
  byte 15 where \<open>%2f\<close> decodes to a slash. An upper-case first digit does no harm, since the
  error of 512 vanishes in a byte.
\<close>

theorem xpair_byte_value:
  assumes "x3_lib ascii run" and "std_isxdigit x" "std_isxdigit y"
  shows "pct_decode run [CHR ''%'', x, y] sink =
    (Inr (), sink @ [char_of (hex_value x * 16 + hex_value y - (if is_upper_hex y then 32 else 0))])"
  using assms(2,3) by (simp add: pct_decode_def pct_decode_impl_eq [OF assms(1)] pct_ref_rules xpair_value)

theorem xpair_byte_value_witness:
  "pct_decode (x3_ref ascii) ''%2F'' [] = (Inr (), [CHR 0x0F]) \<and>
   pct_decode (x3_ref ascii) ''%2f'' [] = (Inr (), ''/'')"
proof -
  have x: "std_isxdigit CHR ''2''" "std_isxdigit CHR ''F''" "std_isxdigit CHR ''f''"
    by (simp_all add: std_isxdigit_def std_isdigit_def less_eq_char_def)
  have v: "hex_value CHR ''2'' = 2" "hex_value CHR ''F'' = 15" "hex_value CHR ''f'' = 15"
    "is_upper_hex CHR ''F''" "\<not> is_upper_hex CHR ''f''"
    by (simp_all add: hex_value_def is_upper_hex_def std_isdigit_def less_eq_char_def)
  have "char_of (15 :: int) = CHR 0x0F" "char_of (47 :: int) = CHR ''/''"
    by code_simp+
  with v show ?thesis
    using xpair_byte_value [OF ref.x3_lib_axioms x(1,2), of "[]"]
      xpair_byte_value [OF ref.x3_lib_axioms x(1,3), of "[]"] by simp
qed

text \<open>
  A host of which only a prefix is an IP address is written without any encoding, so the
  rest of it may bring characters that no host may have.
\<close>

lemma encode_host_ip_prefix:
  assumes "hex_gen hex" "x3_lib tables run32"
    and "match tables (Alt unicode_ip_literal unicode_ip_v4_address) host = Some rest"
  shows "encode_host run32 enc hex host out = out @ concat (map enc host)"
  using assms(3) by (simp add: encode_host_eq [OF assms(1,2)])

lemma encode_host_ip_prefix_instance:
  "encode_host (x3_ref ascii32) utf8_template pct_hex (cps ''1.2.3.4 /?#'') [] = ''1.2.3.4 /?#''"
proof -
  have "match ascii32 (Alt unicode_ip_literal unicode_ip_v4_address) (cps ''1.2.3.4 /?#'') = Some (cps '' /?#'')"
    by code_simp
  from encode_host_ip_prefix [OF pct.hex_gen_axioms ref.x3_lib_axioms this, of utf8_template "[]"]
  show ?thesis
    by (simp add: cps_def utf8_template_cp)
qed

text \<open>
  A valid code point is encoded in one to four bytes, so that the buffer of four bytes of
  the encoders always holds it, and one that is not written as it is adds three characters
  per byte.
\<close>

lemma encode_buffer_bound:
  assumes "hex_gen hex" "utf_codec enc dc" "valid_cp c"
  shows "1 \<le> length (utf8_encode enc c []) \<and> length (utf8_encode enc c []) \<le> 4 \<and>
    (let n = length (encode_code_point enc hex ex c out) - length out
     in n = 1 \<or> n = 3 * length (utf8_encode enc c []))"
proof -
  have e: "enc c = utf8_template c"
    using utf_codec.enc_template [OF assms(2,3)] .
  have "length (concat (map pct_hex bs)) = 3 * length bs" for bs
    by (induction bs) (simp_all add: pct_hex_def)
  moreover have "length (enc c) = 1" if "c < 127"
    using order.strict_trans [OF that, of 128] e by (simp add: utf8_template_ascii)
  ultimately show ?thesis
    using utf8_template_length [of c]
    by (auto simp: encode_code_point_eq [OF assms(1)] piece_def utf8_encode_def e Let_def)
qed

lemma encode_buffer_bound_instance:
  "length (utf8_encode utf8_template 0x10FFFF []) \<le> 4"
proof -
  have "valid_cp 0x10FFFF"
    by (simp add: valid_cp_def)
  then show ?thesis
    using encode_buffer_bound [OF pct.hex_gen_axioms utf8.utf_codec_axioms] by blast
qed

end
