(* ===== verification/Http_Fields.thy ===== *)
theory Http_Fields
  imports Uri_Lang "HOL-Library.Multiset" "HOL-Library.List_Lexorder"
begin

text \<open>
  \<^verbatim>\<open>include/foxy/detail/export_connect_fields.hpp\<close> and \<^verbatim>\<open>has_token.hpp\<close>: the hop-by-hop
  fields of a message and the detection of the proxy's own \<open>Via\<close> entry. The container
  \<open>boost::beast::http::basic_fields\<close> is not part of the program; its contents are the list of
  its fields in iteration order. What the code calls of it is a parameter: \<open>field_of\<close> maps a
  field name to the field enumeration, \<open>ins\<close> inserts, \<open>tokens\<close> splits a comma-separated
  list, and \<open>uniq\<close> is \<open>range::unique\<close>. The locale \<open>beast_fields\<close> states what their
  documentation says.
\<close>

type_synonym hfields = "(string \<times> string) list"

datatype http_field =
    connection | keep_alive | proxy_authenticate | proxy_authentication_info | proxy_authorization
  | proxy_connection | proxy_features | proxy_instruction | te | trailer | transfer_encoding
  | via | host_field | content_length | unknown_field

primrec field_string :: "http_field \<Rightarrow> string" where
  "field_string connection = ''Connection''"
| "field_string keep_alive = ''Keep-Alive''"
| "field_string proxy_authenticate = ''Proxy-Authenticate''"
| "field_string proxy_authentication_info = ''Proxy-Authentication-Info''"
| "field_string proxy_authorization = ''Proxy-Authorization''"
| "field_string proxy_connection = ''Proxy-Connection''"
| "field_string proxy_features = ''Proxy-Features''"
| "field_string proxy_instruction = ''Proxy-Instruction''"
| "field_string te = ''TE''"
| "field_string trailer = ''Trailer''"
| "field_string transfer_encoding = ''Transfer-Encoding''"
| "field_string via = ''Via''"
| "field_string host_field = ''Host''"
| "field_string content_length = ''Content-Length''"
| "field_string unknown_field = ''<unknown-field>''"

definition iequals :: "string \<Rightarrow> string \<Rightarrow> bool" where
  "iequals a b = (map std_tolower a = map std_tolower b)"

text \<open>
  \<open>std::unique\<close> moves the first element of every run of equal elements to the front; the
  elements behind them stay, as strings that are unchanged or empty after the move. The standard
  leaves the values behind the new end open; the law says what moving strings forward leaves there.
\<close>

locale beast_fields =
  fixes field_of :: "string \<Rightarrow> http_field"
    and ins :: "string \<Rightarrow> string \<Rightarrow> hfields \<Rightarrow> hfields"
    and uniq :: "string list \<Rightarrow> string list"
  assumes field_of_iff: "f \<noteq> unknown_field \<Longrightarrow> field_of n = f \<longleftrightarrow> iequals n (field_string f)"
    and ins_mset: "mset (ins n v fs) = add_mset (n, v) (mset fs)"
    and ins_same_name: "iequals m n \<Longrightarrow>
          filter (\<lambda>(k, w). iequals k m) (ins n v fs) = filter (\<lambda>(k, w). iequals k m) fs @ [(n, v)]"
    and uniq_front: "\<exists>rest. uniq xs = remdups_adj xs @ rest \<and> set rest \<subseteq> insert [] (set xs)"

subsection \<open>A reference container\<close>

definition all_fields :: "http_field list" where
  "all_fields = [connection, keep_alive, proxy_authenticate, proxy_authentication_info,
     proxy_authorization, proxy_connection, proxy_features, proxy_instruction, te, trailer,
     transfer_encoding, via, host_field, content_length]"

definition field_of_ref :: "string \<Rightarrow> http_field" where
  "field_of_ref n = (case find (\<lambda>f. iequals n (field_string f)) all_fields of Some f \<Rightarrow> f | None \<Rightarrow> unknown_field)"

definition ins_ref :: "string \<Rightarrow> string \<Rightarrow> hfields \<Rightarrow> hfields" where
  "ins_ref n v fs = fs @ [(n, v)]"

lemma iequals_sym: "iequals a b = iequals b a"
  by (auto simp: iequals_def)

lemma iequals_trans: "iequals a b \<Longrightarrow> iequals b c \<Longrightarrow> iequals a c"
  by (simp add: iequals_def)

lemma field_string_inj:
  assumes "f \<in> set all_fields" "g \<in> set all_fields" "iequals (field_string f) (field_string g)"
  shows "f = g"
proof -
  have "map (\<lambda>f. map std_tolower (field_string f)) all_fields = [''connection'', ''keep-alive'',
      ''proxy-authenticate'', ''proxy-authentication-info'', ''proxy-authorization'', ''proxy-connection'',
      ''proxy-features'', ''proxy-instruction'', ''te'', ''trailer'', ''transfer-encoding'', ''via'', ''host'',
      ''content-length'']"
    by (simp add: all_fields_def std_tolower_def less_eq_char_def char_of_def bit_Suc_0_iff)
  then have "distinct (map (\<lambda>f. map std_tolower (field_string f)) all_fields)"
    by simp
  then show ?thesis
    using assms by (auto simp: iequals_def distinct_map inj_on_def)
qed

lemma all_fields_iff: "f \<in> set all_fields \<longleftrightarrow> f \<noteq> unknown_field"
  by (cases f) (simp_all add: all_fields_def)

lemma field_of_ref_iff: "f \<noteq> unknown_field \<Longrightarrow> field_of_ref n = f \<longleftrightarrow> iequals n (field_string f)"
proof
  assume f: "f \<noteq> unknown_field" and "field_of_ref n = f"
  then have "find (\<lambda>f. iequals n (field_string f)) all_fields = Some f"
    by (auto simp: field_of_ref_def split: option.splits)
  then show "iequals n (field_string f)"
    by (auto simp: find_Some_iff)
next
  assume f: "f \<noteq> unknown_field" and eq: "iequals n (field_string f)"
  then obtain g where g: "find (\<lambda>f. iequals n (field_string f)) all_fields = Some g"
    by (metis all_fields_iff find_None_iff option.exhaust)
  then have "g \<in> set all_fields" "iequals n (field_string g)"
    by (auto simp: find_Some_iff)
  then have "g = f"
    using f eq field_string_inj [of g f] by (simp add: all_fields_iff iequals_def)
  with g show "field_of_ref n = f"
    by (simp add: field_of_ref_def)
qed

definition uniq_ref :: "string list \<Rightarrow> string list" where
  "uniq_ref xs = remdups_adj xs @ replicate (length xs - length (remdups_adj xs)) []"

interpretation ref_fields: beast_fields field_of_ref ins_ref uniq_ref
proof unfold_locales
  fix f n assume "f \<noteq> unknown_field"
  then show "field_of_ref n = f \<longleftrightarrow> iequals n (field_string f)"
    by (rule field_of_ref_iff)
next
  fix xs
  show "\<exists>rest. uniq_ref xs = remdups_adj xs @ rest \<and> set rest \<subseteq> insert [] (set xs)"
    by (auto simp: uniq_ref_def)
qed (simp_all add: ins_ref_def iequals_sym)

subsection \<open>Hop-by-hop fields\<close>

definition hop_by_hops :: "http_field list" where
  "hop_by_hops = [connection, keep_alive, proxy_authenticate, proxy_authentication_info,
     proxy_authorization, proxy_connection, proxy_features, proxy_instruction, te, trailer,
     transfer_encoding]"

definition equal_range :: "(string \<Rightarrow> http_field) \<Rightarrow> http_field \<Rightarrow> hfields \<Rightarrow> hfields" where
  "equal_range field_of f fs = filter (\<lambda>(n, v). field_of n = f) fs"

text \<open>The options of all \<open>Connection\<close> fields, sorted, with the result of \<open>unique\<close> dropped.\<close>

definition connect_opts ::
  "(string \<Rightarrow> http_field) \<Rightarrow> (string \<Rightarrow> string list) \<Rightarrow> (string list \<Rightarrow> string list) \<Rightarrow> hfields \<Rightarrow> string list" where
  "connect_opts field_of tokens uniq src =
     uniq (sort (concat (map (\<lambda>(n, v). tokens v) (equal_range field_of connection src))))"

definition is_connect_opt :: "(string \<Rightarrow> http_field) \<Rightarrow> string list \<Rightarrow> string \<times> string \<Rightarrow> bool" where
  "is_connect_opt field_of opts field =
     (field_of (fst field) \<in> set hop_by_hops \<or> list_ex (\<lambda>opt. fst field = opt) opts)"

text \<open>
  The loop over the source: \<open>pre\<close> are the fields before the iterator; erasing the field at
  the iterator moves it to the next one.
\<close>

fun export_loop ::
  "(string \<times> string \<Rightarrow> bool) \<Rightarrow> (string \<Rightarrow> string \<Rightarrow> hfields \<Rightarrow> hfields) \<Rightarrow>
   hfields \<Rightarrow> hfields \<Rightarrow> hfields \<Rightarrow> hfields \<times> hfields" where
  "export_loop is_opt ins pre [] dst = (pre, dst)"
| "export_loop is_opt ins pre (field # rest) dst =
     (if \<not> is_opt field then export_loop is_opt ins (pre @ [field]) rest dst
      else export_loop is_opt ins pre rest (ins (fst field) (snd field) dst))"

definition export_connect_fields ::
  "(string \<Rightarrow> http_field) \<Rightarrow> (string \<Rightarrow> string list) \<Rightarrow> (string list \<Rightarrow> string list) \<Rightarrow>
   (string \<Rightarrow> string \<Rightarrow> hfields \<Rightarrow> hfields) \<Rightarrow> hfields \<Rightarrow> hfields \<Rightarrow> hfields \<times> hfields" where
  "export_connect_fields field_of tokens uniq ins src dst =
     (let opts = connect_opts field_of tokens uniq src
      in export_loop (is_connect_opt field_of opts) ins [] src dst)"

subsection \<open>The proxy's own Via entry\<close>

definition foxy_via_value :: "char parser" where
  "foxy_via_value = NoCase (seqs (Kleene (Diff AnyChar (Lit ''1.1 foxy''))) [Lit ''1.1 foxy'', Kleene AnyChar])"

fun has_foxy_via_loop :: "char x3_run \<Rightarrow> hfields \<Rightarrow> bool" where
  "has_foxy_via_loop run [] = False"
| "has_foxy_via_loop run (f # fs) =
     (if fst (x3_parse run (snd f) foxy_via_value []) then True else has_foxy_via_loop run fs)"

definition has_foxy_via :: "(string \<Rightarrow> http_field) \<Rightarrow> char x3_run \<Rightarrow> hfields \<Rightarrow> bool" where
  "has_foxy_via field_of run fs = has_foxy_via_loop run (equal_range field_of via fs)"


subsection \<open>What is exported\<close>

lemma export_loop_eq:
  "export_loop is_opt ins pre src dst =
     (pre @ filter (\<lambda>f. \<not> is_opt f) src, fold (\<lambda>(n, v). ins n v) (filter is_opt src) dst)"
  by (induction src arbitrary: pre dst) (simp_all add: split_beta)

lemma export_eq:
  "export_connect_fields field_of tokens uniq ins src dst =
     (let opt = is_connect_opt field_of (connect_opts field_of tokens uniq src)
      in (filter (\<lambda>f. \<not> opt f) src, fold (\<lambda>(n, v). ins n v) (filter opt src) dst))"
  by (simp add: export_connect_fields_def export_loop_eq Let_def)

text \<open>The names that the \<open>Connection\<close> fields of a message list.\<close>

definition nominated :: "(string \<Rightarrow> http_field) \<Rightarrow> (string \<Rightarrow> string list) \<Rightarrow> hfields \<Rightarrow> string set" where
  "nominated field_of tokens src = (\<Union>(n, v) \<in> set (equal_range field_of connection src). set (tokens v))"

context beast_fields
begin

lemma fold_ins_mset: "mset (fold (\<lambda>(n, v). ins n v) fs dst) = mset fs + mset dst"
  by (induction fs arbitrary: dst) (auto simp: ins_mset)

lemma ins_other_name:
  assumes "\<not> iequals m n"
  shows "mset (filter (\<lambda>(k, w). iequals k m) (ins n v fs)) = mset (filter (\<lambda>(k, w). iequals k m) fs)"
  using assms by (simp add: ins_mset mset_filter iequals_sym)

lemma connect_opts_set:
  "nominated field_of tokens src \<subseteq> set (connect_opts field_of tokens uniq src)"
  "set (connect_opts field_of tokens uniq src) \<subseteq> insert [] (nominated field_of tokens src)"
proof -
  let ?xs = "sort (concat (map (\<lambda>(n, v). tokens v) (equal_range field_of connection src)))"
  have "set ?xs = nominated field_of tokens src"
    by (auto simp: nominated_def)
  moreover obtain rest where "uniq ?xs = remdups_adj ?xs @ rest" "set rest \<subseteq> insert [] (set ?xs)"
    using uniq_front by blast
  ultimately show "nominated field_of tokens src \<subseteq> set (connect_opts field_of tokens uniq src)"
    "set (connect_opts field_of tokens uniq src) \<subseteq> insert [] (nominated field_of tokens src)"
    by (auto simp: connect_opts_def)
qed

lemma is_connect_opt_iff:
  assumes "fst f \<noteq> []"
  shows "is_connect_opt field_of (connect_opts field_of tokens uniq src) f \<longleftrightarrow>
    field_of (fst f) \<in> set hop_by_hops \<or> fst f \<in> nominated field_of tokens src"
  using assms connect_opts_set [of tokens src] by (auto simp: is_connect_opt_def list_ex_iff)

lemma export_filter:
  assumes "\<forall>f\<in>set src. fst f \<noteq> []"
  shows "export_connect_fields field_of tokens uniq ins src dst =
    (filter (\<lambda>f. \<not> (field_of (fst f) \<in> set hop_by_hops \<or> fst f \<in> nominated field_of tokens src)) src,
     fold (\<lambda>(n, v). ins n v)
       (filter (\<lambda>f. field_of (fst f) \<in> set hop_by_hops \<or> fst f \<in> nominated field_of tokens src) src) dst)"
  using assms by (simp add: export_eq Let_def is_connect_opt_iff cong: filter_cong)

lemma no_connection_no_nominated:
  "\<forall>f\<in>set src. field_of (fst f) \<noteq> connection \<Longrightarrow> nominated field_of tokens src = {}"
  by (auto simp: nominated_def equal_range_def)

end

subsection \<open>What is found in a Via value\<close>

definition mentions :: "string \<Rightarrow> string \<Rightarrow> bool" where
  "mentions l s = (\<exists>a b. s = a @ l @ b)"

definition skip :: "string \<Rightarrow> string \<Rightarrow> string option" where
  "skip l s = (if prefix l s then None else case s of [] \<Rightarrow> None | c # r \<Rightarrow> Some r)"

lemma match_skip: "match enc (Diff AnyChar (Lit l)) = skip l"
  by (rule ext) (auto simp: skip_def match_one_def split: list.split)

lemma mentions_Cons: "\<not> prefix l (c # s) \<Longrightarrow> mentions l (c # s) \<longleftrightarrow> mentions l s"
  unfolding mentions_def by (auto simp: prefix_def Cons_eq_append_conv)

lemma scan_prefix:
  assumes "l \<noteq> []"
  shows "prefix l (match_loop (skip l) s) \<longleftrightarrow> mentions l s"
proof (induction s)
  case Nil
  then show ?case
    using assms by (subst match_loop.simps) (simp add: skip_def mentions_def)
next
  case (Cons c s)
  show ?case
  proof (cases "prefix l (c # s)")
    case True
    then have "match_loop (skip l) (c # s) = c # s"
      by (subst match_loop.simps) (simp add: skip_def)
    moreover have "mentions l (c # s)"
      using True by (metis append.left_neutral prefixE mentions_def)
    ultimately show ?thesis
      using True by simp
  next
    case False
    then have "match_loop (skip l) (c # s) = match_loop (skip l) s"
      by (subst match_loop.simps) (simp add: skip_def)
    with Cons False show ?thesis
      by (simp add: mentions_Cons)
  qed
qed

definition foxy_via_text :: "string \<Rightarrow> bool" where
  "foxy_via_text v = mentions ''1.1 foxy'' (map std_tolower v)"

lemma via_value_match: "match ascii foxy_via_value s \<noteq> None \<longleftrightarrow> foxy_via_text s"
proof -
  have "match ascii foxy_via_value s \<noteq> None \<longleftrightarrow>
    prefix ''1.1 foxy'' (match_loop (skip ''1.1 foxy'') (map std_tolower s))"
    unfolding foxy_via_value_def seqs.simps
    by (simp add: match_skip del: match.simps(10))
  then show ?thesis
    by (simp add: scan_prefix foxy_via_text_def)
qed

lemma has_foxy_via_iff:
  assumes "x3_lib ascii run"
  shows "has_foxy_via field_of run fs \<longleftrightarrow> (\<exists>(n, v) \<in> set fs. field_of n = via \<and> foxy_via_text v)"
proof -
  have "x3_ok ascii foxy_via_value" "attr_free foxy_via_value"
    by (simp_all add: foxy_via_value_def ascii_def std_tolower_def less_eq_char_def)
  then have p: "fst (x3_parse run v foxy_via_value []) \<longleftrightarrow> foxy_via_text v" for v
    using x3_lib.run_match [OF assms, of foxy_via_value v "[]"] via_value_match [of v]
    by (auto simp: x3_parse_def split: option.split)
  have "has_foxy_via_loop run gs \<longleftrightarrow> (\<exists>(n, v) \<in> set gs. foxy_via_text v)" for gs
    by (induction gs) (auto simp: p)
  then show ?thesis
    by (auto simp: has_foxy_via_def equal_range_def)
qed

end
