(* ===== verification/Http_Fields_Properties.thy ===== *)
theory Http_Fields_Properties
  imports Http_Fields
begin

text \<open>
  The properties of \<open>export_connect_fields\<close> and \<open>has_foxy_via\<close>, with the reference container
  as the witness of the library's laws.
\<close>

text \<open>
  C18: exporting splits the fields of a message: those that remain are, in their order, the
  ones that are neither hop-by-hop nor named by a \<open>Connection\<close> field, all others are added
  to the destination, and no field is lost or made up.
\<close>

theorem export_partition:
  assumes "beast_fields field_of ins uniq" and "\<forall>f\<in>set src. fst f \<noteq> []"
  shows "case export_connect_fields field_of tokens uniq ins src dst of (src', dst') \<Rightarrow>
    src' = filter (\<lambda>f. field_of (fst f) \<notin> set hop_by_hops \<and> fst f \<notin> nominated field_of tokens src) src \<and>
    mset src' + mset dst' = mset src + mset dst"
  using multiset_partition [of "mset src" "\<lambda>f. field_of (fst f) \<in> set hop_by_hops \<or>
      fst f \<in> nominated field_of tokens src"]
  by (simp add: beast_fields.export_filter [OF assms] beast_fields.fold_ins_mset [OF assms(1)] ac_simps
      flip: mset_filter)

definition sample_tokens :: "string \<Rightarrow> string list" where
  "sample_tokens v = [v]"

theorem export_partition_witness:
  "case export_connect_fields field_of_ref sample_tokens uniq_ref ins_ref
      [(''Connection'', ''X-A''), (''X-A'', ''1''), (''Accept'', ''2'')] [] of (src', dst') \<Rightarrow>
    mset src' + mset dst' = mset [(''Connection'', ''X-A''), (''X-A'', ''1''), (''Accept'', ''2'')]"
  using export_partition [OF ref_fields.beast_fields_axioms,
      of "[(''Connection'', ''X-A''), (''X-A'', ''1''), (''Accept'', ''2'')]" sample_tokens "[]"]
  by (auto split: prod.splits)

text \<open>
  After an export a second one finds nothing: the remaining fields name no connection
  option any more and none of them is hop-by-hop.
\<close>

lemma export_idempotent:
  assumes "beast_fields field_of ins uniq" and "\<forall>f\<in>set src. fst f \<noteq> []"
  shows "export_connect_fields field_of tokens uniq ins
      (fst (export_connect_fields field_of tokens uniq ins src dst)) dst2 =
    (fst (export_connect_fields field_of tokens uniq ins src dst), dst2)"
proof -
  let ?src = "fst (export_connect_fields field_of tokens uniq ins src dst)"
  note e = beast_fields.export_filter [OF assms(1)]
  have src: "?src = filter (\<lambda>f. \<not> (field_of (fst f) \<in> set hop_by_hops \<or> fst f \<in> nominated field_of tokens src)) src"
    using assms(2) by (simp add: e)
  then have ok: "\<forall>f\<in>set ?src. fst f \<noteq> [] \<and> field_of (fst f) \<notin> set hop_by_hops"
    using assms(2) by auto
  then have "nominated field_of tokens ?src = {}"
    by (intro beast_fields.no_connection_no_nominated [OF assms(1)]) (auto simp: hop_by_hops_def)
  with ok show ?thesis
    by (subst e) (auto simp: filter_id_conv filter_empty_conv)
qed

lemma export_idempotent_instance:
  "fst (export_connect_fields field_of_ref sample_tokens uniq_ref ins_ref
     (fst (export_connect_fields field_of_ref sample_tokens uniq_ref ins_ref [(''TE'', ''x''), (''A'', ''2'')] [])) []) =
   fst (export_connect_fields field_of_ref sample_tokens uniq_ref ins_ref [(''TE'', ''x''), (''A'', ''2'')] [])"
  using export_idempotent [OF ref_fields.beast_fields_axioms, of "[(''TE'', ''x''), (''A'', ''2'')]"] by simp

text \<open>
  Connection options are compared with the letters as they are, although field names are
  case-insensitive: a field that is named by a \<open>Connection\<close> option in another case, and is
  not itself a hop-by-hop field, stays in the message.
\<close>

lemma export_option_case:
  assumes "beast_fields field_of ins uniq" and "iequals n opt" "n \<noteq> opt" "n \<noteq> []"
    and "tokens v = [opt]" and "field_of n \<notin> set hop_by_hops"
  shows "(n, w) \<in> set (fst (export_connect_fields field_of tokens uniq ins [(''Connection'', v), (n, w)] dst))"
proof -
  have "field_of ''Connection'' = connection"
    using beast_fields.field_of_iff [OF assms(1), of connection] by (simp add: iequals_def)
  then have "nominated field_of tokens [(''Connection'', v), (n, w)] = {opt}"
    using assms(5,6) by (auto simp: nominated_def equal_range_def hop_by_hops_def)
  with assms show ?thesis
    by (subst beast_fields.export_filter [OF assms(1)]) auto
qed

lemma export_option_case_instance:
  "(''x-a'', ''1'') \<in> set (fst (export_connect_fields field_of_ref sample_tokens uniq_ref ins_ref
     [(''Connection'', ''X-A''), (''x-a'', ''1'')] []))"
proof (rule export_option_case [OF ref_fields.beast_fields_axioms, of _ "''X-A''"])
  show "iequals ''x-a'' ''X-A''" "field_of_ref ''x-a'' \<notin> set hop_by_hops"
    by code_simp+
qed (simp_all add: sample_tokens_def)

text \<open>
  A message is recognised as one the proxy has already handled exactly when the value of
  one of its \<open>Via\<close> fields contains \<open>1.1 foxy\<close>, in any case.
\<close>

lemma has_foxy_via_exact:
  assumes "beast_fields field_of ins uniq" "x3_lib ascii run"
  shows "has_foxy_via field_of run fs \<longleftrightarrow>
    (\<exists>(n, v) \<in> set fs. iequals n ''Via'' \<and> mentions ''1.1 foxy'' (map std_tolower v))"
  using has_foxy_via_iff [OF assms(2)] beast_fields.field_of_iff [OF assms(1), of via]
  by (simp add: foxy_via_text_def)

lemma has_foxy_via_exact_instance:
  "has_foxy_via field_of_ref (x3_ref ascii) [(''VIA'', ''1.0 x, 1.1 FOXY'')]"
proof -
  have "iequals ''VIA'' ''Via''" "map std_tolower ''1.0 x, 1.1 FOXY'' = ''1.0 x, '' @ ''1.1 foxy'' @ []"
    by code_simp+
  then have "iequals ''VIA'' ''Via'' \<and> mentions ''1.1 foxy'' (map std_tolower ''1.0 x, 1.1 FOXY'')"
    unfolding mentions_def by blast
  then show ?thesis
    by (subst has_foxy_via_exact [OF ref_fields.beast_fields_axioms ref.x3_lib_axioms]) simp
qed

end
