(* ===== verification/Timed_Op.thy ===== *)
theory Timed_Op
  imports Foxy_Error
begin

text \<open>
  \<^verbatim>\<open>include/foxy/detail/timed_op_wrapper_v3.hpp\<close>: an asynchronous operation raced against
  the timer of its session. The state is the shared \<open>state\<close> of the intermediate handler
  (\<open>done\<close>, \<open>results\<close>, the timer coroutine), with what the handler can observe of its
  surroundings: whether the wrapped operation is outstanding, the wait on the timer, whether
  the stream has been closed, and the calls of the user's handler, in order. Handlers run one
  at a time, on the executor of the handler. The step relation interleaves the completion of
  the operation, the expiry of the timer, a cancellation of the wait by another user of the
  timer, and the delivery of the wait's completion.
\<close>

datatype coro = Fresh | Suspended | Finished

datatype wait = No_wait | Waiting | Ready error_code

record 'a timed =
  t_done :: bool
  t_results :: "'a option"
  t_coro :: coro
  t_op :: bool                  \<comment> \<open>the wrapped operation is outstanding\<close>
  t_wait :: wait
  t_closed :: bool
  t_calls :: "'a list"          \<comment> \<open>calls of the completion handler\<close>
  t_bad :: bool                 \<comment> \<open>an empty \<open>results\<close> was dereferenced\<close>

text \<open>\<open>async_timer_initiation\<close>: the wait is started, then the operation.\<close>

definition timed_init :: "'a timed" where
  "timed_init = \<lparr>t_done = False, t_results = None, t_coro = Fresh, t_op = True, t_wait = Waiting,
     t_closed = False, t_calls = [], t_bad = False\<rparr>"

text \<open>Moving the results out of the state and calling the handler with them.\<close>

definition deliver :: "'a timed \<Rightarrow> 'a timed" where
  "deliver s =
     (case t_results s of
        Some r \<Rightarrow> s\<lparr>t_results := None, t_calls := t_calls s @ [r]\<rparr>
      | None \<Rightarrow> s\<lparr>t_bad := True\<rparr>)"

text \<open>Cancelling the timer completes an outstanding wait; a completion already queued stays.\<close>

definition timer_cancel :: "'a timed \<Rightarrow> 'a timed" where
  "timer_cancel s = (if t_wait s = Waiting then s\<lparr>t_wait := Ready operation_aborted\<rparr> else s)"

text \<open>\<open>operator()(Args&&...)\<close>: the wrapped operation has completed.\<close>

definition on_op :: "'a \<Rightarrow> 'a timed \<Rightarrow> 'a timed" where
  "on_op args s =
     (let s = s\<lparr>t_results := Some args\<rparr>
      in if t_done s then deliver s
      else timer_cancel (s\<lparr>t_done := True\<rparr>))"

text \<open>
  \<open>operator()(on_timer_t, ec)\<close>: the wait has completed. The coroutine loops while the wait was
  aborted and the operation is not done, each time with a new wait.
\<close>

definition on_timer :: "error_code \<Rightarrow> 'a timed \<Rightarrow> 'a timed" where
  "on_timer ec s =
     (if t_coro s \<noteq> Finished \<and> ec = operation_aborted \<and> \<not> t_done s
      then s\<lparr>t_coro := Suspended, t_wait := Waiting\<rparr>
      else
        (let s = s\<lparr>t_coro := Finished\<rparr>
         in if t_done s then deliver s else s\<lparr>t_done := True, t_closed := True\<rparr>))"

datatype 'a timed_event = Op_done 'a | Expired | Rearmed | Wait_done

inductive timed_step :: "'a timed \<Rightarrow> 'a timed_event \<Rightarrow> 'a timed \<Rightarrow> bool" where
  op_completes: "t_op s \<Longrightarrow> timed_step s (Op_done args) (on_op args (s\<lparr>t_op := False\<rparr>))"
| timer_expires: "t_wait s = Waiting \<Longrightarrow> timed_step s Expired (s\<lparr>t_wait := Ready no_error\<rparr>)"
| timer_rearmed: "t_wait s = Waiting \<Longrightarrow> timed_step s Rearmed (s\<lparr>t_wait := Ready operation_aborted\<rparr>)"
| wait_completes: "t_wait s = Ready ec \<Longrightarrow> timed_step s Wait_done (on_timer ec (s\<lparr>t_wait := No_wait\<rparr>))"

text \<open>The states after a sequence of events, from the initiation on.\<close>

inductive timed_run :: "'a timed_event list \<Rightarrow> 'a timed \<Rightarrow> bool" where
  init: "timed_run [] timed_init"
| step: "timed_run evs s \<Longrightarrow> timed_step s e s' \<Longrightarrow> timed_run (evs @ [e]) s'"

definition timed_final :: "'a timed \<Rightarrow> bool" where
  "timed_final s = (\<not> t_op s \<and> t_wait s = No_wait)"

inductive_simps timed_step_op: "timed_step s (Op_done a) s'"
inductive_simps timed_step_expired: "timed_step s Expired s'"
inductive_simps timed_step_rearmed: "timed_step s Rearmed s'"
inductive_simps timed_step_wait: "timed_step s Wait_done s'"

lemmas timed_step_simps = timed_step_op timed_step_expired timed_step_rearmed timed_step_wait

lemmas timed_defs = on_op_def on_timer_def deliver_def timer_cancel_def Let_def

subsection \<open>The invariant\<close>

text \<open>
  Where the race stands: both sides outstanding; the operation came first and the wait is
  still to come back; the timer came first and the operation is still to come back; over.
\<close>

definition no_op :: "'a timed_event list \<Rightarrow> bool" where
  "no_op evs = (\<forall>a. Op_done a \<notin> set evs)"

definition only_op :: "'a timed_event list \<Rightarrow> 'a \<Rightarrow> bool" where
  "only_op evs r = (\<forall>a. Op_done a \<in> set evs \<longleftrightarrow> a = r)"

lemma no_op_snoc [simp]:
  "no_op []" "no_op (evs @ [e]) \<longleftrightarrow> no_op evs \<and> (\<forall>a. e \<noteq> Op_done a)"
  by (auto simp: no_op_def)

lemma only_op_snoc [simp]:
  "no_op evs \<Longrightarrow> only_op (evs @ [Op_done r]) r"
  "\<forall>a. e \<noteq> Op_done a \<Longrightarrow> only_op (evs @ [e]) r = only_op evs r"
  by (auto simp: no_op_def only_op_def)

definition racing :: "'a timed_event list \<Rightarrow> 'a timed \<Rightarrow> bool" where
  "racing evs s \<longleftrightarrow> \<not> t_done s \<and> t_op s \<and> t_wait s \<noteq> No_wait \<and> t_coro s \<noteq> Finished \<and> t_results s = None \<and>
     \<not> t_closed s \<and> t_calls s = [] \<and> no_op evs \<and>
     (t_wait s = Ready no_error \<longrightarrow> Expired \<in> set evs)"

definition op_first :: "'a timed_event list \<Rightarrow> 'a timed \<Rightarrow> bool" where
  "op_first evs s \<longleftrightarrow> t_done s \<and> \<not> t_op s \<and> t_wait s \<noteq> No_wait \<and> t_wait s \<noteq> Waiting \<and> t_coro s \<noteq> Finished \<and>
     (\<exists>r. t_results s = Some r \<and> only_op evs r) \<and> \<not> t_closed s \<and> t_calls s = []"

definition timer_first :: "'a timed_event list \<Rightarrow> 'a timed \<Rightarrow> bool" where
  "timer_first evs s \<longleftrightarrow> t_done s \<and> t_op s \<and> t_wait s = No_wait \<and> t_coro s = Finished \<and> t_results s = None \<and>
     t_closed s \<and> t_calls s = [] \<and> no_op evs"

definition over :: "'a timed_event list \<Rightarrow> 'a timed \<Rightarrow> bool" where
  "over evs s \<longleftrightarrow> t_done s \<and> \<not> t_op s \<and> t_wait s = No_wait \<and> t_coro s = Finished \<and>
     (\<exists>r. t_calls s = [r] \<and> only_op evs r)"

definition timed_inv :: "'a timed_event list \<Rightarrow> 'a timed \<Rightarrow> bool" where
  "timed_inv evs s \<longleftrightarrow> \<not> t_bad s \<and> (racing evs s \<or> op_first evs s \<or> timer_first evs s \<or> over evs s)"

lemmas timed_inv_defs = timed_inv_def racing_def op_first_def timer_first_def over_def

lemma timed_inv_init: "timed_inv [] timed_init"
  by (simp add: timed_inv_defs timed_init_def)

lemma inv_racing_step:
  assumes "racing evs s" "\<not> t_bad s" "timed_step s e s'"
  shows "timed_inv (evs @ [e]) s'"
  using assms(3,1,2)
proof cases
  case (op_completes args)
  then show ?thesis
    using assms by (auto simp: timed_inv_defs timed_defs)
next
  case (wait_completes ec)
  then show ?thesis
    using assms by (auto simp: timed_inv_defs timed_defs)
qed (use assms in \<open>auto simp: timed_inv_defs\<close>)

lemma inv_op_first_step:
  assumes "op_first evs s" "\<not> t_bad s" "timed_step s e s'"
  shows "timed_inv (evs @ [e]) s'"
  using assms(3)
proof cases
  case (wait_completes ec)
  obtain r where r: "t_results s = Some r" "only_op evs r"
    using assms(1) by (auto simp: op_first_def)
  have s': "s' = s\<lparr>t_wait := No_wait, t_coro := Finished, t_results := None, t_calls := [r]\<rparr>"
    using wait_completes assms(1) r(1) by (simp add: op_first_def on_timer_def deliver_def)
  then have "over (evs @ [e]) s'"
    using wait_completes assms(1) r(2) by (simp add: op_first_def over_def)
  moreover have "\<not> t_bad s'"
    using assms(2) s' by simp
  ultimately show ?thesis
    by (simp add: timed_inv_def)
qed (use assms(1) in \<open>simp_all add: op_first_def\<close>)

lemma inv_timer_first_step:
  assumes "timer_first evs s" "\<not> t_bad s" "timed_step s e s'"
  shows "timed_inv (evs @ [e]) s'"
  using assms(3,1,2) by cases (auto simp: timed_inv_defs timed_defs)

lemma over_no_step: "over evs s \<Longrightarrow> \<not> timed_step s e s'"
  by (auto simp: over_def elim: timed_step.cases)

lemma timed_inv_run: "timed_run evs s \<Longrightarrow> timed_inv evs s"
proof (induction rule: timed_run.induct)
  case (step evs s e s')
  then show ?case
    using inv_racing_step inv_op_first_step inv_timer_first_step over_no_step
    unfolding timed_inv_def [of evs s] by blast
qed (rule timed_inv_init)

subsection \<open>Progress\<close>

lemma step_possible:
  assumes "\<not> timed_final s"
  shows "\<exists>e s'. timed_step s e s'"
proof (cases "t_op s")
  case True
  then show ?thesis
    by (meson timed_step.op_completes)
next
  case False
  with assms show ?thesis
    by (cases "t_wait s") (auto simp: timed_final_def intro: timed_step.intros)
qed

text \<open>
  How many steps are left when nobody touches the timer: the operation, the expiry and the
  delivery of the wait.
\<close>

definition steps_left :: "'a timed \<Rightarrow> nat" where
  "steps_left s =
     (if t_op s then 1 else 0) +
     (case t_wait s of No_wait \<Rightarrow> 0 | Waiting \<Rightarrow> 2
      | Ready ec \<Rightarrow> if ec = operation_aborted \<and> \<not> t_done s then 3 else 1)"

lemma steps_left_step:
  assumes "timed_step s e s'" "timed_inv evs s"
  shows "Suc (steps_left s') \<le> steps_left s + (if e = Rearmed then 2 else 0)"
  using assms(1)
proof cases
  case (wait_completes ec)
  then show ?thesis
    using assms(2) by (auto simp: steps_left_def timed_inv_defs timed_defs)
qed (use assms(2) in \<open>auto simp: steps_left_def timed_inv_defs timed_defs split: wait.splits\<close>)

lemma run_length: "timed_run evs s \<Longrightarrow> length evs + steps_left s \<le> 3 + 2 * count_list evs Rearmed"
proof (induction rule: timed_run.induct)
  case (step evs s e s')
  then show ?case
    using steps_left_step [OF step(2) timed_inv_run [OF step(1)]] by (auto split: if_splits)
qed (simp add: steps_left_def timed_init_def)


subsection \<open>Closing the stream\<close>

definition closed_inv :: "'a timed_event list \<Rightarrow> 'a timed \<Rightarrow> bool" where
  "closed_inv evs s \<longleftrightarrow> (t_closed s \<longrightarrow> Expired \<in> set evs) \<and>
     (\<forall>ec. t_wait s = Ready ec \<longrightarrow> ec = operation_aborted \<or> Expired \<in> set evs)"

lemma closed_inv_run: "timed_run evs s \<Longrightarrow> closed_inv evs s"
proof (induction rule: timed_run.induct)
  case (step evs s e s')
  have inv: "timed_inv evs s"
    using step(1) by (rule timed_inv_run)
  show ?case
    using step(2)
  proof cases
    case (wait_completes ec)
    show ?thesis
    proof (cases "t_done s")
      case True
      with wait_completes step(3) show ?thesis
        by (auto simp: closed_inv_def timed_defs split: option.split)
    next
      case False
      with inv have "t_coro s \<noteq> Finished"
        by (auto simp: timed_inv_defs)
      with wait_completes step(3) False show ?thesis
        by (auto simp: closed_inv_def timed_defs)
    qed
  qed (use step(3) in \<open>auto simp: closed_inv_def timed_defs split: option.split\<close>)
qed (simp add: closed_inv_def timed_init_def)

subsection \<open>Properties\<close>

lemma run_snoc: "timed_run evs s \<Longrightarrow> timed_step s e s' \<Longrightarrow> evs' = evs @ [e] \<Longrightarrow> timed_run evs' s'"
  by (simp add: timed_run.step)

lemma sample_run:
  "\<exists>s. timed_run [Expired, Wait_done, Op_done (7 :: nat)] s \<and> timed_final s \<and> t_closed s \<and> t_calls s = [7]"
proof -
  have "timed_run [Expired] (timed_init\<lparr>t_wait := Ready no_error\<rparr> :: nat timed)"
    by (rule run_snoc [OF timed_run.init timed_step.timer_expires]) (simp_all add: timed_init_def)
  then have "timed_run [Expired, Wait_done]
      (timed_init\<lparr>t_wait := No_wait, t_coro := Finished, t_done := True, t_closed := True\<rparr> :: nat timed)"
    by (rule run_snoc) (simp_all add: timed_step_simps on_timer_def timed_init_def)
  then have "timed_run [Expired, Wait_done, Op_done (7 :: nat)]
      (timed_init\<lparr>t_wait := No_wait, t_coro := Finished, t_done := True, t_closed := True, t_op := False,
        t_calls := [7]\<rparr>)"
    by (rule run_snoc) (simp_all add: timed_step_simps on_op_def deliver_def timed_init_def)
  then show ?thesis
    by - (rule exI, rule conjI, assumption, simp add: timed_final_def)
qed

text \<open>
  C10: however the operation, the timer and other users of the timer interleave, the user's
  handler is called at most once, with the result of the wrapped operation; once neither the
  operation nor the wait is outstanding it has been called exactly once; and the results are
  never read before they are there.
\<close>

theorem timed_exactly_once:
  assumes "timed_run evs s"
  shows "\<not> t_bad s \<and> length (t_calls s) \<le> 1 \<and> (\<forall>r\<in>set (t_calls s). only_op evs r) \<and>
    (timed_final s \<longrightarrow> (\<exists>r. t_calls s = [r]))"
  using timed_inv_run [OF assms] by (auto simp: timed_inv_defs timed_final_def)

theorem timed_exactly_once_witness:
  "\<exists>s. timed_run [Expired, Wait_done, Op_done (7 :: nat)] s \<and> timed_final s \<and> (\<exists>r. t_calls s = [r])"
proof -
  obtain s where "timed_run [Expired, Wait_done, Op_done (7 :: nat)] s" "timed_final s"
    using sample_run by blast
  with timed_exactly_once [OF this(1)] show ?thesis
    by blast
qed

text \<open>
  The race never gets stuck and is short: while something is outstanding a step is
  possible, and apart from two steps for every time another user of the session re-arms the
  timer, three steps end it.
\<close>

lemma timed_terminates:
  assumes "timed_run evs s"
  shows "length evs \<le> 3 + 2 * count_list evs Rearmed \<and> (timed_final s \<or> (\<exists>e s'. timed_step s e s')) \<and>
    (timed_final s \<longrightarrow> \<not> (\<exists>e s'. timed_step s e s'))"
proof -
  have "\<not> timed_step s e s'" if "timed_final s" for e s'
    using that by (auto simp: timed_final_def elim: timed_step.cases)
  then show ?thesis
    using run_length [OF assms] step_possible [of s] by auto
qed

lemma timed_terminates_instance:
  "\<exists>s. timed_run [Expired, Wait_done, Op_done (7 :: nat)] s \<and> \<not> (\<exists>e s'. timed_step s e s')"
proof -
  obtain s where "timed_run [Expired, Wait_done, Op_done (7 :: nat)] s" "timed_final s"
    using sample_run by blast
  with timed_terminates [OF this(1)] show ?thesis
    by blast
qed

text \<open>
  The stream is closed only after the timer really expired; however often its wait is
  aborted, and whenever the operation completes, it otherwise stays open.
\<close>

lemma timed_close_only_on_expiry:
  assumes "timed_run evs s" and "t_closed s"
  shows "Expired \<in> set evs \<and> t_done s"
  using closed_inv_run [OF assms(1)] timed_inv_run [OF assms(1)] assms(2)
  by (auto simp: closed_inv_def timed_inv_defs)

lemma timed_close_only_on_expiry_instance:
  "\<exists>s. timed_run [Expired, Wait_done, Op_done (7 :: nat)] s \<and> t_closed s \<and> t_done s"
proof -
  obtain s where "timed_run [Expired, Wait_done, Op_done (7 :: nat)] s" "t_closed s"
    using sample_run by blast
  with timed_close_only_on_expiry [OF this] show ?thesis
    by blast
qed

end
