(* ===== verification/Coro.thy ===== *)
theory Coro
  imports Foxy_Error
begin

text \<open>
  The program's asynchronous operations are stackless coroutines
  (\<open>BOOST_ASIO_CORO_REENTER\<close>). A coroutine is a function \<open>resume\<close> from its state, which
  holds the point to resume at, and from the event it is resumed with. It answers with the
  new state and with what it did at the end of the straight line of code it ran: it yielded to
  an asynchronous operation, called its completion handler, let an exception escape, or
  called \<open>std::terminate\<close>. \<open>Mismatch\<close> stands for an event that the operation the coroutine
  waits for does not produce.
\<close>

datatype ('op, 'r) out = Yield 'op | Return 'r | Throw error_code | Terminate | Mismatch

fun coro_run :: "('s \<Rightarrow> 'ev \<Rightarrow> 's \<times> ('op, 'r) out) \<Rightarrow> 's \<Rightarrow> 'ev list \<Rightarrow> 's \<times> ('op, 'r) out list" where
  "coro_run resume s [] = (s, [])"
| "coro_run resume s (e # es) =
     (case resume s e of
        (s', Yield op) \<Rightarrow> apsnd ((#) (Yield op)) (coro_run resume s' es)
      | (s', out) \<Rightarrow> (s', [out]))"

definition yields :: "('op, 'r) out \<Rightarrow> bool" where
  "yields out = (case out of Yield op \<Rightarrow> True | _ \<Rightarrow> False)"

lemma yields_simps [simp]: "yields (Yield op)" "\<not> yields (Return r)" "\<not> yields (Throw ec)" "\<not> yields Terminate" "\<not> yields Mismatch"
  by (simp_all add: yields_def)

text \<open>Everything before the last output is a yield, so an operation ends at most once.\<close>

lemma coro_run_yields: "list_all yields (butlast (snd (coro_run resume s es)))"
  by (induction es arbitrary: s) (auto split: prod.split out.split)

lemma coro_run_length: "length (snd (coro_run resume s es)) \<le> length es"
  by (induction es arbitrary: s) (auto split: prod.split out.split)

text \<open>
  Invariants of coroutines: what holds of the state at every resumption, given a property of
  the events, and what it implies for the outputs.
\<close>

locale coro_inv =
  fixes resume :: "'s \<Rightarrow> 'ev \<Rightarrow> 's \<times> ('op, 'r) out"
    and ev_ok :: "'ev \<Rightarrow> bool"
    and inv :: "'s \<Rightarrow> bool"
    and out_ok :: "('op, 'r) out \<Rightarrow> bool"
  assumes resume_inv: "inv s \<Longrightarrow> ev_ok e \<Longrightarrow> resume s e = (s', out) \<Longrightarrow> out_ok out \<and> (yields out \<longrightarrow> inv s')"
begin

lemma run_outputs: "inv s \<Longrightarrow> list_all ev_ok es \<Longrightarrow> list_all out_ok (snd (coro_run resume s es))"
proof (induction es arbitrary: s)
  case (Cons e es)
  obtain s' out where r: "resume s e = (s', out)"
    by (cases "resume s e")
  with Cons.prems resume_inv [of s e s' out] have ok: "out_ok out" "yields out \<longrightarrow> inv s'"
    by auto
  with r Cons show ?case
    by (cases out) (auto split: prod.split)
qed simp

end

text \<open>What every resumption keeps holds of the state after a run.\<close>

lemma coro_run_keeps:
  "I s \<Longrightarrow> (\<And>s ev. I s \<Longrightarrow> I (fst (resume s ev))) \<Longrightarrow> I (fst (coro_run resume s es))"
proof (induction es arbitrary: s)
  case (Cons e es)
  obtain s' out where r: "resume s e = (s', out)"
    by (cases "resume s e")
  with Cons.prems have "I s'"
    by (metis fst_conv)
  with Cons r show ?case
    by (cases out) simp_all
qed simp

text \<open>The first resumption of a run that completes.\<close>

lemma coro_completes_first:
  assumes "Return r \<in> set (snd (coro_run resume s es))"
  obtains e es' s' out where "es = e # es'" "resume s e = (s', out)"
    "out = Return r \<or> (\<exists>op. out = Yield op) \<and> Return r \<in> set (snd (coro_run resume s' es'))"
proof (cases es)
  case (Cons e es')
  obtain s' out where "resume s e = (s', out)"
    by (cases "resume s e")
  with assms Cons show thesis
    by (intro that [of e es' s' out]) (cases out; auto)+
qed (use assms in simp)

text \<open>The outputs from a resumption on.\<close>

definition coro_from :: "('s \<Rightarrow> 'ev \<Rightarrow> 's \<times> ('op, 'r) out) \<Rightarrow> 's \<times> ('op, 'r) out \<Rightarrow> 'ev list \<Rightarrow> ('op, 'r) out list" where
  "coro_from resume step es = (case step of (s, Yield op) \<Rightarrow> Yield op # snd (coro_run resume s es) | (s, out) \<Rightarrow> [out])"

lemma coro_run_from: "snd (coro_run resume s (e # es)) = coro_from resume (resume s e) es"
  by (auto simp: coro_from_def split: prod.split out.split)

lemma coro_from_simps [simp]:
  "coro_from resume (s, Yield op) es = Yield op # snd (coro_run resume s es)"
  "coro_from resume (s, Return r) es = [Return r]"
  "coro_from resume (s, Mismatch) es = [Mismatch]"
  by (simp_all add: coro_from_def)

text \<open>Running a coroutine in two stretches.\<close>

lemma coro_run_append:
  "coro_run resume s es = (s', map Yield ops) \<Longrightarrow> length ops = length es \<Longrightarrow>
   coro_run resume s (es @ es') = apsnd ((@) (map Yield ops)) (coro_run resume s' es')"
proof (induction es arbitrary: s ops)
  case (Cons e es)
  obtain t out where r: "resume s e = (t, out)"
    by (cases "resume s e")
  from Cons.prems(2) obtain op ops' where ops: "ops = op # ops'" "length ops' = length es"
    by (cases ops) auto
  with Cons.prems(1) r have "out = Yield op" "coro_run resume t es = (s', map Yield ops')"
    by (cases out; auto simp: apsnd_def map_prod_def split: prod.splits)+
  with Cons.IH [of t ops'] r ops show ?case
    by (cases "coro_run resume s' es'") simp
qed (simp add: apsnd_def map_prod_def split: prod.split)

text \<open>One more resumption of a coroutine that has only yielded so far.\<close>

lemma all_yields: "list_all yields outs \<Longrightarrow> \<exists>ops. outs = map Yield ops"
proof (induction outs)
  case (Cons out outs)
  then obtain op ops where "out = Yield op" "outs = map Yield ops"
    by (cases out) auto
  then show ?case
    by (metis list.simps(9))
qed simp

lemma coro_run_snoc:
  assumes "coro_run resume s es = (c, outs)" "list_all yields outs" "length outs = length es"
  shows "coro_run resume s (es @ [e]) = apsnd (\<lambda>out. outs @ [out]) (resume c e)"
proof -
  obtain ops where ops: "outs = map Yield ops"
    using all_yields [OF assms(2)] by blast
  obtain c' out where "resume c e = (c', out)"
    by (cases "resume c e")
  then have "coro_run resume c [e] = (c', [out])"
    by (cases out) simp_all
  with coro_run_append [of resume s es c ops "[e]"] assms ops \<open>resume c e = (c', out)\<close> show ?thesis
    by simp
qed

text \<open>
  Coroutines that pass data on: what a resumption puts out is, under an invariant of the state,
  what its event brought in, so over a run the data written is the data read, in order.
\<close>

locale coro_copy =
  fixes resume :: "'s \<Rightarrow> 'ev \<Rightarrow> 's \<times> ('op, 'r) out"
    and inv :: "'s \<Rightarrow> bool"
    and ev_data :: "'ev \<Rightarrow> 'x list"
    and out_data :: "('op, 'r) out \<Rightarrow> 'x list"
  assumes resume_copies: "inv s \<Longrightarrow> resume s e = (s', out) \<Longrightarrow> out \<noteq> Mismatch \<Longrightarrow> inv s' \<and> out_data out = ev_data e"
begin

lemma run_copies:
  "inv s \<Longrightarrow> Mismatch \<notin> set (snd (coro_run resume s es)) \<Longrightarrow>
   concat (map out_data (snd (coro_run resume s es))) =
   concat (map ev_data (take (length (snd (coro_run resume s es))) es))"
proof (induction es arbitrary: s)
  case (Cons e es)
  obtain s' out where r: "resume s e = (s', out)"
    by (cases "resume s e")
  with Cons resume_copies [of s e s' out] show ?case
    by (cases out) simp_all
qed simp

end

text \<open>What relates every output to the event that led to it.\<close>

locale coro_rel =
  fixes resume :: "'s \<Rightarrow> 'ev \<Rightarrow> 's \<times> ('op, 'r) out"
    and rel :: "'ev \<Rightarrow> ('op, 'r) out \<Rightarrow> bool"
  assumes resume_rel: "resume s e = (s', out) \<Longrightarrow> rel e out"
begin

lemma run_rel:
  "list_all2 rel (take (length (snd (coro_run resume s es))) es) (snd (coro_run resume s es))"
proof (induction es arbitrary: s)
  case (Cons e es)
  obtain s' out where r: "resume s e = (s', out)"
    by (cases "resume s e")
  with Cons resume_rel [OF r] show ?case
    by (cases out) simp_all
qed simp

end

text \<open>An invariant of the state at every resumption, and what holds when the coroutine completes.\<close>

locale coro_final =
  fixes resume :: "'s \<Rightarrow> 'ev \<Rightarrow> 's \<times> ('op, 'r) out"
    and inv :: "'s \<Rightarrow> bool"
    and fin :: "'s \<Rightarrow> 'r \<Rightarrow> bool"
  assumes resume_yield: "inv s \<Longrightarrow> resume s e = (s', Yield op) \<Longrightarrow> inv s'"
    and resume_return: "inv s \<Longrightarrow> resume s e = (s', Return r) \<Longrightarrow> fin s' r"
begin

lemma run_final: "inv s \<Longrightarrow> coro_run resume s es = (s', outs) \<Longrightarrow> Return r \<in> set outs \<Longrightarrow> fin s' r"
proof (induction es arbitrary: s outs)
  case (Cons e es)
  obtain t out where t: "resume s e = (t, out)"
    by (cases "resume s e")
  show ?case
  proof (cases out)
    case (Yield op)
    then obtain outs' where "coro_run resume t es = (s', outs')" "outs = Yield op # outs'"
      using Cons.prems(2) t by (cases "coro_run resume t es") auto
    with Cons.IH [of t outs'] Cons.prems resume_yield [of s e t op] t Yield show ?thesis
      by auto
  qed (use Cons.prems t resume_return [of s e t] in auto)
qed simp

end

end
