(* ===== verification/Certify.thy ===== *)
theory Certify
  imports Coro "HOL-Library.Word"
begin

unbundle bit_operations_syntax

text \<open>
  \<^verbatim>\<open>src/utility.cpp\<close> and \<^verbatim>\<open>include/foxy/utility.hpp\<close>: server name indication and host name
  verification on an SSL object, and the verification callback. OpenSSL is not part of the
  program: an SSL object is its configuration, and the calls that can fail take their result
  from a parameter.
\<close>

type_synonym u32w = "32 word"

record ssl =
  ssl_ctx_id :: nat
  ssl_sni :: "string option"
  ssl_hostflags :: u32w
  ssl_host :: "string option"

definition ssl_new :: "nat \<Rightarrow> ssl" where
  "ssl_new ctx = \<lparr>ssl_ctx_id = ctx, ssl_sni = None, ssl_hostflags = 0, ssl_host = None\<rparr>"

text \<open>
  The OpenSSL calls: \<open>SSL_set_tlsext_host_name\<close>, which takes a C string,
  \<open>X509_VERIFY_PARAM_set1_host\<close>, which takes a pointer and a length (both with the new object and
  whether they succeeded), and \<open>ERR_get_error\<close> after the call that left the object so: 0 when
  no error is queued.
\<close>

record openssl =
  set_tlsext_host_name :: "string \<Rightarrow> ssl \<Rightarrow> ssl \<times> bool"
  set1_host :: "string \<Rightarrow> ssl \<Rightarrow> ssl \<times> bool"
  get_error :: "ssl \<Rightarrow> int"

text \<open>\<open>std::string::c_str\<close> read as a C string: what comes before the first null character.\<close>

definition c_str :: "string \<Rightarrow> string" where
  "c_str h = takeWhile (\<lambda>c. c \<noteq> CHR 0x00) h"

definition no_partial_wildcards :: u32w where
  "no_partial_wildcards = 4"

definition ssl_error :: "openssl \<Rightarrow> ssl \<Rightarrow> error_code" where
  "ssl_error api s = \<lparr>ec_value = get_error api s, ec_category = Ssl_category\<rparr>"

definition set_sni_hostname_ec :: "openssl \<Rightarrow> string \<Rightarrow> ssl \<Rightarrow> ssl \<times> error_code" where
  "set_sni_hostname_ec api hostname s =
     (case set_tlsext_host_name api (c_str hostname) s of
        (s', ok) \<Rightarrow> (s', if \<not> ok then ssl_error api s' else no_error))"

text \<open>The overload without an error code throws when the code is set.\<close>

definition set_sni_hostname :: "openssl \<Rightarrow> string \<Rightarrow> ssl \<Rightarrow> ssl \<times> (error_code + unit)" where
  "set_sni_hostname api hostname s =
     (case set_tlsext_host_name api (c_str hostname) s of
        (s', ok) \<Rightarrow>
          let ec = (if \<not> ok then ssl_error api s' else no_error)
          in (s', if ec_failed ec then Inl ec else Inr ()))"

definition set_server_hostname_ec :: "openssl \<Rightarrow> string \<Rightarrow> u32w \<Rightarrow> ssl \<Rightarrow> ssl \<times> error_code" where
  "set_server_hostname_ec api hostname flags s =
     (let s = s\<lparr>ssl_hostflags := flags OR no_partial_wildcards\<rparr>
      in case set1_host api hostname s of
           (s', ok) \<Rightarrow> (s', if \<not> ok then ssl_error api s' else no_error))"

definition set_server_hostname :: "openssl \<Rightarrow> string \<Rightarrow> u32w \<Rightarrow> ssl \<Rightarrow> ssl \<times> (error_code + unit)" where
  "set_server_hostname api hostname flags s =
     (let s = s\<lparr>ssl_hostflags := flags OR no_partial_wildcards\<rparr>
      in case set1_host api hostname s of
           (s', ok) \<Rightarrow>
             let ec = (if \<not> ok then ssl_error api s' else no_error)
             in (s', if ec_failed ec then Inl ec else Inr ()))"

text \<open>The callback: a negative result of \<open>X509_verify_cert\<close> is an internal failure.\<close>

definition verify_server_certificates :: "int \<Rightarrow> int" where
  "verify_server_certificates res = (if res < 0 then 0 else res)"

text \<open>An SSL context, as far as the program configures it.\<close>

record ssl_context =
  sc_verify_callback :: "(int \<Rightarrow> int) option"
  sc_verify_mode :: u32w

definition verify_peer :: u32w where
  "verify_peer = 1"

definition verify_fail_if_no_peer_cert :: u32w where
  "verify_fail_if_no_peer_cert = 2"

definition enable_https_verification :: "ssl_context \<Rightarrow> ssl_context" where
  "enable_https_verification ctx = ctx\<lparr>sc_verify_callback := Some verify_server_certificates\<rparr>"

definition make_ssl_ctx :: "ssl_context \<Rightarrow> ssl_context" where
  "make_ssl_ctx ctx =
     (enable_https_verification ctx)\<lparr>sc_verify_mode := verify_peer OR verify_fail_if_no_peer_cert\<rparr>"

subsection \<open>Facts\<close>

text \<open>
  What the documentation of OpenSSL says of a successful call with a name that is not empty and
  has no null character: an empty name clears the list of names to check. Nothing says that a
  failed call queues an error.
\<close>

locale openssl_lib =
  fixes api :: openssl
  assumes sni_set: "h \<noteq> [] \<Longrightarrow> CHR 0x00 \<notin> set h \<Longrightarrow> set_tlsext_host_name api h s = (s', True) \<Longrightarrow>
      s' = s\<lparr>ssl_sni := Some h\<rparr>"
    and host_set: "h \<noteq> [] \<Longrightarrow> CHR 0x00 \<notin> set h \<Longrightarrow> set1_host api h s = (s', True) \<Longrightarrow>
      s' = s\<lparr>ssl_host := Some h\<rparr>"

text \<open>The calls of both names in turn: one of them fails and leaves no error behind.\<close>

definition unreported_failure :: "openssl \<Rightarrow> string \<Rightarrow> ssl \<Rightarrow> bool" where
  "unreported_failure api host ssl =
     (let (ssl1, ok1) = set_tlsext_host_name api host ssl;
          (ssl2, ok2) = set1_host api host (ssl1\<lparr>ssl_hostflags := no_partial_wildcards\<rparr>)
      in \<not> ok1 \<and> get_error api ssl1 = 0 \<or> \<not> ok2 \<and> get_error api ssl2 = 0)"

lemma c_str_id [simp]: "CHR 0x00 \<notin> set h \<Longrightarrow> c_str h = h"
  by (simp add: c_str_def takeWhile_eq_all_conv) metis

lemma ssl_error_failed [simp]: "ec_failed (ssl_error api s) \<longleftrightarrow> get_error api s \<noteq> 0"
  by (simp add: ssl_error_def ec_failed_def)

context openssl_lib
begin

lemma sni_ok: "h \<noteq> [] \<Longrightarrow> CHR 0x00 \<notin> set h \<Longrightarrow> set_sni_hostname api h s = (s', Inr ()) \<Longrightarrow>
  s' = fst (set_tlsext_host_name api h s) \<and>
  (s' = s\<lparr>ssl_sni := Some h\<rparr> \<or> \<not> snd (set_tlsext_host_name api h s) \<and> get_error api s' = 0)"
  using sni_set by (auto simp: set_sni_hostname_def Let_def split: prod.splits if_splits)

lemma host_ok: "h \<noteq> [] \<Longrightarrow> CHR 0x00 \<notin> set h \<Longrightarrow> set_server_hostname api h flags s = (s', Inr ()) \<Longrightarrow>
  s' = s\<lparr>ssl_hostflags := flags OR no_partial_wildcards, ssl_host := Some h\<rparr> \<or>
  \<not> snd (set1_host api h (s\<lparr>ssl_hostflags := flags OR no_partial_wildcards\<rparr>)) \<and>
  s' = fst (set1_host api h (s\<lparr>ssl_hostflags := flags OR no_partial_wildcards\<rparr>)) \<and> get_error api s' = 0"
  using host_set by (auto simp: set_server_hostname_def Let_def split: prod.splits if_splits)

end

definition openssl_ref :: openssl where
  "openssl_ref = \<lparr>set_tlsext_host_name = (\<lambda>h s. (s\<lparr>ssl_sni := Some h\<rparr>, True)),
     set1_host = (\<lambda>h s. (s\<lparr>ssl_host := (if h = [] then None else Some h)\<rparr>, True)), get_error = (\<lambda>s. 0)\<rparr>"

interpretation ossl: openssl_lib openssl_ref
  by unfold_locales (auto simp: openssl_ref_def)

text \<open>A library that refuses a host name to verify and queues no error.\<close>

definition openssl_mute :: openssl where
  "openssl_mute = openssl_ref\<lparr>set1_host := (\<lambda>h s. (s, False))\<rparr>"

interpretation mute: openssl_lib openssl_mute
  by unfold_locales (auto simp: openssl_ref_def openssl_mute_def)

end
