(* ===== verification/Session.thy ===== *)
theory Session
  imports Certify
begin

text \<open>
  Streams and sessions: \<^verbatim>\<open>include/foxy/multi_stream.hpp\<close>, \<^verbatim>\<open>session_opts.hpp\<close>,
  \<^verbatim>\<open>session.hpp\<close>, \<^verbatim>\<open>impl/session.impl.hpp\<close>, \<^verbatim>\<open>impl/session/\<close>, \<^verbatim>\<open>impl/client_session/\<close>,
  \<^verbatim>\<open>impl/server_session/\<close> and \<^verbatim>\<open>detail/close_stream.hpp\<close>. Every asynchronous operation of a
  session is the coroutine given here, run under the timer of \<open>Timed_Op\<close>. Sockets belong to
  Asio: \<open>'k\<close> is their type and \<open>socket_api\<close> their synchronous calls.
\<close>

datatype shutdown_type = shutdown_receive | shutdown_send | shutdown_both

record 'k socket_api =
  sk_shutdown :: "shutdown_type \<Rightarrow> 'k \<Rightarrow> 'k \<times> error_code"
  sk_close :: "'k \<Rightarrow> 'k \<times> error_code"
  sk_is_open :: "'k \<Rightarrow> bool"

locale socket_lib =
  fixes api :: "'k socket_api"
  assumes close_closes: "\<not> sk_is_open api (fst (sk_close api k))"
    and shutdown_keeps: "sk_is_open api (fst (sk_shutdown api how k)) = sk_is_open api k"

text \<open>A socket that is open or not, and whose calls succeed.\<close>

definition socket_ref :: "bool socket_api" where
  "socket_ref = \<lparr>sk_shutdown = (\<lambda>how k. (k, no_error)), sk_close = (\<lambda>k. (False, no_error)), sk_is_open = (\<lambda>k. k)\<rparr>"

interpretation sock: socket_lib socket_ref
  by unfold_locales (simp_all add: socket_ref_def)

subsection \<open>Closing a stream\<close>

text \<open>
  The two overloads of \<open>close\<close>: with a stream whose \<open>close()\<close> may throw, the exception is
  swallowed; with one whose \<open>close(ec)\<close> reports an error, the error is dropped.
\<close>

definition close_throw :: "('k \<Rightarrow> 'k \<times> (error_code + unit)) \<Rightarrow> 'k \<Rightarrow> 'k" where
  "close_throw close_fn stream = (case close_fn stream of (k, Inl _) \<Rightarrow> k | (k, Inr _) \<Rightarrow> k)"

definition close_nothrow :: "'k socket_api \<Rightarrow> 'k \<Rightarrow> 'k" where
  "close_nothrow api stream = fst (sk_close api stream)"

text \<open>
  The traits of \<^verbatim>\<open>type_traits.hpp\<close> look at the members of a stream type, and the overload set
  admits the one or the other \<open>close\<close> for it; with no admissible overload, or with two, the
  call would not compile.
\<close>

record stream_members =
  sm_close :: bool              \<comment> \<open>\<open>close()\<close> is well-formed\<close>
  sm_close_ec :: bool           \<comment> \<open>\<open>close(ec)\<close> is well-formed\<close>

definition is_closable_stream_throw :: "stream_members \<Rightarrow> bool" where
  "is_closable_stream_throw t = sm_close t"

definition is_closable_stream_nothrow :: "stream_members \<Rightarrow> bool" where
  "is_closable_stream_nothrow t = sm_close_ec t"

datatype close_overload = Close_throw | Close_nothrow

definition close_overloads :: "stream_members \<Rightarrow> close_overload list" where
  "close_overloads t =
     (if is_closable_stream_throw t \<and> \<not> is_closable_stream_nothrow t then [Close_throw] else []) @
     (if is_closable_stream_nothrow t then [Close_nothrow] else [])"

text \<open>A stream that can be closed at all is closed by exactly one of them, without an exception if possible.\<close>

lemma close_overloads_one:
  "close_overloads t = (if sm_close_ec t then [Close_nothrow] else if sm_close t then [Close_throw] else [])"
  by (simp add: close_overloads_def is_closable_stream_throw_def is_closable_stream_nothrow_def)

subsection \<open>Plain and encrypted streams\<close>

datatype 'k multi_stream = Plain 'k | Ssl 'k ssl

definition ms_plain_of :: "'k \<Rightarrow> 'k multi_stream" where
  "ms_plain_of arg = Plain arg"

definition ms_ssl_of :: "'k \<Rightarrow> nat \<Rightarrow> 'k multi_stream" where
  "ms_ssl_of arg ctx = Ssl arg (ssl_new ctx)"

fun ms_is_ssl :: "'k multi_stream \<Rightarrow> bool" where
  "ms_is_ssl (Plain k) = False"
| "ms_is_ssl (Ssl k s) = True"

fun ms_plain :: "'k multi_stream \<Rightarrow> 'k" where
  "ms_plain (Plain k) = k"
| "ms_plain (Ssl k s) = k"

text \<open>\<open>ssl()\<close> is \<open>noexcept\<close>: on a plain stream the failed access terminates the program.\<close>

fun ms_ssl :: "'k multi_stream \<Rightarrow> ssl option" where
  "ms_ssl (Plain k) = None"
| "ms_ssl (Ssl k s) = Some s"

definition ms_upgrade :: "nat \<Rightarrow> 'k multi_stream \<Rightarrow> 'k multi_stream" where
  "ms_upgrade ctx ms = (let socket = ms_plain ms in Ssl socket (ssl_new ctx))"

fun ms_map_plain :: "('k \<Rightarrow> 'k) \<Rightarrow> 'k multi_stream \<Rightarrow> 'k multi_stream" where
  "ms_map_plain f (Plain k) = Plain (f k)"
| "ms_map_plain f (Ssl k s) = Ssl (f k) s"

text \<open>
  Reading and writing go to the alternative that the stream holds; the operations of the socket
  and of the TLS layer are arguments.
\<close>

definition ms_async_read_some :: "('k \<Rightarrow> nat \<Rightarrow> 'x) \<Rightarrow> ('k \<Rightarrow> ssl \<Rightarrow> nat \<Rightarrow> 'x) \<Rightarrow> 'k multi_stream \<Rightarrow> nat \<Rightarrow> 'x" where
  "ms_async_read_some plain_read ssl_read ms n = (case ms of Plain k \<Rightarrow> plain_read k n | Ssl k s \<Rightarrow> ssl_read k s n)"

definition ms_async_write_some :: "('k \<Rightarrow> string \<Rightarrow> 'x) \<Rightarrow> ('k \<Rightarrow> ssl \<Rightarrow> string \<Rightarrow> 'x) \<Rightarrow> 'k multi_stream \<Rightarrow> string \<Rightarrow> 'x" where
  "ms_async_write_some plain_write ssl_write ms data = (case ms of Plain k \<Rightarrow> plain_write k data | Ssl k s \<Rightarrow> ssl_write k s data)"

text \<open>After an upgrade nothing is written to the socket in the clear.\<close>

lemma upgraded_io:
  "ms_async_write_some plain_write ssl_write (ms_upgrade ctx ms) data = ssl_write (ms_plain ms) (ssl_new ctx) data"
  "ms_async_read_some plain_read ssl_read (ms_upgrade ctx ms) n = ssl_read (ms_plain ms) (ssl_new ctx) n"
  by (simp_all add: ms_async_write_some_def ms_async_read_some_def ms_upgrade_def)

subsection \<open>Sessions\<close>

text \<open>An SSL context is known by a number; the timeout is in nanoseconds.\<close>

record session_opts =
  so_ssl_ctx :: "nat option"
  so_timeout :: nat
  so_verify_peer_cert :: bool

definition default_opts :: session_opts where
  "default_opts = \<lparr>so_ssl_ctx = None, so_timeout = 1000000000, so_verify_peer_cert = True\<rparr>"

record 'k session =
  se_opts :: session_opts
  se_stream :: "'k multi_stream"
  se_buffer :: string

definition session_of_executor :: "'k \<Rightarrow> session_opts \<Rightarrow> 'k session" where
  "session_of_executor socket opts =
     \<lparr>se_opts = opts,
      se_stream = (case so_ssl_ctx opts of Some ctx \<Rightarrow> ms_ssl_of socket ctx | None \<Rightarrow> ms_plain_of socket),
      se_buffer = []\<rparr>"

definition session_of_stream :: "'k multi_stream \<Rightarrow> session_opts \<Rightarrow> 'k session" where
  "session_of_stream stream opts = \<lparr>se_opts = opts, se_stream = stream, se_buffer = []\<rparr>"

text \<open>The two kinds of session hand the arguments of their constructors on.\<close>

definition client_session_new :: "'k \<Rightarrow> session_opts \<Rightarrow> 'k session" where
  [simp]: "client_session_new socket opts = session_of_executor socket opts"

definition server_session_new :: "'k multi_stream \<Rightarrow> session_opts \<Rightarrow> 'k session" where
  [simp]: "server_session_new stream opts = session_of_stream stream opts"

text \<open>The asynchronous operations that a session starts, with the data that matters.\<close>

datatype net_op =
    Http_read_header | Http_read | Http_write_header | Http_write
  | Resolve string string | Tcp_connect "nat list" | Tls_client_handshake
  | Tls_server_handshake "string option" | Tls_shutdown | Read_some nat | Detect_ssl

text \<open>The first resumption of a coroutine passes no result.\<close>

datatype net_ev = Start | Done error_code nat | Resolved error_code "nat list" | Connected error_code nat
  | Detected error_code bool

datatype pc = At_start | At_1 | At_2 | At_3

text \<open>
  The four operations of \<^verbatim>\<open>impl/session/\<close> have the same coroutine around one Beast operation.
\<close>

fun session_io :: "net_op \<Rightarrow> pc \<Rightarrow> net_ev \<Rightarrow> pc \<times> (net_op, error_code \<times> nat) out" where
  "session_io io At_start ev = (At_1, Yield io)"
| "session_io io pc (Done ec bytes_transferred) = (pc, Return (ec, bytes_transferred))"
| "session_io io pc ev = (pc, Mismatch)"

definition async_read_header :: "pc \<Rightarrow> net_ev \<Rightarrow> pc \<times> (net_op, error_code \<times> nat) out" where
  "async_read_header = session_io Http_read_header"

definition async_read :: "pc \<Rightarrow> net_ev \<Rightarrow> pc \<times> (net_op, error_code \<times> nat) out" where
  "async_read = session_io Http_read"

definition async_write_header :: "pc \<Rightarrow> net_ev \<Rightarrow> pc \<times> (net_op, error_code \<times> nat) out" where
  "async_write_header = session_io Http_write_header"

definition async_write :: "pc \<Rightarrow> net_ev \<Rightarrow> pc \<times> (net_op, error_code \<times> nat) out" where
  "async_write = session_io Http_write"

subsection \<open>Client sessions\<close>

text \<open>\<open>async_request\<close>: write the request, then read the response.\<close>

fun async_request :: "pc \<Rightarrow> net_ev \<Rightarrow> pc \<times> (net_op, error_code) out" where
  "async_request At_start ev = (At_1, Yield Http_write)"
| "async_request At_1 (Done ec n) = (if ec_failed ec then (At_1, Return ec) else (At_2, Yield Http_read))"
| "async_request At_2 (Done ec n) = (At_2, Return ec)"
| "async_request pc ev = (pc, Mismatch)"

text \<open>The end of \<open>async_shutdown\<close>: the last error code is the one of \<open>close\<close>.\<close>

definition shutdown_and_close :: "'k socket_api \<Rightarrow> shutdown_type \<Rightarrow> 'k session \<Rightarrow> 'k session \<times> error_code" where
  "shutdown_and_close api how s =
     (let k = fst (sk_shutdown api how (ms_plain (se_stream s)));
          (k, ec) = sk_close api k
      in (s\<lparr>se_stream := ms_map_plain (\<lambda>_. k) (se_stream s)\<rparr>, ec))"

fun client_async_shutdown ::
  "'k socket_api \<Rightarrow> pc \<times> 'k session \<Rightarrow> net_ev \<Rightarrow> (pc \<times> 'k session) \<times> (net_op, error_code) out" where
  "client_async_shutdown api (At_start, s) ev =
     (if ms_is_ssl (se_stream s) then ((At_1, s), Yield Tls_shutdown)
      else (case shutdown_and_close api shutdown_both s of (s, ec) \<Rightarrow> ((At_1, s), Return ec)))"
| "client_async_shutdown api (At_1, s) (Done ec n) =
     (let ec = (if ec = stream_truncated then no_error else ec)
      in if ec_failed ec then ((At_1, s), Return ec)
      else (case shutdown_and_close api shutdown_both s of (s, ec) \<Rightarrow> ((At_1, s), Return ec)))"
| "client_async_shutdown api (pc, s) ev = ((pc, s), Mismatch)"

text \<open>
  \<open>connect_op\<close>: resolve, connect, and on an encrypted stream set the host names (when the peer
  is to be verified; both calls throw on failure) and shake hands.
\<close>

record 'k connect_st =
  co_pc :: pc
  co_session :: "'k session"
  co_host :: string
  co_service :: string
  co_endpoints :: "nat list"
  co_endpoint :: nat

definition connect_start :: "'k session \<Rightarrow> string \<Rightarrow> string \<Rightarrow> 'k connect_st" where
  "connect_start s host service =
     \<lparr>co_pc = At_start, co_session = s, co_host = host, co_service = service, co_endpoints = [], co_endpoint = 0\<rparr>"

definition set_hostnames :: "openssl \<Rightarrow> string \<Rightarrow> ssl \<Rightarrow> ssl \<times> (error_code + unit)" where
  "set_hostnames api host ssl =
     (case set_sni_hostname api host ssl of
        (ssl, Inl ec) \<Rightarrow> (ssl, Inl ec)
      | (ssl, Inr _) \<Rightarrow> set_server_hostname api host 0 ssl)"

definition connect_tls :: "openssl \<Rightarrow> error_code \<Rightarrow> 'k connect_st \<Rightarrow> 'k connect_st \<times> (net_op, error_code) out" where
  "connect_tls api ec c =
     (case se_stream (co_session c) of
        Plain k \<Rightarrow> (c, Return ec)
      | Ssl k ssl \<Rightarrow>
          if so_verify_peer_cert (se_opts (co_session c)) then
            (case set_hostnames api (co_host c) ssl of
               (ssl, Inl err) \<Rightarrow> (c\<lparr>co_session := (co_session c)\<lparr>se_stream := Ssl k ssl\<rparr>\<rparr>, Throw err)
             | (ssl, Inr _) \<Rightarrow>
                 (c\<lparr>co_pc := At_3, co_session := (co_session c)\<lparr>se_stream := Ssl k ssl\<rparr>\<rparr>,
                  Yield Tls_client_handshake))
          else (c\<lparr>co_pc := At_3\<rparr>, Yield Tls_client_handshake))"

definition connect_op :: "openssl \<Rightarrow> 'k connect_st \<Rightarrow> net_ev \<Rightarrow> 'k connect_st \<times> (net_op, error_code) out" where
  "connect_op api c ev =
     (case (co_pc c, ev) of
        (At_start, _) \<Rightarrow> (c\<lparr>co_pc := At_1\<rparr>, Yield (Resolve (co_host c) (co_service c)))
      | (At_1, Resolved ec results) \<Rightarrow>
          let c = c\<lparr>co_endpoints := results\<rparr>
          in if ec_failed ec then (c, Return ec)
             else (c\<lparr>co_pc := At_2\<rparr>, Yield (Tcp_connect (co_endpoints c)))
      | (At_2, Connected ec endpoint) \<Rightarrow>
          let c = c\<lparr>co_endpoint := endpoint\<rparr>
          in if ec_failed ec then (c, Return ec) else connect_tls api ec c
      | (At_3, Done ec _) \<Rightarrow> (c, Return ec)
      | _ \<Rightarrow> (c, Mismatch))"

subsection \<open>Server sessions\<close>

fun async_detect_ssl :: "pc \<Rightarrow> net_ev \<Rightarrow> pc \<times> (net_op, error_code \<times> bool) out" where
  "async_detect_ssl At_start ev = (At_1, Yield Detect_ssl)"
| "async_detect_ssl pc (Detected ec detected) = (pc, Return (ec, detected))"
| "async_detect_ssl pc ev = (pc, Mismatch)"

text \<open>
  \<open>async_handshake\<close>: upgrade a plain stream when there is a context, then shake hands, with
  what the buffer already holds if it is not empty.
\<close>

fun server_async_handshake ::
  "pc \<times> 'k session \<Rightarrow> net_ev \<Rightarrow> (pc \<times> 'k session) \<times> (net_op, error_code \<times> nat) out" where
  "server_async_handshake (At_start, s) ev =
     (let s = (case so_ssl_ctx (se_opts s) of
                 Some ctx \<Rightarrow> if \<not> ms_is_ssl (se_stream s)
                   then s\<lparr>se_stream := ms_upgrade ctx (se_stream s)\<rparr> else s
               | None \<Rightarrow> s)
      in case ms_ssl (se_stream s) of
           None \<Rightarrow> ((At_start, s), Terminate)
         | Some _ \<Rightarrow>
             if 0 < length (se_buffer s)
             then ((At_1, s), Yield (Tls_server_handshake (Some (se_buffer s))))
             else ((At_2, s), Yield (Tls_server_handshake None)))"
| "server_async_handshake (At_1, s) (Done ec bytes_transferred) =
     (if ec_failed ec then ((At_1, s), Return (ec, 0))
      else ((At_1, s\<lparr>se_buffer := drop bytes_transferred (se_buffer s)\<rparr>), Return (no_error, bytes_transferred)))"
| "server_async_handshake (At_2, s) (Done ec bytes_transferred) =
     ((At_2, s), Return (if ec_failed ec then ec else no_error, 0))"
| "server_async_handshake (pc, s) ev = ((pc, s), Mismatch)"

text \<open>
  \<open>async_shutdown\<close> of a server: close the sending side, read once more, close the rest. The
  result of the TLS shutdown and of the read are dropped.
\<close>

definition server_half_close :: "'k socket_api \<Rightarrow> 'k session \<Rightarrow> (pc \<times> 'k session) \<times> (net_op, error_code) out" where
  "server_half_close api s =
     (let k = fst (sk_shutdown api shutdown_send (ms_plain (se_stream s)))
      in ((At_2, s\<lparr>se_stream := ms_map_plain (\<lambda>_. k) (se_stream s)\<rparr>), Yield (Read_some 1024)))"

fun server_async_shutdown ::
  "'k socket_api \<Rightarrow> pc \<times> 'k session \<Rightarrow> net_ev \<Rightarrow> (pc \<times> 'k session) \<times> (net_op, error_code) out" where
  "server_async_shutdown api (At_start, s) ev =
     (if ms_is_ssl (se_stream s) then ((At_1, s), Yield Tls_shutdown) else server_half_close api s)"
| "server_async_shutdown api (At_1, s) (Done ec n) = server_half_close api s"
| "server_async_shutdown api (At_2, s) (Done ec n) =
     (case shutdown_and_close api shutdown_receive s of (s, ec) \<Rightarrow> ((At_2, s), Return ec))"
| "server_async_shutdown api (pc, s) ev = ((pc, s), Mismatch)"

end
