(* ===== verification/Session_Properties.thy ===== *)
theory Session_Properties
  imports Session
begin

text \<open>
  The properties of the session operations: what a client checks before it talks to a server,
  and what is left of a socket after a shutdown.
\<close>

subsection \<open>Connecting\<close>

lemma connect_at_3:
  assumes "co_pc c = At_3"
  shows "coro_run (connect_op api) c es =
    (c, case es of [] \<Rightarrow> [] | Done ec n # _ \<Rightarrow> [Return ec] | _ \<Rightarrow> [Mismatch])"
  using assms by (auto simp: connect_op_def split: list.split net_ev.split)

text \<open>The host names are on the SSL object when the handshake is started.\<close>

definition names_set :: "string \<Rightarrow> 'k session \<Rightarrow> bool" where
  "names_set host s \<longleftrightarrow> (\<exists>ssl. ms_ssl (se_stream s) = Some ssl \<and> ssl_sni ssl = Some host \<and>
     ssl_host ssl = Some host \<and> ssl_hostflags ssl = no_partial_wildcards)"

definition host_text :: "string \<Rightarrow> bool" where
  "host_text host \<longleftrightarrow> host \<noteq> [] \<and> CHR 0x00 \<notin> set host"

lemma set_hostnames_ok:
  assumes "openssl_lib api" "host_text host" "set_hostnames api host ssl = (ssl', Inr ())"
  shows "ssl_sni ssl' = Some host \<and> ssl_host ssl' = Some host \<and> ssl_hostflags ssl' = no_partial_wildcards \<or>
    unreported_failure api host ssl"
proof -
  from assms(3) obtain ssl1 where ssl1: "set_sni_hostname api host ssl = (ssl1, Inr ())"
    "set_server_hostname api host 0 ssl1 = (ssl', Inr ())"
    by (auto simp: set_hostnames_def split: prod.splits sum.splits unit.splits)
  show ?thesis
    using openssl_lib.sni_ok [OF assms(1) _ _ ssl1(1)] openssl_lib.host_ok [OF assms(1) _ _ ssl1(2)] assms(2)
    by (auto simp: host_text_def unreported_failure_def split_beta Let_def)
qed

lemma connect_tls_handshake:
  assumes "openssl_lib api" "host_text (co_host c)" "ms_ssl (se_stream (co_session c)) = Some ssl" "connect_tls api ec c = (c', Yield op)"
  shows "op = Tls_client_handshake \<and> co_pc c' = At_3 \<and> ms_is_ssl (se_stream (co_session c)) \<and>
    se_opts (co_session c') = se_opts (co_session c) \<and>
    (so_verify_peer_cert (se_opts (co_session c)) \<longrightarrow>
       names_set (co_host c) (co_session c') \<or> unreported_failure api (co_host c) ssl)"
  using assms(3,4)
  by (auto simp: connect_tls_def names_set_def dest: set_hostnames_ok [OF assms(1,2)] split: multi_stream.splits if_splits prod.splits sum.splits unit.splits)


lemma connect_tls_returns:
  "connect_tls api ec c = (c', Return r) \<Longrightarrow> \<not> ms_is_ssl (se_stream (co_session c)) \<and> r = ec"
  by (auto simp: connect_tls_def split: multi_stream.splits if_splits prod.splits sum.splits unit.splits)

lemma ms_ssl_is_ssl: "ms_ssl ms = Some ssl \<Longrightarrow> ms_is_ssl ms"
  by (cases ms) simp_all

lemma connect_at_2:
  assumes "openssl_lib api" "co_pc c = At_2" "coro_run (connect_op api) c es = (c', outs)"
    "host_text (co_host c)" "ms_ssl (se_stream (co_session c)) = Some ssl" "so_verify_peer_cert (se_opts (co_session c))"
  shows "(Yield op \<in> set outs \<longrightarrow> names_set (co_host c) (co_session c') \<or> unreported_failure api (co_host c) ssl) \<and>
    (Return ec \<in> set outs \<longrightarrow> \<not> ec_failed ec \<longrightarrow> outs = [Yield Tls_client_handshake, Return ec])"
proof (cases es)
  case (Cons e es')
  show ?thesis
  proof (cases "\<exists>err ep. e = Connected err ep \<and> \<not> ec_failed err")
    case True
    then obtain err ep where e: "e = Connected err ep" "\<not> ec_failed err"
      by auto
    obtain c2 out where tls: "connect_tls api err (c\<lparr>co_endpoint := ep\<rparr>) = (c2, out)"
      by (cases "connect_tls api err (c\<lparr>co_endpoint := ep\<rparr>)")
    show ?thesis
    proof (cases out)
      case (Yield x)
      with connect_tls_handshake [OF assms(1), of "c\<lparr>co_endpoint := ep\<rparr>" ssl err c2 x] tls assms(4-6)
      have "x = Tls_client_handshake" "co_pc c2 = At_3" "names_set (co_host c) (co_session c2) \<or> unreported_failure api (co_host c) ssl"
        by auto
      with Yield tls e Cons assms(2,3) show ?thesis
        by (auto simp: connect_op_def [of api c] connect_at_3 split: list.splits net_ev.splits)
    qed (use tls e Cons assms(2,3,5) connect_tls_returns [of api err "c\<lparr>co_endpoint := ep\<rparr>" c2] in
      \<open>auto simp: connect_op_def ms_ssl_is_ssl\<close>)
  next
    case False
    with Cons assms(2,3) show ?thesis
      by (auto simp: connect_op_def split: net_ev.splits if_splits)
  qed
qed (use assms(3) in simp)


lemma connect_at_1:
  assumes "openssl_lib api" "co_pc c = At_1" "coro_run (connect_op api) c es = (c', outs)"
    "host_text (co_host c)" "ms_ssl (se_stream (co_session c)) = Some ssl" "so_verify_peer_cert (se_opts (co_session c))"
  shows "(Yield Tls_client_handshake \<in> set outs \<longrightarrow> names_set (co_host c) (co_session c') \<or> unreported_failure api (co_host c) ssl) \<and>
    (Return ec \<in> set outs \<longrightarrow> \<not> ec_failed ec \<longrightarrow>
       (\<exists>eps. outs = [Yield (Tcp_connect eps), Yield Tls_client_handshake, Return ec]))"
proof (cases es)
  case (Cons e es')
  show ?thesis
  proof (cases "\<exists>err eps. e = Resolved err eps \<and> \<not> ec_failed err")
    case True
    then obtain err eps where e: "e = Resolved err eps" "\<not> ec_failed err"
      by auto
    let ?c = "c\<lparr>co_endpoints := eps, co_pc := At_2\<rparr>"
    obtain outs' where "coro_run (connect_op api) ?c es' = (c', outs')" "outs = Yield (Tcp_connect eps) # outs'"
      using assms(2,3) Cons e by (cases "coro_run (connect_op api) ?c es'") (auto simp: connect_op_def [of api c])
    with connect_at_2 [OF assms(1), of ?c es' c' outs' ssl Tls_client_handshake ec] assms(4-6) show ?thesis
      by auto
  next
    case False
    with Cons assms(2,3) show ?thesis
      by (auto simp: connect_op_def split: net_ev.splits if_splits)
  qed
qed (use assms(3) in simp)

lemma connect_first:
  "connect_op api (connect_start s host service) e =
     ((connect_start s host service)\<lparr>co_pc := At_1\<rparr>, Yield (Resolve host service))"
  by (simp add: connect_op_def connect_start_def)

lemma connect_next:
  "co_pc c = At_1 \<Longrightarrow> \<not> ec_failed ec \<Longrightarrow> connect_op api c (Resolved ec eps) =
     (c\<lparr>co_endpoints := eps, co_pc := At_2\<rparr>, Yield (Tcp_connect eps))"
  "co_pc c = At_2 \<Longrightarrow> \<not> ec_failed ec \<Longrightarrow> connect_op api c (Connected ec ep) = connect_tls api ec (c\<lparr>co_endpoint := ep\<rparr>)"
  "co_pc c = At_3 \<Longrightarrow> connect_op api c (Done ec n) = (c, Return ec)"
  by (simp_all add: connect_op_def)

text \<open>
  C12: a client session that is encrypted and told to verify its peer, asked for a host whose
  name is not empty and has no null character, starts the TLS handshake only with the server
  name indication and the host name to verify both set to that host, unless an OpenSSL call
  failed and queued no error; and it reports success only after resolving, connecting and the
  handshake.
\<close>

theorem connect_verified:
  assumes "openssl_lib api" "ms_ssl (se_stream s) = Some ssl" "so_verify_peer_cert (se_opts s)" "host_text host"
    and "coro_run (connect_op api) (connect_start s host service) evs = (c, outs)"
  shows "(Yield Tls_client_handshake \<in> set outs \<longrightarrow>
       names_set host (co_session c) \<or> unreported_failure api host ssl) \<and>
    (Return ec \<in> set outs \<longrightarrow> \<not> ec_failed ec \<longrightarrow>
       (\<exists>eps. outs = [Yield (Resolve host service), Yield (Tcp_connect eps), Yield Tls_client_handshake, Return ec]))"
proof (cases evs)
  case (Cons e es)
  let ?c = "(connect_start s host service)\<lparr>co_pc := At_1\<rparr>"
  obtain outs' where "coro_run (connect_op api) ?c es = (c, outs')" "outs = Yield (Resolve host service) # outs'"
    using assms(5) Cons by (cases "coro_run (connect_op api) ?c es") (auto simp: connect_first)
  with connect_at_1 [OF assms(1), of ?c es c outs' ssl ec] assms(2-4) show ?thesis
    by (auto simp: connect_start_def)
qed (use assms(5) in simp)

definition sample_session :: "bool session" where
  "sample_session = session_of_executor True (default_opts\<lparr>so_ssl_ctx := Some 0\<rparr>)"

lemma sample_session_facts:
  "ms_ssl (se_stream sample_session) = Some (ssl_new 0)" "so_verify_peer_cert (se_opts sample_session)" "host_text ''a.b''"
  by (simp_all add: sample_session_def session_of_executor_def default_opts_def ms_ssl_of_def host_text_def)

lemmas handshake_simps = connect_next connect_start_def sample_session_def session_of_executor_def
  default_opts_def ms_ssl_of_def connect_tls_def set_hostnames_def set_sni_hostname_def set_server_hostname_def Let_def

theorem connect_verified_witness:
  "names_set ''a.b'' (co_session (fst (coro_run (connect_op openssl_ref) (connect_start sample_session ''a.b'' ''https'')
     [Start, Resolved no_error [1], Connected no_error 1, Done no_error 0])))"
proof -
  let ?r = "coro_run (connect_op openssl_ref) (connect_start sample_session ''a.b'' ''https'')
     [Start, Resolved no_error [1], Connected no_error 1, Done no_error 0]"
  have "Yield Tls_client_handshake \<in> set (snd ?r)"
    by (simp add: connect_first connect_next) (simp add: handshake_simps openssl_ref_def)
  moreover have "\<not> unreported_failure openssl_ref ''a.b'' (ssl_new 0)"
    by (simp add: unreported_failure_def openssl_ref_def)
  ultimately show ?thesis
    using connect_verified [OF ossl.openssl_lib_axioms sample_session_facts, of "''https''" _ "fst ?r" "snd ?r"]
    by (metis prod.collapse)
qed

text \<open>
  A failure that queues no error goes unnoticed: the code takes the queued error for the result
  of the call, so the handshake starts with no host name to verify.
\<close>

lemma unreported_failure_unverified:
  "\<exists>c. coro_run (connect_op openssl_mute) (connect_start sample_session ''a.b'' ''https'')
      [Start, Resolved no_error [1], Connected no_error 1] =
      (c, [Yield (Resolve ''a.b'' ''https''), Yield (Tcp_connect [1]), Yield Tls_client_handshake]) \<and>
    (\<exists>ssl. ms_ssl (se_stream (co_session c)) = Some ssl \<and> ssl_host ssl = None)"
  by (simp add: connect_first connect_next)
     (simp add: handshake_simps openssl_ref_def openssl_mute_def ssl_new_def)

subsection \<open>Shutting down\<close>

lemma plain_map_plain [simp]: "ms_plain (ms_map_plain f ms) = f (ms_plain ms)"
  by (cases ms) simp_all

lemma close_closed:
  assumes "socket_lib api" "shutdown_and_close api how s = (s', ec)"
  shows "\<not> sk_is_open api (ms_plain (se_stream s'))"
  using assms(2) socket_lib.close_closes [OF assms(1), of "fst (sk_shutdown api how (ms_plain (se_stream s)))"]
  by (auto simp: shutdown_and_close_def Let_def split: prod.splits)

lemma server_at_2:
  assumes "socket_lib api" "coro_run (server_async_shutdown api) (At_2, t) es = ((pc, s'), outs)" "Return ec \<in> set outs"
  shows "\<not> sk_is_open api (ms_plain (se_stream s')) \<and> outs = [Return ec]"
proof (cases es)
  case (Cons e es')
  with assms show ?thesis
    by (cases e) (auto split: prod.splits dest: close_closed [OF assms(1)])
qed (use assms in simp)

lemma server_after_half_close:
  assumes "socket_lib api" "Return ec \<in> set outs"
    and "(case server_half_close api t of
       (st, Yield op) \<Rightarrow> apsnd ((#) (Yield op)) (coro_run (server_async_shutdown api) st es)
     | (st, out) \<Rightarrow> (st, [out])) = ((pc, s'), outs)"
  shows "\<not> sk_is_open api (ms_plain (se_stream s')) \<and> outs = [Yield (Read_some 1024), Return ec]"
proof -
  define t' where "t' = snd (fst (server_half_close api t))"
  have "server_half_close api t = ((At_2, t'), Yield (Read_some 1024))"
    by (simp add: server_half_close_def t'_def Let_def)
  then obtain outs' where "outs = Yield (Read_some 1024) # outs'"
    "coro_run (server_async_shutdown api) (At_2, t') es = ((pc, s'), outs')"
    using assms(3) by (cases "coro_run (server_async_shutdown api) (At_2, t') es") auto
  with server_at_2 [OF assms(1) this(2)] assms(2) show ?thesis
    by simp
qed

text \<open>
  Shutting down a server session closes its socket whatever the TLS shutdown, the last read
  and the half-closes report, in the order half-close, read, close.
\<close>

lemma server_shutdown_closes:
  assumes "socket_lib api"
    and "coro_run (server_async_shutdown api) (At_start, s) evs = ((pc, s'), outs)" and "Return ec \<in> set outs"
  shows "\<not> sk_is_open api (ms_plain (se_stream s')) \<and>
    outs = (if ms_is_ssl (se_stream s) then [Yield Tls_shutdown] else []) @ [Yield (Read_some 1024), Return ec]"
proof (cases "ms_is_ssl (se_stream s)")
  case False
  with assms obtain e es where "evs = e # es"
    by (cases evs) auto
  with False assms server_after_half_close [OF assms(1,3), where t = s and es = es] show ?thesis
    by simp
next
  case True
  with assms(2,3) obtain e f es where evs: "evs = e # f # es"
    by (cases evs; cases "tl evs") auto
  obtain err n where f: "f = Done err n"
    using assms(2,3) True evs by (cases f) auto
  obtain outs' where "outs = Yield Tls_shutdown # outs'"
    "coro_run (server_async_shutdown api) (At_1, s) (f # es) = ((pc, s'), outs')"
    using assms(2) True evs
    by (cases "coro_run (server_async_shutdown api) (At_1, s) (f # es)") (auto simp del: coro_run.simps(2) simp: coro_run.simps(2) [of _ _ e])
  with True f assms(3) server_after_half_close [OF assms(1), where outs = outs' and t = s and es = es] show ?thesis
    by simp
qed

lemma server_shutdown_closes_instance:
  "\<exists>pc s' outs. coro_run (server_async_shutdown socket_ref) (At_start, session_of_stream (Plain True) default_opts)
     [Start, Done asio_eof 0] = ((pc, s'), outs) \<and> ms_plain (se_stream s') = False"
proof -
  let ?s = "session_of_stream (Plain True) default_opts"
  let ?r = "coro_run (server_async_shutdown socket_ref) (At_start, ?s) [Start, Done asio_eof 0]"
  obtain pc s' outs where r: "?r = ((pc, s'), outs)"
    by (metis prod.collapse)
  have "snd ?r = [Yield (Read_some 1024), Return no_error]"
    by (simp add: session_of_stream_def server_half_close_def shutdown_and_close_def socket_ref_def)
  then have "Return no_error \<in> set outs"
    unfolding r by simp
  with server_shutdown_closes [OF sock.socket_lib_axioms r] have "\<not> ms_plain (se_stream s')"
    by (fastforce simp: socket_ref_def)
  with r show ?thesis
    by blast
qed

text \<open>
  Shutting down a client session reports the result of closing its socket, which is then
  closed; only when the TLS shutdown fails with anything but a truncated stream is the socket
  left as it was and the error of the TLS shutdown reported.
\<close>

lemma client_shutdown_outcome:
  assumes "socket_lib api"
    and "coro_run (client_async_shutdown api) (At_start, s) evs = ((pc, s'), outs)" and "Return ec \<in> set outs"
  shows "\<not> sk_is_open api (ms_plain (se_stream s')) \<or>
    (ms_is_ssl (se_stream s) \<and> s' = s \<and> ec_failed ec \<and> ec \<noteq> stream_truncated \<and>
     outs = [Yield Tls_shutdown, Return ec])"
proof (cases "ms_is_ssl (se_stream s)")
  case False
  with assms(2,3) show ?thesis
    by (cases evs) (auto split: prod.splits dest: close_closed [OF assms(1)])
next
  case True
  with assms(2,3) obtain e f es where evs: "evs = e # f # es"
    by (cases evs; cases "tl evs") auto
  with True assms(2,3) show ?thesis
    by (cases f) (auto simp: Let_def split: prod.splits if_splits dest: close_closed [OF assms(1)])
qed

lemma client_shutdown_outcome_instance:
  "\<exists>pc s' outs. coro_run (client_async_shutdown socket_ref) (At_start, sample_session)
     [Start, Done stream_truncated 0] = ((pc, s'), outs) \<and> ms_plain (se_stream s') = False"
proof -
  let ?r = "coro_run (client_async_shutdown socket_ref) (At_start, sample_session) [Start, Done stream_truncated 0]"
  obtain pc s' outs where r: "?r = ((pc, s'), outs)"
    by (metis prod.collapse)
  have o: "snd ?r = [Yield Tls_shutdown, Return no_error]"
    by (simp add: sample_session_def session_of_executor_def default_opts_def ms_ssl_of_def shutdown_and_close_def
        socket_ref_def)
  then have "Return no_error \<in> set outs"
    unfolding r by simp
  with client_shutdown_outcome [OF sock.socket_lib_axioms r] have "\<not> ms_plain (se_stream s')"
    by (fastforce simp: socket_ref_def)
  with r show ?thesis
    by blast
qed

subsection \<open>The server's handshake\<close>

text \<open>
  A server session with an SSL context or an encrypted stream is encrypted, on the same
  socket, when its handshake starts, and hands over what its buffer holds; a successful
  handshake takes the transferred bytes from the buffer, a failed one reports the error and
  leaves the buffer. A session with neither makes the failing access that ends the program.
\<close>

lemma server_handshake_outcome:
  "if \<not> ms_is_ssl (se_stream s) \<and> so_ssl_ctx (se_opts s) = None
   then snd (server_async_handshake (At_start, s) Start) = Terminate
   else (\<exists>pc s1. server_async_handshake (At_start, s) Start =
           ((pc, s1), Yield (Tls_server_handshake (if se_buffer s = [] then None else Some (se_buffer s)))) \<and>
         ms_is_ssl (se_stream s1) \<and> ms_plain (se_stream s1) = ms_plain (se_stream s) \<and>
         server_async_handshake (pc, s1) (Done ec n) =
           (if ec_failed ec then ((pc, s1), Return (ec, 0))
            else if se_buffer s = [] then ((pc, s1), Return (no_error, 0))
            else ((pc, s1\<lparr>se_buffer := drop n (se_buffer s)\<rparr>), Return (no_error, n))))"
  by (cases "se_stream s"; cases "so_ssl_ctx (se_opts s)") (auto simp: Let_def ms_upgrade_def)

end
