(* ===== verification/Http_Message.thy ===== *)
theory Http_Message
  imports Http_Fields Coro
begin

text \<open>
  Messages as the proxy sees them. \<open>boost::beast::http::message\<close> is not part of the program: a
  message is its start line and its fields, the methods of Beast that the program calls are
  the record \<open>http_api\<close>, and the locale \<open>http_lib\<close> states what their documentation says.
\<close>

record message =
  msg_method :: string
  msg_target :: string
  msg_status :: nat
  msg_version :: nat
  msg_fields :: hfields

record http_api =
  ha_field_of :: "string \<Rightarrow> http_field"
  ha_insert :: "string \<Rightarrow> string \<Rightarrow> hfields \<Rightarrow> hfields"
  ha_set :: "string \<Rightarrow> string \<Rightarrow> hfields \<Rightarrow> hfields"
  ha_uniq :: "string list \<Rightarrow> string list"
  ha_tokens :: "string \<Rightarrow> string list"
  ha_keep_alive :: "message \<Rightarrow> bool"
  ha_parser_keep_alive :: "message \<Rightarrow> bool"   \<comment> \<open>of the parser that has read the header\<close>
  ha_set_keep_alive :: "bool \<Rightarrow> message \<Rightarrow> message"
  ha_chunked :: "message \<Rightarrow> bool"
  ha_set_chunked :: "bool \<Rightarrow> message \<Rightarrow> message"
  ha_run :: "char x3_run"

text \<open>The fields of a message other than the given ones.\<close>

definition without :: "(string \<Rightarrow> http_field) \<Rightarrow> http_field set \<Rightarrow> hfields \<Rightarrow> hfields" where
  "without field_of F fs = filter (\<lambda>f. field_of (fst f) \<notin> F) fs"

lemma without_without: "without field_of F (without field_of G fs) = without field_of (F \<union> G) fs"
  by (auto simp: without_def intro!: filter_cong)

definition same_start :: "message \<Rightarrow> message \<Rightarrow> bool" where
  "same_start m n \<longleftrightarrow> msg_method m = msg_method n \<and> msg_target m = msg_target n \<and>
     msg_status m = msg_status n \<and> msg_version m = msg_version n"

lemma same_start_refl [simp]: "same_start m m" "same_start (m\<lparr>msg_fields := fs\<rparr>) m"
  by (simp_all add: same_start_def)

lemma same_start_trans: "same_start a b \<Longrightarrow> same_start b c \<Longrightarrow> same_start a c"
  by (simp add: same_start_def)

text \<open>
  The laws of the message interface: \<open>keep_alive(bool)\<close> changes the \<open>Connection\<close> fields only;
  \<open>chunked(bool)\<close> changes the \<open>Transfer-Encoding\<close> fields and erases every \<open>Content-Length\<close>.
\<close>

locale http_lib =
  fixes api :: http_api
  assumes fields: "beast_fields (ha_field_of api) (ha_insert api) (ha_uniq api)"
    and x3: "x3_lib ascii (ha_run api)"
    and set_single: "filter (\<lambda>(k, w). iequals k n) (ha_set api n v fs) = [(n, v)]"
    and set_other: "\<not> iequals n n' \<Longrightarrow>
          filter (\<lambda>(k, w). iequals k n') (ha_set api n v fs) = filter (\<lambda>(k, w). iequals k n') fs"
    and keep_alive_set: "ha_keep_alive api (ha_set_keep_alive api b m) = b"
    and keep_alive_start: "same_start (ha_set_keep_alive api b m) m"
    and keep_alive_fields: "without (ha_field_of api) {connection} (msg_fields (ha_set_keep_alive api b m)) =
          without (ha_field_of api) {connection} (msg_fields m)"
    and keep_alive_chunked: "ha_chunked api (ha_set_keep_alive api b m) = ha_chunked api m"
    and chunked_set: "ha_chunked api (ha_set_chunked api True m)"
    and chunked_start: "same_start (ha_set_chunked api b m) m"
    and chunked_fields: "without (ha_field_of api) {transfer_encoding} (msg_fields (ha_set_chunked api b m)) =
          without (ha_field_of api) {transfer_encoding, content_length} (msg_fields m)"
    and chunked_keep_alive: "ha_keep_alive api (ha_set_chunked api b m) = ha_keep_alive api m"
    and insert_keep_alive: "ha_field_of api n \<notin> {connection, proxy_connection} \<Longrightarrow>
          ha_keep_alive api (m\<lparr>msg_fields := ha_insert api n v (msg_fields m)\<rparr>) = ha_keep_alive api m"
    and insert_chunked: "ha_field_of api n \<noteq> transfer_encoding \<Longrightarrow>
          ha_chunked api (m\<lparr>msg_fields := ha_insert api n v (msg_fields m)\<rparr>) = ha_chunked api m"
    and set_keep_alive: "ha_field_of api n \<notin> {connection, proxy_connection} \<Longrightarrow>
          ha_keep_alive api (m\<lparr>msg_fields := ha_set api n v (msg_fields m)\<rparr>) = ha_keep_alive api m"
    and target_keep_alive: "ha_keep_alive api (m\<lparr>msg_target := t\<rparr>) = ha_keep_alive api m"

subsection \<open>A reference implementation\<close>

definition keep_alive_ref :: "message \<Rightarrow> bool" where
  "keep_alive_ref m = list_all (\<lambda>f. \<not> (field_of_ref (fst f) = connection \<and> snd f = ''close'')) (msg_fields m)"

definition set_keep_alive_ref :: "bool \<Rightarrow> message \<Rightarrow> message" where
  "set_keep_alive_ref b m = m\<lparr>msg_fields := filter (\<lambda>f. field_of_ref (fst f) \<noteq> connection) (msg_fields m) @
     (if b then [] else [(''Connection'', ''close'')])\<rparr>"

definition chunked_ref :: "message \<Rightarrow> bool" where
  "chunked_ref m = list_ex (\<lambda>f. field_of_ref (fst f) = transfer_encoding \<and> snd f = ''chunked'') (msg_fields m)"

definition set_chunked_ref :: "bool \<Rightarrow> message \<Rightarrow> message" where
  "set_chunked_ref b m = m\<lparr>msg_fields := without field_of_ref {transfer_encoding, content_length} (msg_fields m) @
     (if b then [(''Transfer-Encoding'', ''chunked'')] else [])\<rparr>"

definition set_field_ref :: "string \<Rightarrow> string \<Rightarrow> hfields \<Rightarrow> hfields" where
  "set_field_ref n v fs = filter (\<lambda>(k, w). \<not> iequals k n) fs @ [(n, v)]"

definition http_ref :: http_api where
  "http_ref = \<lparr>ha_field_of = field_of_ref, ha_insert = ins_ref, ha_set = set_field_ref, ha_uniq = uniq_ref,
     ha_tokens = (\<lambda>v. [v]), ha_keep_alive = keep_alive_ref,
     ha_parser_keep_alive = keep_alive_ref, ha_set_keep_alive = set_keep_alive_ref,
     ha_chunked = chunked_ref, ha_set_chunked = set_chunked_ref, ha_run = x3_ref ascii\<rparr>"

lemma field_of_ref_names [simp]:
  "field_of_ref ''Connection'' = connection" "field_of_ref ''Transfer-Encoding'' = transfer_encoding"
  using field_of_ref_iff [of connection] field_of_ref_iff [of transfer_encoding] by (simp_all add: iequals_def)

lemma set_field_ref_filter:
  "filter (\<lambda>(k, w). iequals k m) (set_field_ref n v fs) =
     (if iequals n m then [(n, v)] else filter (\<lambda>(k, w). iequals k m) fs)"
  by (auto simp: set_field_ref_def iequals_def filter_empty_conv intro!: filter_cong)

interpretation ref_http: http_lib http_ref
proof (rule http_lib.intro)
  show "beast_fields (ha_field_of http_ref) (ha_insert http_ref) (ha_uniq http_ref)"
    by (simp add: http_ref_def ref_fields.beast_fields_axioms)
  show "x3_lib ascii (ha_run http_ref)"
    by (simp add: http_ref_def ref.x3_lib_axioms)
  show "filter (\<lambda>(k, w). iequals k n) (ha_set http_ref n v fs) = [(n, v)]" for n v fs
    by (simp add: http_ref_def set_field_ref_filter) (simp add: iequals_def)
  show "filter (\<lambda>(k, w). iequals k n') (ha_set http_ref n v fs) = filter (\<lambda>(k, w). iequals k n') fs"
    if "\<not> iequals n n'" for n n' v fs
    using that by (simp add: http_ref_def set_field_ref_filter)
  show "ha_keep_alive http_ref (m\<lparr>msg_fields := ha_set http_ref n v (msg_fields m)\<rparr>) = ha_keep_alive http_ref m"
    if n: "ha_field_of http_ref n \<notin> {connection, proxy_connection}" for n v m
  proof -
    have "field_of_ref k \<noteq> connection" if "iequals k n" for k
      using n that field_of_ref_iff [of connection] by (auto simp: http_ref_def iequals_def)
    then show ?thesis
      using n by (fastforce simp: http_ref_def keep_alive_ref_def set_field_ref_def list_all_iff)
  qed
  show "ha_chunked http_ref (ha_set_keep_alive http_ref b m) = ha_chunked http_ref m" for b m
    by (force simp: http_ref_def chunked_ref_def set_keep_alive_ref_def list_ex_iff)
qed (auto simp: http_ref_def keep_alive_ref_def set_keep_alive_ref_def chunked_ref_def set_chunked_ref_def
    without_def same_start_def ins_ref_def list_all_iff list_ex_iff intro!: filter_cong)

end
