(* ===== verification/Relay.thy ===== *)
theory Relay
  imports Http_Message
begin

text \<open>
  \<^verbatim>\<open>include/foxy/detail/relay.hpp\<close>: the coroutine that forwards one request from the server
  session to the client session and one response back. Parsers, serializers and the network
  belong to Beast: an event carries the result of an operation, with the bytes a read has put
  where the body points to and whether the parser or the serializer is done afterwards. The
  buffer of the relay and the pointer and size of the body are kept as the code keeps them.
\<close>

subsection \<open>The buffer\<close>

definition buffer_size :: nat where
  "buffer_size = 2048"

text \<open>What one read can bring: a parser writes no more than the size the body gives it.\<close>

typedef chunk = "{bytes :: string. length bytes \<le> buffer_size}"
  by (rule exI [of _ "[]"]) simp

setup_lifting type_definition_chunk

lift_definition chunk_bytes :: "chunk \<Rightarrow> string" is "\<lambda>bytes. bytes" .

lift_definition chunk_of :: "string \<Rightarrow> chunk" is "take buffer_size"
  by simp

lemma chunk_bytes_of [simp]: "chunk_bytes (chunk_of bytes) = take buffer_size bytes"
  by transfer simp

lemma chunk_bytes_length [simp]: "length (chunk_bytes c) \<le> buffer_size"
  by transfer

text \<open>
  \<open>buffer_body::value_type\<close>: a pointer into the buffer (\<open>None\<close> is the null pointer, otherwise
  the offset), the number of bytes there and whether more follow.
\<close>

type_synonym size_t = "64 word"

record buffer_body =
  bb_data :: "nat option"
  bb_size :: size_t
  bb_more :: bool

text \<open>
  The effect of a read of Beast on the buffer and the body: the bytes are written at the
  pointer, which moves behind them, and the size becomes the space that is left.
\<close>

definition buffer_read :: "chunk \<Rightarrow> string \<times> buffer_body \<Rightarrow> string \<times> buffer_body" where
  "buffer_read c = (\<lambda>(buf, b). let bytes = chunk_bytes c; n = length bytes in
     (case bb_data b of
        Some p \<Rightarrow> (take p buf @ bytes @ drop (p + n) buf, b\<lparr>bb_data := Some (p + n), bb_size := bb_size b - of_nat n\<rparr>)
      | None \<Rightarrow> (buf, b)))"

text \<open>What a write of Beast sends: the bytes the body points to.\<close>

record body =
  b_data :: "string option"
  b_more :: bool

definition body_view :: "string \<Rightarrow> buffer_body \<Rightarrow> body" where
  "body_view buf b = \<lparr>b_data = map_option (\<lambda>p. take (unat (bb_size b)) (drop p buf)) (bb_data b), b_more = bb_more b\<rparr>"

subsection \<open>State\<close>

datatype relay_pc =
    R_start | R_req_header | R_req_header_sent | R_req_read | R_req_sent
  | R_res_header | R_res_header_sent | R_res_read | R_res_sent

record relay_state =
  r_pc :: relay_pc
  r_buffer :: string             \<comment> \<open>\<open>std::array<char, 2048>\<close>\<close>
  r_req :: message
  r_req_header_done :: bool
  r_req_done :: bool             \<comment> \<open>\<open>req_parser.is_done()\<close>\<close>
  r_req_body :: buffer_body
  r_req_fields :: hfields
  r_res :: message
  r_res_done :: bool
  r_res_body :: buffer_body
  r_res_fields :: hfields
  r_ec :: error_code
  r_close_tunnel :: bool

datatype relay_op =
    Server_read_header | Client_write_header message | Server_read nat | Client_write body
  | Client_read_header | Server_write_header message | Client_read nat | Server_write body

datatype relay_ev =
    Relay_start
  | Header error_code message bool           \<comment> \<open>a header was read; is the parser done?\<close>
  | Header_sent error_code
  | Req_data error_code chunk bool           \<comment> \<open>body bytes of the request; is the parser done?\<close>
  | Res_data error_code chunk bool
  | Body_sent error_code bool                \<comment> \<open>body bytes were written; is the serializer done?\<close>

definition empty_message :: message where
  "empty_message = \<lparr>msg_method = [], msg_target = [], msg_status = 0, msg_version = 11, msg_fields = []\<rparr>"

definition new_body :: buffer_body where
  "new_body = \<lparr>bb_data = None, bb_size = 0, bb_more = True\<rparr>"

definition empty_body :: body where
  "empty_body = \<lparr>b_data = None, b_more = True\<rparr>"

text \<open>
  The two constructors of the state: with a new parser, and with one that has read a header. The
  array is not initialised; its contents are written before they are read.
\<close>

definition relay_init :: relay_state where
  "relay_init = \<lparr>r_pc = R_start, r_buffer = replicate buffer_size CHR 0x00, r_req = empty_message, r_req_header_done = False, r_req_done = False,
     r_req_body = new_body, r_req_fields = [], r_res = empty_message, r_res_done = False,
     r_res_body = new_body, r_res_fields = [], r_ec = no_error, r_close_tunnel = False\<rparr>"

definition relay_init_parser :: "message \<Rightarrow> bool \<Rightarrow> relay_state" where
  "relay_init_parser req is_done = relay_init\<lparr>r_req := req, r_req_header_done := True, r_req_done := is_done\<rparr>"

subsection \<open>The coroutine\<close>

text \<open>
  What is done to a header before it is forwarded: the hop-by-hop fields go to \<open>hop\<close>, the
  connection is marked for closing, a chunked message stays chunked, and the proxy signs it.
\<close>

definition forward_header :: "http_api \<Rightarrow> bool \<Rightarrow> message \<Rightarrow> hfields \<Rightarrow> message \<times> hfields" where
  "forward_header api close m hop =
     (let is_chunked = ha_chunked api m;
          (fs, hop) = export_connect_fields (ha_field_of api) (ha_tokens api) (ha_uniq api) (ha_insert api)
                        (msg_fields m) hop;
          m = m\<lparr>msg_fields := fs\<rparr>;
          m = (if close then ha_set_keep_alive api False m else m);
          m = (if is_chunked then ha_set_chunked api True m else m)
      in (m\<lparr>msg_fields := ha_insert api ''Via'' ''1.1 foxy'' (msg_fields m)\<rparr>, hop))"

definition relay_upcall :: "error_code \<Rightarrow> relay_state \<Rightarrow> relay_state \<times> (relay_op, error_code \<times> bool) out" where
  "relay_upcall ec s = (s, Return (ec, True))"

definition relay_send_req_header ::
  "http_api \<Rightarrow> error_code \<Rightarrow> relay_state \<Rightarrow> relay_state \<times> (relay_op, error_code \<times> bool) out" where
  "relay_send_req_header api ec s =
     (let s = s\<lparr>r_close_tunnel := r_close_tunnel s \<or> \<not> ha_keep_alive api (r_req s)\<rparr>
      in if has_foxy_via (ha_field_of api) (ha_run api) (msg_fields (r_req s)) then relay_upcall ec s
      else
        (case forward_header api (r_close_tunnel s) (r_req s) (r_req_fields s) of
           (m, hop) \<Rightarrow> (s\<lparr>r_pc := R_req_header_sent, r_req := m, r_req_fields := hop\<rparr>,
                        Yield (Client_write_header m))))"

definition relay_send_res_header ::
  "http_api \<Rightarrow> error_code \<Rightarrow> relay_state \<Rightarrow> relay_state \<times> (relay_op, error_code \<times> bool) out" where
  "relay_send_res_header api ec s =
     (let s = s\<lparr>r_close_tunnel := r_close_tunnel s \<or> \<not> ha_keep_alive api (r_res s)\<rparr>
      in if has_foxy_via (ha_field_of api) (ha_run api) (msg_fields (r_res s)) then relay_upcall ec s
      else
        (case forward_header api (r_close_tunnel s) (r_res s) (r_res_fields s) of
           (m, hop) \<Rightarrow> (s\<lparr>r_pc := R_res_header_sent, r_res := m, r_res_fields := hop\<rparr>,
                        Yield (Server_write_header m))))"

text \<open>The head of the two body loops: read into the buffer, or write what is left.\<close>

definition relay_req_loop :: "relay_state \<Rightarrow> relay_state \<times> (relay_op, error_code \<times> bool) out" where
  "relay_req_loop s =
     (let s = s\<lparr>r_ec := no_error\<rparr>
      in if \<not> r_req_done s then
        (let s = s\<lparr>r_req_body := (r_req_body s)\<lparr>bb_data := Some 0, bb_size := of_nat buffer_size\<rparr>\<rparr>
         in (s\<lparr>r_pc := R_req_read\<rparr>, Yield (Server_read (unat (bb_size (r_req_body s))))))
      else
        (let s = s\<lparr>r_req_body := (r_req_body s)\<lparr>bb_data := None, bb_size := 0\<rparr>\<rparr>
         in (s\<lparr>r_pc := R_req_sent\<rparr>, Yield (Client_write (body_view (r_buffer s) (r_req_body s))))))"

definition relay_res_loop :: "relay_state \<Rightarrow> relay_state \<times> (relay_op, error_code \<times> bool) out" where
  "relay_res_loop s =
     (let s = s\<lparr>r_ec := no_error\<rparr>
      in if \<not> r_res_done s then
        (let s = s\<lparr>r_res_body := (r_res_body s)\<lparr>bb_data := Some 0, bb_size := of_nat buffer_size\<rparr>\<rparr>
         in (s\<lparr>r_pc := R_res_read\<rparr>, Yield (Client_read (unat (bb_size (r_res_body s))))))
      else
        (let s = s\<lparr>r_res_body := (r_res_body s)\<lparr>bb_data := None, bb_size := 0\<rparr>\<rparr>
         in (s\<lparr>r_pc := R_res_sent\<rparr>, Yield (Server_write (body_view (r_buffer s) (r_res_body s))))))"

definition clear_need_buffer :: "error_code \<Rightarrow> error_code" where
  "clear_need_buffer ec = (if ec = need_buffer then no_error else ec)"

text \<open>The three assignments to the body after a read.\<close>

definition relay_body :: "buffer_body \<Rightarrow> bool \<Rightarrow> buffer_body" where
  "relay_body b is_done =
     b\<lparr>bb_size := of_nat buffer_size - bb_size b, bb_data := Some 0, bb_more := \<not> is_done\<rparr>"

definition relay_resume ::
  "http_api \<Rightarrow> relay_state \<Rightarrow> relay_ev \<Rightarrow> relay_state \<times> (relay_op, error_code \<times> bool) out" where
  "relay_resume api s ev =
     (case (r_pc s, ev) of
        (R_start, Relay_start) \<Rightarrow>
          if \<not> r_req_header_done s then (s\<lparr>r_pc := R_req_header\<rparr>, Yield Server_read_header)
          else relay_send_req_header api no_error s
      | (R_req_header, Header ec req is_done) \<Rightarrow>
          if ec_failed ec then relay_upcall ec s
          else relay_send_req_header api ec (s\<lparr>r_req := req, r_req_header_done := True, r_req_done := is_done\<rparr>)
      | (R_req_header_sent, Header_sent ec) \<Rightarrow>
          if ec_failed ec then relay_upcall ec s else relay_req_loop s
      | (R_req_read, Req_data ec bytes is_done) \<Rightarrow>
          let (buf, body) = buffer_read bytes (r_buffer s, r_req_body s);
              s = s\<lparr>r_buffer := buf, r_req_body := body, r_req_done := is_done\<rparr>;
              ec = clear_need_buffer ec;
              s = (if ec_failed ec then s\<lparr>r_ec := ec\<rparr> else s);
              s = s\<lparr>r_req_body := relay_body (r_req_body s) (r_req_done s)\<rparr>
          in (s\<lparr>r_pc := R_req_sent\<rparr>, Yield (Client_write (body_view (r_buffer s) (r_req_body s))))
      | (R_req_sent, Body_sent ec sr_done) \<Rightarrow>
          let ec = clear_need_buffer ec
          in if ec_failed ec \<or> ec_failed (r_ec s) then relay_upcall ec s
             else if \<not> r_req_done s \<and> \<not> sr_done then relay_req_loop s
             else (s\<lparr>r_pc := R_res_header\<rparr>, Yield Client_read_header)
      | (R_res_header, Header ec res is_done) \<Rightarrow>
          if ec_failed ec then relay_upcall ec s
          else relay_send_res_header api ec (s\<lparr>r_res := res, r_res_done := is_done\<rparr>)
      | (R_res_header_sent, Header_sent ec) \<Rightarrow>
          if ec_failed ec then relay_upcall ec s else relay_res_loop s
      | (R_res_read, Res_data ec bytes is_done) \<Rightarrow>
          let (buf, body) = buffer_read bytes (r_buffer s, r_res_body s);
              s = s\<lparr>r_buffer := buf, r_res_body := body, r_res_done := is_done\<rparr>;
              ec = clear_need_buffer ec;
              s = (if ec_failed ec then s\<lparr>r_ec := ec\<rparr> else s);
              s = s\<lparr>r_res_body := relay_body (r_res_body s) (r_res_done s)\<rparr>
          in (s\<lparr>r_pc := R_res_sent\<rparr>, Yield (Server_write (body_view (r_buffer s) (r_res_body s))))
      | (R_res_sent, Body_sent ec sr_done) \<Rightarrow>
          let ec = clear_need_buffer ec
          in if ec_failed ec \<or> ec_failed (r_ec s) then relay_upcall ec s
             else if \<not> r_res_done s \<and> \<not> sr_done then relay_res_loop s
             else (s, Return (no_error, r_close_tunnel s))
      | _ \<Rightarrow> (s, Mismatch))"

text \<open>\<open>async_relay\<close> without and with a parser: the state the coroutine is started with.\<close>

definition async_relay :: "http_api \<Rightarrow> relay_ev list \<Rightarrow> relay_state \<times> (relay_op, error_code \<times> bool) out list" where
  "async_relay api evs = coro_run (relay_resume api) relay_init (Relay_start # evs)"

definition async_relay_parser ::
  "http_api \<Rightarrow> message \<Rightarrow> bool \<Rightarrow> relay_ev list \<Rightarrow> relay_state \<times> (relay_op, error_code \<times> bool) out list" where
  "async_relay_parser api req is_done evs =
     coro_run (relay_resume api) (relay_init_parser req is_done) (Relay_start # evs)"

subsection \<open>The buffer between a read and a write\<close>

lemma unat_buffer_size [simp]: "unat (of_nat buffer_size :: size_t) = buffer_size"
  by (simp add: buffer_size_def)

lemma unat_chunk_length [simp]: "unat (of_nat (length (chunk_bytes c)) :: size_t) = length (chunk_bytes c)"
proof -
  have "length (chunk_bytes c) < 2 ^ LENGTH(64)"
    using chunk_bytes_length [of c] by (rule le_less_trans) (simp add: buffer_size_def)
  then show ?thesis
    by (simp only: unat_of_nat mod_less)
qed

text \<open>A read into the whole buffer leaves a view of exactly the bytes it has brought.\<close>

definition body_armed :: "buffer_body \<Rightarrow> bool" where
  "body_armed b \<longleftrightarrow> bb_data b = Some 0 \<and> bb_size b = of_nat buffer_size"

lemma read_armed:
  "body_armed b \<Longrightarrow> buffer_read c (buf, b) =
     (chunk_bytes c @ drop (length (chunk_bytes c)) buf,
      b\<lparr>bb_data := Some (length (chunk_bytes c)), bb_size := of_nat buffer_size - of_nat (length (chunk_bytes c))\<rparr>)"
  by (simp add: buffer_read_def body_armed_def Let_def)

lemma body_view_read [simp]:
  "body_view (chunk_bytes c @ rest)
     (relay_body (b\<lparr>bb_data := p, bb_size := of_nat buffer_size - of_nat (length (chunk_bytes c))\<rparr>) is_done) =
   \<lparr>b_data = Some (chunk_bytes c), b_more = \<not> is_done\<rparr>"
  by (simp add: body_view_def relay_body_def)

lemma body_armed_loop [simp]: "body_armed (b\<lparr>bb_data := Some 0, bb_size := of_nat buffer_size\<rparr>)"
  by (simp add: body_armed_def)

lemma body_view_null [simp]: "body_view buf (b\<lparr>bb_data := None, bb_size := n\<rparr>) = \<lparr>b_data = None, b_more = bb_more b\<rparr>"
  by (simp add: body_view_def)

lemma clear_need_buffer_simps [simp]:
  "clear_need_buffer need_buffer = no_error" "clear_need_buffer no_error = no_error"
  "ec \<noteq> need_buffer \<Longrightarrow> clear_need_buffer ec = ec"
  by (simp_all add: clear_need_buffer_def)

end
