(* ===== verification/Relay_Properties.thy ===== *)
theory Relay_Properties
  imports Relay
begin

text \<open>
  The properties of the relay: what it does to a header, that it signs everything it forwards
  and refuses what it has signed, that it copies bodies, and how it ends.
\<close>

subsection \<open>Forwarded headers\<close>

text \<open>The fields of a message that a proxy has to forward.\<close>

definition forwardable :: "http_api \<Rightarrow> message \<Rightarrow> hfields" where
  "forwardable api m = filter (\<lambda>f. ha_field_of api (fst f) \<notin> set hop_by_hops \<and>
     fst f \<notin> nominated (ha_field_of api) (ha_tokens api) (msg_fields m)) (msg_fields m)"

text \<open>The fields that the proxy itself writes: only those that it has to write.\<close>

definition rewritten :: "bool \<Rightarrow> bool \<Rightarrow> http_field set" where
  "rewritten close chunked = (if close then {connection} else {}) \<union> (if chunked then {transfer_encoding} else {})"

definition proper_names :: "message \<Rightarrow> bool" where
  "proper_names m = list_all (\<lambda>f. fst f \<noteq> []) (msg_fields m)"

abbreviation signed :: "http_api \<Rightarrow> message \<Rightarrow> bool" where
  "signed api m \<equiv> has_foxy_via (ha_field_of api) (ha_run api) (msg_fields m)"

sublocale http_lib < container: beast_fields "ha_field_of api" "ha_insert api" "ha_uniq api"
  by (rule fields)

context http_lib
begin

lemma field_of_via: "ha_field_of api ''Via'' = via"
  using container.field_of_iff [of via] by (simp add: iequals_def)

lemma insert_via_signed: "has_foxy_via (ha_field_of api) (ha_run api) (ha_insert api ''Via'' ''1.1 foxy'' fs)"
proof -
  have "(''Via'', ''1.1 foxy'') \<in> set (ha_insert api ''Via'' ''1.1 foxy'' fs)"
    by (metis container.ins_mset union_single_eq_member set_mset_mset)
  moreover have "foxy_via_text ''1.1 foxy''"
  proof -
    have "map std_tolower ''1.1 foxy'' = [] @ ''1.1 foxy'' @ []"
      by (simp add: std_tolower_def less_eq_char_def)
    then show ?thesis
      unfolding foxy_via_text_def mentions_def by blast
  qed
  ultimately show ?thesis
    using field_of_via by (auto simp: has_foxy_via_iff [OF x3] intro!: bexI)
qed

lemma insert_via_without:
  "via \<notin> F \<Longrightarrow> mset (without (ha_field_of api) F (ha_insert api ''Via'' v fs)) =
     add_mset (''Via'', v) (mset (without (ha_field_of api) F fs))"
  by (simp add: without_def mset_filter container.ins_mset field_of_via)

lemma exported_fields:
  "proper_names m \<Longrightarrow> fst (export_connect_fields (ha_field_of api) (ha_tokens api) (ha_uniq api) (ha_insert api)
     (msg_fields m) hop) = forwardable api m"
  by (simp add: container.export_filter proper_names_def forwardable_def list_all_iff)

lemma forwardable_without: "F \<subseteq> set hop_by_hops \<Longrightarrow> without (ha_field_of api) F (forwardable api m) = forwardable api m"
  by (auto simp: without_def forwardable_def intro!: filter_cong)

lemma forward_header_signed: "signed api (fst (forward_header api close m hop))"
  by (simp add: forward_header_def Let_def split_beta insert_via_signed)

lemma forwarded_signed: "forward_header api close m hop = (m', hop') \<Longrightarrow> signed api m'"
  using forward_header_signed by (metis fst_conv)

text \<open>Marking for closing and chunking, seen through the fields they do not write.\<close>

lemma closed_without:
  "without (ha_field_of api) (rewritten close chunked)
     (msg_fields (if close then ha_set_keep_alive api False m else m)) =
   without (ha_field_of api) (rewritten close chunked) (msg_fields m)"
proof (cases close)
  case True
  have "rewritten True chunked = (if chunked then {transfer_encoding} else {}) \<union> {connection}"
    by (auto simp: rewritten_def)
  then show ?thesis
    using True by (simp add: without_without [symmetric] keep_alive_fields del: Un_insert_right)
qed simp

lemma chunked_without:
  "without (ha_field_of api) (rewritten close chunked)
     (msg_fields (if chunked then ha_set_chunked api True m else m)) =
   without (ha_field_of api) (rewritten close chunked \<union> (if chunked then {content_length} else {})) (msg_fields m)"
proof (cases chunked)
  case True
  have "rewritten close True = (if close then {connection} else {}) \<union> {transfer_encoding}"
    "rewritten close True \<union> {content_length} = (if close then {connection} else {}) \<union> {transfer_encoding, content_length}"
    by (auto simp: rewritten_def)
  then show ?thesis
    using True by (simp add: without_without [symmetric] chunked_fields del: Un_insert_right)
qed simp

lemma forward_header_fields:
  assumes "proper_names m"
  shows "mset (without (ha_field_of api) (rewritten close (ha_chunked api m))
      (msg_fields (fst (forward_header api close m hop)))) =
    add_mset (''Via'', ''1.1 foxy'')
      (mset (without (ha_field_of api) (if ha_chunked api m then {content_length} else {}) (forwardable api m)))"
proof -
  let ?c = "if ha_chunked api m then {content_length} else {}"
  have w: "without (ha_field_of api) (rewritten close (ha_chunked api m) \<union> ?c) fs =
      without (ha_field_of api) ?c (without (ha_field_of api) (rewritten close (ha_chunked api m)) fs)" for fs
    by (simp add: without_without Un_commute)
  have "via \<notin> rewritten close (ha_chunked api m)" "rewritten close (ha_chunked api m) \<subseteq> set hop_by_hops"
    by (simp_all add: rewritten_def hop_by_hops_def)
  then show ?thesis
    by (simp add: forward_header_def Let_def split_beta insert_via_without chunked_without w closed_without
        exported_fields [OF assms] forwardable_without del: if_image_distrib)
qed

lemma forward_header_start: "same_start (fst (forward_header api close m hop)) m"
  using chunked_start keep_alive_start
  by (simp add: forward_header_def Let_def split_beta same_start_def)

lemma forward_header_chunked: "ha_chunked api m \<Longrightarrow> ha_chunked api (fst (forward_header api close m hop))"
  by (simp add: forward_header_def Let_def split_beta insert_chunked field_of_via chunked_set)

lemma forward_header_close: "close \<Longrightarrow> \<not> ha_keep_alive api (fst (forward_header api close m hop))"
  by (simp add: forward_header_def Let_def split_beta insert_keep_alive field_of_via chunked_keep_alive keep_alive_set)

lemmas forward_header_facts = forward_header_signed forward_header_fields forward_header_start forward_header_chunked
  forward_header_close

end

text \<open>
  C15: a forwarded header has the start line of the original and exactly the original's fields
  that are neither hop-by-hop nor named by its \<open>Connection\<close> fields, and the proxy's \<open>Via\<close>
  entry. The only other fields are the \<open>Connection\<close> that says that the tunnel is to be closed,
  when it is, and the \<open>Transfer-Encoding\<close> of a chunked message; so no hop-by-hop field of the
  original is forwarded. A \<open>Content-Length\<close> is dropped exactly when the message is chunked. A
  chunked message stays chunked, and when the tunnel is to be closed the header says so.
\<close>

theorem forward_header_correct:
  assumes "http_lib api" "proper_names m" "forward_header api close m hop = (m', hop')"
  shows "same_start m' m \<and>
    mset (without (ha_field_of api) (rewritten close (ha_chunked api m)) (msg_fields m')) =
      add_mset (''Via'', ''1.1 foxy'')
        (mset (without (ha_field_of api) (if ha_chunked api m then {content_length} else {}) (forwardable api m))) \<and>
    signed api m' \<and> (ha_chunked api m \<longrightarrow> ha_chunked api m') \<and> (close \<longrightarrow> \<not> ha_keep_alive api m')"
proof -
  have m': "m' = fst (forward_header api close m hop)"
    by (simp add: assms(3))
  show ?thesis
    unfolding m' using http_lib.forward_header_facts [OF assms(1)] assms(2) by blast
qed

definition sample_request :: message where
  "sample_request = \<lparr>msg_method = ''GET'', msg_target = ''/'', msg_status = 0, msg_version = 11,
     msg_fields = [(''Host'', ''a.b''), (''Connection'', ''close''), (''TE'', ''x'')]\<rparr>"

theorem forward_header_correct_witness:
  "signed http_ref (fst (forward_header http_ref True sample_request [])) \<and>
   \<not> ha_keep_alive http_ref (fst (forward_header http_ref True sample_request []))"
  using forward_header_correct [OF ref_http.http_lib_axioms, of sample_request True "[]"]
  by (cases "forward_header http_ref True sample_request []") (simp add: proper_names_def sample_request_def)

subsection \<open>Signed messages\<close>

text \<open>Every header the relay writes is signed.\<close>

definition signed_op :: "http_api \<Rightarrow> (relay_op, 'r) out \<Rightarrow> bool" where
  "signed_op api out = (case out of
       Yield (Client_write_header h) \<Rightarrow> signed api h
     | Yield (Server_write_header h) \<Rightarrow> signed api h
     | _ \<Rightarrow> True)"

lemmas relay_defs = relay_resume_def relay_upcall_def relay_send_req_header_def relay_send_res_header_def
  relay_req_loop_def relay_res_loop_def Let_def

sublocale http_lib < relay_signs: coro_inv "relay_resume api" "\<lambda>_. True" "\<lambda>_. True" "signed_op api"
proof
  fix s e s' out
  assume "relay_resume api s e = (s', out)"
  then have "signed_op api out"
    by (auto simp: relay_defs signed_op_def split: relay_pc.splits relay_ev.splits if_splits prod.splits
        dest: forwarded_signed)
  then show "signed_op api out \<and> (yields out \<longrightarrow> True)"
    by simp
qed

context http_lib
begin

lemma relay_outputs_signed: "out \<in> set (snd (coro_run (relay_resume api) s evs)) \<Longrightarrow> signed_op api out"
  using relay_signs.run_outputs [of evs s] by (simp add: list_all_iff)

end

lemma signed_refused:
  assumes "signed api h"
  shows "\<not> ec_failed ec \<Longrightarrow> snd (async_relay api (Header ec h is_done # evs)) = [Yield Server_read_header, Return (ec, True)]"
    and "snd (async_relay_parser api h is_done evs) = [Return (no_error, True)]"
  using assms by (simp_all add: async_relay_def async_relay_parser_def relay_defs relay_init_def relay_init_parser_def)

text \<open>
  C16: a message the relay has forwarded is never forwarded again: whatever header a relay
  writes, to the remote or to the client, a relay that receives it as a request neither
  connects nor writes anything, and ends by asking for the connection to be closed.
\<close>

theorem relay_refuses_forwarded:
  assumes "http_lib api" and "outs = snd (coro_run (relay_resume api) s evs)"
    and "Yield (Client_write_header h) \<in> set outs \<or> Yield (Server_write_header h) \<in> set outs"
  shows "snd (async_relay api (Header no_error h is_done # evs2)) = [Yield Server_read_header, Return (no_error, True)] \<and>
    snd (async_relay_parser api h is_done evs2) = [Return (no_error, True)]"
proof -
  have "signed api h"
    using assms(2,3) http_lib.relay_outputs_signed [OF assms(1), of _ s evs] by (fastforce simp: signed_op_def)
  then show ?thesis
    by (simp add: signed_refused)
qed

definition sample_forwarded :: message where
  "sample_forwarded = fst (forward_header http_ref True sample_request [])"

lemma sample_not_signed: "\<not> signed http_ref sample_request" "\<not> ha_keep_alive http_ref sample_request"
  by code_simp+

theorem relay_refuses_forwarded_witness:
  "snd (async_relay_parser http_ref sample_forwarded False []) = [Return (no_error, True)]"
proof -
  have "Yield (Client_write_header sample_forwarded) \<in>
      set (snd (coro_run (relay_resume http_ref) (relay_init_parser sample_request True) [Relay_start]))"
    using sample_not_signed by (simp add: relay_defs relay_init_parser_def relay_init_def sample_forwarded_def split: prod.split)
  then show ?thesis
    using relay_refuses_forwarded [OF ref_http.http_lib_axioms refl disjI1] by blast
qed

subsection \<open>Bodies\<close>

text \<open>The body bytes that an event brings and that an output passes on, in the two directions.\<close>

definition req_in :: "relay_ev \<Rightarrow> string" where
  "req_in e = (case e of Req_data ec bytes is_done \<Rightarrow> chunk_bytes bytes | _ \<Rightarrow> [])"

definition req_out :: "(relay_op, 'r) out \<Rightarrow> string" where
  "req_out out = (case out of Yield (Client_write b) \<Rightarrow> (case b_data b of Some bytes \<Rightarrow> bytes | None \<Rightarrow> []) | _ \<Rightarrow> [])"

definition res_in :: "relay_ev \<Rightarrow> string" where
  "res_in e = (case e of Res_data ec bytes is_done \<Rightarrow> chunk_bytes bytes | _ \<Rightarrow> [])"

definition res_out :: "(relay_op, 'r) out \<Rightarrow> string" where
  "res_out out = (case out of Yield (Server_write b) \<Rightarrow> (case b_data b of Some bytes \<Rightarrow> bytes | None \<Rightarrow> []) | _ \<Rightarrow> [])"

text \<open>While a body is read it points to the whole buffer.\<close>

definition relay_ok :: "relay_state \<Rightarrow> bool" where
  "relay_ok s \<longleftrightarrow> (r_pc s = R_req_read \<longrightarrow> body_armed (r_req_body s)) \<and>
     (r_pc s = R_res_read \<longrightarrow> body_armed (r_res_body s))"

lemma relay_ok_init [simp]: "relay_ok relay_init" "relay_ok (relay_init_parser req is_done)"
  by (simp_all add: relay_ok_def relay_init_def relay_init_parser_def)

interpretation request_body: coro_copy "relay_resume api" relay_ok req_in req_out for api
  by standard (auto simp: relay_defs relay_ok_def req_in_def req_out_def read_armed
      split: relay_pc.splits relay_ev.splits if_splits prod.splits)

interpretation response_body: coro_copy "relay_resume api" relay_ok res_in res_out for api
  by standard (auto simp: relay_defs relay_ok_def res_in_def res_out_def read_armed
      split: relay_pc.splits relay_ev.splits if_splits prod.splits)

text \<open>
  C17: the relay copies bodies: in every run from the state it starts in, or from any other
  state in which a body that is read points to the whole buffer, however the run is cut into
  reads of at most the buffer's size and wherever it ends, the bytes that the writes to the
  remote take from the buffer are the request bytes read from the client, and those that the
  writes to the client take from it are the response bytes read from the remote, in order.
\<close>

theorem relay_copies_bodies:
  assumes "relay_ok s" "coro_run (relay_resume api) s evs = (s', outs)" "Mismatch \<notin> set outs"
  shows "concat (map req_out outs) = concat (map req_in (take (length outs) evs)) \<and>
    concat (map res_out outs) = concat (map res_in (take (length outs) evs))"
  using request_body.run_copies [of s api evs] response_body.run_copies [of s api evs] assms by simp

theorem relay_copies_bodies_witness:
  "\<exists>s' outs. coro_run (relay_resume http_ref) (relay_init_parser sample_request False)
     [Relay_start, Header_sent no_error, Req_data need_buffer (chunk_of ''ab'') False, Body_sent need_buffer False,
      Req_data no_error (chunk_of ''c'') True, Body_sent no_error True] =
     (s', outs) \<and> concat (map req_out outs) = ''abc''"
proof -
  let ?evs = "[Relay_start, Header_sent no_error, Req_data need_buffer (chunk_of ''ab'') False,
    Body_sent need_buffer False, Req_data no_error (chunk_of ''c'') True, Body_sent no_error True]"
  obtain s' outs where r: "coro_run (relay_resume http_ref) (relay_init_parser sample_request False) ?evs = (s', outs)"
    by fastforce
  moreover from this have "Mismatch \<notin> set outs \<and> length outs = 6"
    using sample_not_signed(1) by (auto simp: relay_defs relay_init_def relay_init_parser_def split: prod.splits)
  ultimately show ?thesis
    using relay_copies_bodies [OF relay_ok_init(2) r] by (auto simp: req_in_def buffer_size_def)
qed

subsection \<open>A complete exchange\<close>

text \<open>
  The events of a body that arrives in the given chunks, after its header has been sent, and
  what the relay does meanwhile: \<open>rd\<close> reads and \<open>wr\<close> writes.
\<close>

fun body_events :: "(error_code \<Rightarrow> chunk \<Rightarrow> bool \<Rightarrow> relay_ev) \<Rightarrow> chunk list \<Rightarrow> relay_ev list" where
  "body_events data [] = [Body_sent need_buffer False]"
| "body_events data [c] = [data no_error c True, Body_sent no_error True]"
| "body_events data (c # cs) = data need_buffer c False # Body_sent need_buffer False # body_events data cs"

fun body_ops :: "relay_op \<Rightarrow> (body \<Rightarrow> relay_op) \<Rightarrow> chunk list \<Rightarrow> relay_op list" where
  "body_ops rd wr [] = [wr empty_body]"
| "body_ops rd wr [c] = [rd, wr \<lparr>b_data = Some (chunk_bytes c), b_more = False\<rparr>]"
| "body_ops rd wr (c # cs) = rd # wr \<lparr>b_data = Some (chunk_bytes c), b_more = True\<rparr> # body_ops rd wr cs"

text \<open>What the request phase leaves alone for the response phase.\<close>

definition response_ready :: "relay_state \<Rightarrow> bool \<Rightarrow> bool" where
  "response_ready s close \<longleftrightarrow> r_ec s = no_error \<and> r_close_tunnel s = close \<and> r_res_body s = new_body \<and> r_res_fields s = []"

lemma request_steps:
  "r_pc s = R_req_header_sent \<Longrightarrow> relay_resume api s (Header_sent no_error) = relay_req_loop s"
  "r_pc s = R_req_sent \<Longrightarrow> ec \<in> {no_error, need_buffer} \<Longrightarrow> r_ec s = no_error \<Longrightarrow>
     relay_resume api s (Body_sent ec sr_done) =
     (if \<not> r_req_done s \<and> \<not> sr_done then relay_req_loop s else (s\<lparr>r_pc := R_res_header\<rparr>, Yield Client_read_header))"
  by (auto simp: relay_defs)

lemma response_steps:
  "r_pc s = R_res_header_sent \<Longrightarrow> relay_resume api s (Header_sent no_error) = relay_res_loop s"
  "r_pc s = R_res_sent \<Longrightarrow> ec \<in> {no_error, need_buffer} \<Longrightarrow> r_ec s = no_error \<Longrightarrow>
     relay_resume api s (Body_sent ec sr_done) =
     (if \<not> r_res_done s \<and> \<not> sr_done then relay_res_loop s else (s, Return (no_error, r_close_tunnel s)))"
  by (auto simp: relay_defs)

text \<open>A chunk is read into the buffer and written from it.\<close>

lemma request_chunk:
  assumes "r_pc s = R_req_read" "relay_ok s" "ec \<in> {no_error, need_buffer}"
  shows "\<exists>s'. relay_resume api s (Req_data ec c is_done) =
      (s', Yield (Client_write \<lparr>b_data = Some (chunk_bytes c), b_more = \<not> is_done\<rparr>)) \<and>
    r_pc s' = R_req_sent \<and> r_req_done s' = is_done \<and> r_ec s' = r_ec s \<and>
    (response_ready s close \<longrightarrow> response_ready s' close)"
  using assms by (auto simp: relay_defs relay_ok_def read_armed response_ready_def)

lemma response_chunk:
  assumes "r_pc s = R_res_read" "relay_ok s" "ec \<in> {no_error, need_buffer}"
  shows "\<exists>s'. relay_resume api s (Res_data ec c is_done) =
      (s', Yield (Server_write \<lparr>b_data = Some (chunk_bytes c), b_more = \<not> is_done\<rparr>)) \<and>
    r_pc s' = R_res_sent \<and> r_res_done s' = is_done \<and> r_ec s' = r_ec s \<and> r_close_tunnel s' = r_close_tunnel s"
  using assms by (auto simp: relay_defs relay_ok_def read_armed)

lemma request_loop:
  assumes "\<not> r_req_done s"
  shows "\<exists>s'. relay_req_loop s = (s', Yield (Server_read buffer_size)) \<and> r_pc s' = R_req_read \<and> relay_ok s' \<and>
    (response_ready s close \<longrightarrow> response_ready s' close)"
  using assms by (simp add: relay_req_loop_def relay_ok_def response_ready_def Let_def)

lemma response_loop:
  assumes "\<not> r_res_done s"
  shows "\<exists>s'. relay_res_loop s = (s', Yield (Client_read buffer_size)) \<and> r_pc s' = R_res_read \<and> relay_ok s' \<and>
    r_ec s' = no_error \<and> r_close_tunnel s' = r_close_tunnel s"
  using assms by (simp add: relay_res_loop_def relay_ok_def Let_def)

lemma request_body_run:
  assumes "r_pc s = R_req_read" "relay_ok s" "response_ready s close"
  shows "\<exists>s' ops. coro_run (relay_resume api) s (body_events Req_data (c # cs)) =
      (s', map Yield (ops @ [Client_read_header])) \<and>
    body_ops (Server_read buffer_size) Client_write (c # cs) = Server_read buffer_size # ops \<and>
    r_pc s' = R_res_header \<and> response_ready s' close"
  using assms
proof (induction cs arbitrary: s c)
  case Nil
  from request_chunk [OF Nil(1,2), of no_error api c True close] Nil(3) obtain t where
    "relay_resume api s (Req_data no_error c True) = (t, Yield (Client_write \<lparr>b_data = Some (chunk_bytes c), b_more = False\<rparr>))"
    "r_pc t = R_req_sent" "r_req_done t" "response_ready t close"
    by auto
  then show ?case
    by (simp add: request_steps response_ready_def)
next
  case (Cons d cs)
  from request_chunk [OF Cons.prems(1,2), of need_buffer api c False close] Cons.prems(3) obtain t where t:
    "relay_resume api s (Req_data need_buffer c False) = (t, Yield (Client_write \<lparr>b_data = Some (chunk_bytes c), b_more = True\<rparr>))"
    "r_pc t = R_req_sent" "\<not> r_req_done t" "response_ready t close"
    by auto
  from request_loop [OF t(3), of close] t(4) obtain u where u:
    "relay_req_loop t = (u, Yield (Server_read buffer_size))" "r_pc u = R_req_read" "relay_ok u" "response_ready u close"
    by auto
  have "coro_run (relay_resume api) s (body_events Req_data (c # d # cs)) =
      apsnd ((@) (map Yield [Client_write \<lparr>b_data = Some (chunk_bytes c), b_more = True\<rparr>, Server_read buffer_size]))
        (coro_run (relay_resume api) u (body_events Req_data (d # cs)))"
    using t u by (simp add: request_steps response_ready_def apsnd_compose split: prod.split)
  with Cons.IH [OF u(2-4), of d] show ?case
    by (force simp del: coro_run.simps)
qed

lemma request_run:
  assumes "r_pc s = R_req_header_sent" "response_ready s close" "r_req_done s = (cs = [])" "r_req_body s = new_body"
  shows "\<exists>s'. coro_run (relay_resume api) s (Header_sent no_error # body_events Req_data cs) =
      (s', map Yield (body_ops (Server_read buffer_size) Client_write cs @ [Client_read_header])) \<and>
    r_pc s' = R_res_header \<and> response_ready s' close"
proof (cases cs)
  case Nil
  with assms show ?thesis
    by (simp add: request_steps relay_req_loop_def response_ready_def Let_def empty_body_def new_body_def body_view_def)
next
  case (Cons c cs')
  with assms request_loop [of s close] obtain t where t: "relay_req_loop s = (t, Yield (Server_read buffer_size))"
    "r_pc t = R_req_read" "relay_ok t" "response_ready t close"
    by auto
  with request_body_run [OF t(2-4), of api c cs'] assms Cons show ?thesis
    by (auto simp: request_steps simp del: body_events.simps body_ops.simps)
qed

lemma response_body_run:
  assumes "r_pc s = R_res_read" "relay_ok s" "r_ec s = no_error" "r_close_tunnel s = close"
  shows "\<exists>ops. snd (coro_run (relay_resume api) s (body_events Res_data (c # cs))) =
      map Yield ops @ [Return (no_error, close)] \<and>
    body_ops (Client_read buffer_size) Server_write (c # cs) = Client_read buffer_size # ops"
  using assms
proof (induction cs arbitrary: s c)
  case Nil
  from response_chunk [OF Nil(1,2), of no_error api c True] Nil(3,4) obtain t where
    "relay_resume api s (Res_data no_error c True) = (t, Yield (Server_write \<lparr>b_data = Some (chunk_bytes c), b_more = False\<rparr>))"
    "r_pc t = R_res_sent" "r_res_done t" "r_ec t = no_error" "r_close_tunnel t = close"
    by auto
  then show ?case
    by (simp add: response_steps)
next
  case (Cons d cs)
  from response_chunk [OF Cons.prems(1,2), of need_buffer api c False] Cons.prems(3,4) obtain t where t:
    "relay_resume api s (Res_data need_buffer c False) = (t, Yield (Server_write \<lparr>b_data = Some (chunk_bytes c), b_more = True\<rparr>))"
    "r_pc t = R_res_sent" "\<not> r_res_done t" "r_ec t = no_error" "r_close_tunnel t = close"
    by auto
  from response_loop [OF t(3)] t(5) obtain u where u: "relay_res_loop t = (u, Yield (Client_read buffer_size))"
    "r_pc u = R_res_read" "relay_ok u" "r_ec u = no_error" "r_close_tunnel u = close"
    by auto
  have "coro_run (relay_resume api) s (body_events Res_data (c # d # cs)) =
      apsnd ((@) (map Yield [Server_write \<lparr>b_data = Some (chunk_bytes c), b_more = True\<rparr>, Client_read buffer_size]))
        (coro_run (relay_resume api) u (body_events Res_data (d # cs)))"
    using t u by (simp add: response_steps apsnd_compose split: prod.split)
  with Cons.IH [OF u(2-5), of d] show ?case
    by (force simp del: coro_run.simps)
qed

lemma response_run:
  assumes "r_pc s = R_res_header_sent" "r_ec s = no_error" "r_res_body s = new_body" "r_close_tunnel s = close"
    "r_res_done s = (ds = [])"
  shows "snd (coro_run (relay_resume api) s (Header_sent no_error # body_events Res_data ds)) =
    map Yield (body_ops (Client_read buffer_size) Server_write ds) @ [Return (no_error, close)]"
proof (cases ds)
  case Nil
  with assms show ?thesis
    by (simp add: response_steps relay_res_loop_def Let_def empty_body_def new_body_def body_view_def)
next
  case (Cons d ds')
  with assms response_loop [of s] obtain t where t: "relay_res_loop s = (t, Yield (Client_read buffer_size))"
    "r_pc t = R_res_read" "relay_ok t" "r_ec t = no_error" "r_close_tunnel t = close"
    by auto
  with response_body_run [OF t(2-5), of api d ds'] assms Cons show ?thesis
    by (auto simp: response_steps simp del: body_events.simps body_ops.simps)
qed

lemma header_steps:
  "r_pc s = R_start \<Longrightarrow> \<not> r_req_header_done s \<Longrightarrow> relay_resume api s Relay_start = (s\<lparr>r_pc := R_req_header\<rparr>, Yield Server_read_header)"
  "r_pc s = R_req_header \<Longrightarrow> \<not> signed api req \<Longrightarrow> \<exists>s'. relay_resume api s (Header no_error req is_done) =
     (s', Yield (Client_write_header (fst (forward_header api (r_close_tunnel s \<or> \<not> ha_keep_alive api req) req (r_req_fields s))))) \<and>
     r_pc s' = R_req_header_sent \<and> r_req_done s' = is_done \<and> r_req_body s' = r_req_body s \<and>
     (response_ready s close \<longrightarrow> response_ready s' (r_close_tunnel s \<or> \<not> ha_keep_alive api req))"
  "r_pc s = R_res_header \<Longrightarrow> \<not> signed api res \<Longrightarrow> response_ready s close \<Longrightarrow> \<exists>s'. relay_resume api s (Header no_error res is_done) =
     (s', Yield (Server_write_header (fst (forward_header api (close \<or> \<not> ha_keep_alive api res) res [])))) \<and>
     r_pc s' = R_res_header_sent \<and> r_res_done s' = is_done \<and> r_ec s' = no_error \<and> r_res_body s' = new_body \<and>
     r_close_tunnel s' = (close \<or> \<not> ha_keep_alive api res)"
  by (auto simp: relay_defs response_ready_def split: prod.split)

lemma body_lengths: "length (body_ops rd wr cs) = length (body_events data cs)"
  by (induction cs rule: body_ops.induct) simp_all

lemma exchange_run:
  assumes "r_pc s = R_req_header_sent" "response_ready s close" "r_req_done s = (cs = [])" "r_req_body s = new_body"
    and "\<not> signed api res"
  shows "snd (coro_run (relay_resume api) s
      ((Header_sent no_error # body_events Req_data cs) @
       Header no_error res (ds = []) # Header_sent no_error # body_events Res_data ds)) =
    map Yield (body_ops (Server_read buffer_size) Client_write cs @ [Client_read_header] @
      [Server_write_header (fst (forward_header api (close \<or> \<not> ha_keep_alive api res) res []))] @
      body_ops (Client_read buffer_size) Server_write ds) @
    [Return (no_error, close \<or> \<not> ha_keep_alive api res)]"
proof -
  let ?close = "close \<or> \<not> ha_keep_alive api res"
  obtain t where t: "coro_run (relay_resume api) s (Header_sent no_error # body_events Req_data cs) =
      (t, map Yield (body_ops (Server_read buffer_size) Client_write cs @ [Client_read_header]))"
      "r_pc t = R_res_header" "response_ready t close"
    using request_run [OF assms(1-4)] by blast
  obtain u where u: "relay_resume api t (Header no_error res (ds = [])) =
      (u, Yield (Server_write_header (fst (forward_header api ?close res []))))"
      "r_pc u = R_res_header_sent" "r_res_done u = (ds = [])" "r_ec u = no_error" "r_res_body u = new_body"
      "r_close_tunnel u = ?close"
    using header_steps(3) [OF t(2) assms(5) t(3)] by blast
  have len: "length (body_ops (Server_read buffer_size) Client_write cs @ [Client_read_header]) =
      length (Header_sent no_error # body_events Req_data cs)"
    by (simp add: body_lengths [where data = Req_data])
  show ?thesis
    unfolding coro_run_append [OF t(1) len] using response_run [OF u(2,4,5,6,3), of api]
    by (simp add: u(1) coro_run.simps(2) [of _ t] del: coro_run.simps)
qed

text \<open>The events of a whole exchange and what the relay does after it has asked for the request.\<close>

definition exchange_events :: "message \<Rightarrow> chunk list \<Rightarrow> message \<Rightarrow> chunk list \<Rightarrow> relay_ev list" where
  "exchange_events req cs res ds =
     Header no_error req (cs = []) # (Header_sent no_error # body_events Req_data cs) @
     Header no_error res (ds = []) # Header_sent no_error # body_events Res_data ds"

definition exchange_close :: "http_api \<Rightarrow> message \<Rightarrow> message \<Rightarrow> bool" where
  "exchange_close api req res = (\<not> ha_keep_alive api req \<or> \<not> ha_keep_alive api res)"

definition exchange_ops :: "http_api \<Rightarrow> message \<Rightarrow> chunk list \<Rightarrow> message \<Rightarrow> chunk list \<Rightarrow> relay_op list" where
  "exchange_ops api req cs res ds =
     Client_write_header (fst (forward_header api (\<not> ha_keep_alive api req) req [])) #
     body_ops (Server_read buffer_size) Client_write cs @ [Client_read_header] @
     [Server_write_header (fst (forward_header api (exchange_close api req res) res []))] @
     body_ops (Client_read buffer_size) Server_write ds"

lemma exchange_lengths: "length (exchange_events req cs res ds) = Suc (length (exchange_ops api req cs res ds))"
  using body_lengths [of "Server_read buffer_size" Client_write cs Req_data]
    body_lengths [of "Client_read buffer_size" Server_write ds Res_data]
  by (simp add: exchange_events_def exchange_ops_def)

lemma relay_first:
  "relay_resume api relay_init Relay_start = (relay_init\<lparr>r_pc := R_req_header\<rparr>, Yield Server_read_header)"
  by (simp add: relay_resume_def relay_init_def)

lemma exchange_from_request:
  assumes "\<not> signed api req" "\<not> signed api res"
  shows "snd (coro_run (relay_resume api) (relay_init\<lparr>r_pc := R_req_header\<rparr>) (exchange_events req cs res ds)) =
    map Yield (exchange_ops api req cs res ds) @ [Return (no_error, exchange_close api req res)]"
proof -
  let ?i = "relay_init\<lparr>r_pc := R_req_header\<rparr>"
  have i: "r_pc ?i = R_req_header" "response_ready ?i False" "r_req_body ?i = new_body" "\<not> r_close_tunnel ?i"
    "r_req_fields ?i = []"
    by (simp_all add: relay_init_def response_ready_def)
  obtain s where s: "relay_resume api ?i (Header no_error req (cs = [])) =
      (s, Yield (Client_write_header (fst (forward_header api (\<not> ha_keep_alive api req) req []))))"
      "r_pc s = R_req_header_sent" "r_req_done s = (cs = [])" "r_req_body s = new_body"
      "response_ready s (\<not> ha_keep_alive api req)"
    using header_steps(2) [OF i(1) assms(1), of "cs = []" False] i(2-5) by auto
  show ?thesis
    unfolding exchange_events_def coro_run_from s(1)
    using exchange_run [OF s(2,5,3,4) assms(2), of ds]
    by (simp add: exchange_ops_def exchange_close_def del: coro_run.simps(2))
qed

text \<open>
  C7: a complete exchange. For any request and response that do not carry the proxy's own
  \<open>Via\<close> entry, with bodies in any number of chunks, a relay whose operations succeed reads
  the request header, forwards it, copies the body chunk by chunk, reads the response header,
  forwards it, copies its body, and completes without error; the connection is to be closed
  exactly when one of the two messages is the last one on its connection.
\<close>

theorem relay_completes:
  assumes "\<not> signed api req" "\<not> signed api res"
  shows "snd (async_relay api (exchange_events req cs res ds)) =
    (let close_req = \<not> ha_keep_alive api req; close = close_req \<or> \<not> ha_keep_alive api res
     in map Yield ([Server_read_header, Client_write_header (fst (forward_header api close_req req []))] @
          body_ops (Server_read buffer_size) Client_write cs @
          [Client_read_header, Server_write_header (fst (forward_header api close res []))] @
          body_ops (Client_read buffer_size) Server_write ds) @ [Return (no_error, close)])"
  using exchange_from_request [OF assms, of cs ds]
  by (simp add: async_relay_def coro_run_from relay_first exchange_ops_def exchange_close_def Let_def del: coro_run.simps(2))

theorem relay_completes_witness:
  "last (snd (async_relay http_ref (exchange_events sample_request [chunk_of ''ab'', chunk_of ''c''] sample_request []))) =
     Return (no_error, True)"
  using relay_completes [OF sample_not_signed(1) sample_not_signed(1), of "[chunk_of ''ab'', chunk_of ''c'']" "[]"] sample_not_signed(2)
  by (simp only: Let_def) simp

subsection \<open>Errors while a body is read\<close>

text \<open>
  C39: an error that ends the reading of a body is not reported: in every state the relay can be
  in (\<open>relay_ok\<close> holds initially and is kept by every resumption), the relay writes what it
  has, and when that succeeds it completes with the result of the write, that is without an
  error, and asks for the connection to be closed. This holds for the request and the response.
\<close>

theorem relay_read_error_lost:
  assumes "relay_ok s" "ec_failed ec" "ec \<noteq> need_buffer"
  shows "(r_pc s = R_req_read \<longrightarrow> snd (coro_run (relay_resume api) s [Req_data ec bytes is_done, Body_sent no_error sr_done]) =
      [Yield (Client_write \<lparr>b_data = Some (chunk_bytes bytes), b_more = \<not> is_done\<rparr>), Return (no_error, True)]) \<and>
    (r_pc s = R_res_read \<longrightarrow> snd (coro_run (relay_resume api) s [Res_data ec bytes is_done, Body_sent no_error sr_done]) =
      [Yield (Server_write \<lparr>b_data = Some (chunk_bytes bytes), b_more = \<not> is_done\<rparr>), Return (no_error, True)])"
  using assms by (simp add: relay_defs relay_ok_def read_armed)

theorem relay_read_error_lost_witness:
  "snd (coro_run (relay_resume http_ref) (fst (relay_req_loop relay_init))
     [Req_data asio_eof (chunk_of ''ab'') False, Body_sent no_error False]) =
   [Yield (Client_write \<lparr>b_data = Some ''ab'', b_more = True\<rparr>), Return (no_error, True)]"
proof -
  have "asio_eof \<noteq> need_buffer"
    by (simp add: error_codes)
  moreover have "r_pc (fst (relay_req_loop relay_init)) = R_req_read" "relay_ok (fst (relay_req_loop relay_init))"
    by (simp_all add: relay_req_loop_def relay_ok_def relay_init_def Let_def)
  ultimately show ?thesis
    using relay_read_error_lost [of "fst (relay_req_loop relay_init)" asio_eof http_ref "chunk_of ''ab''" False False]
    by (simp add: buffer_size_def)
qed

end
