(* ===== verification/Tunnel.thy ===== *)
theory Tunnel
  imports Relay Session Parse_Uri_Facts
begin

text \<open>
  \<^verbatim>\<open>include/foxy/detail/tunnel.hpp\<close>: the coroutine that reads a client's requests until one of
  them opens a tunnel. \<open>CONNECT\<close> with an authority connects and hands the connection over;
  an absolute URI of the \<open>http\<close> or \<open>https\<close> scheme connects and relays this one request;
  everything else is answered with status 400.
\<close>

subsection \<open>State\<close>

record response =
  rs_status :: nat
  rs_body :: string
  rs_payload :: bool              \<comment> \<open>\<open>prepare_payload()\<close> was called\<close>

definition new_response :: response where
  "new_response = \<lparr>rs_status = 200, rs_body = [], rs_payload = False\<rparr>"

datatype tunnel_pc = T_start | T_header | T_refused | T_connect | T_unreachable | T_malformed | T_relay
  | T_established | T_detect

text \<open>A \<open>tribool\<close> is a truth value or, as \<open>None\<close>, indeterminate.\<close>

record tunnel_state =
  u_pc :: tunnel_pc
  u_req :: message
  u_req_done :: bool
  u_response :: response
  u_parts :: "char uri_parts"
  u_is_ssl :: "bool option"
  u_is_authority :: bool
  u_is_connect :: bool
  u_is_absolute :: bool
  u_is_http :: bool
  u_close_tunnel :: bool

definition tunnel_init :: tunnel_state where
  "tunnel_init = \<lparr>u_pc = T_start, u_req = empty_message, u_req_done = False, u_response = new_response,
     u_parts = no_parts, u_is_ssl = Some False, u_is_authority = False, u_is_connect = False,
     u_is_absolute = False, u_is_http = False, u_close_tunnel = False\<rparr>"

datatype tunnel_op =
    Read_request | Respond response | Connect string string | Relay_request message bool | Detect_client_ssl

datatype tunnel_ev =
    Tunnel_start
  | Request error_code message bool       \<comment> \<open>a header was read; is the parser done?\<close>
  | Responded error_code
  | On_connect error_code
  | On_relay error_code bool
  | On_detect error_code "bool option"

subsection \<open>The coroutine\<close>

text \<open>The head of the loop: a new parser and a new response, and the next request.\<close>

definition tunnel_next :: "tunnel_state \<Rightarrow> tunnel_state \<times> (tunnel_op, error_code \<times> bool) out" where
  "tunnel_next s =
     (s\<lparr>u_req := empty_message, u_req_done := False, u_response := new_response, u_pc := T_header\<rparr>, Yield Read_request)"

definition tunnel_respond ::
  "tunnel_pc \<Rightarrow> string \<Rightarrow> tunnel_state \<Rightarrow> tunnel_state \<times> (tunnel_op, error_code \<times> bool) out" where
  "tunnel_respond pc text s =
     (let s = s\<lparr>u_response := \<lparr>rs_status = 400, rs_body = text, rs_payload = True\<rparr>\<rparr>
      in (s\<lparr>u_pc := pc\<rparr>, Yield (Respond (u_response s))))"

definition nl :: string where
  "nl = [CHR 0x0A]"

definition no_persistence_text :: string where
  "no_persistence_text = ''CONNECT semantics require a persistent connection'' @ nl @ nl"

definition malformed_text :: string where
  "malformed_text = ''Malformed client request. Use either CONNECT <authority-uri> or <verb> <absolute-uri>''"

definition unreachable_text :: "(error_code \<Rightarrow> string) \<Rightarrow> string \<Rightarrow> error_code \<Rightarrow> string" where
  "unreachable_text ec_message host ec =
     ''Unable to connect to the remote at: '' @ host @ nl @ ''Error code: '' @ ec_message ec @ nl @ nl"

definition tunnel_upcall ::
  "error_code \<Rightarrow> tunnel_state \<Rightarrow> tunnel_state \<times> (tunnel_op, error_code \<times> bool) out" where
  "tunnel_upcall ec s = (s, Return (ec, u_close_tunnel s))"

text \<open>Behind the loop: look for TLS from the client unless the tunnel is to be closed.\<close>

definition tunnel_finish ::
  "error_code \<Rightarrow> tunnel_state \<Rightarrow> tunnel_state \<times> (tunnel_op, error_code \<times> bool) out" where
  "tunnel_finish ec s =
     (if \<not> ec_failed ec \<and> \<not> u_close_tunnel s then (s\<lparr>u_pc := T_detect\<rparr>, Yield Detect_client_ssl)
      else (s, Return (no_error, u_close_tunnel s)))"

definition tunnel_service :: "bool \<Rightarrow> char uri_parts \<Rightarrow> string" where
  "tunnel_service is_ssl parts =
     (let scheme = (if is_ssl then ''https'' else ''http'') in if up_port parts = [] then scheme else up_port parts)"

text \<open>A request has been read: classify it, then refuse it or connect.\<close>

definition tunnel_dispatch ::
  "http_api \<Rightarrow> bool \<Rightarrow> tunnel_state \<Rightarrow> tunnel_state \<times> (tunnel_op, error_code \<times> bool) out" where
  "tunnel_dispatch api client_ssl s =
     (let parts = parse_uri (ha_run api) (msg_target (u_req s));
          s = s\<lparr>u_parts := parts, u_is_authority := is_authority parts,
                u_is_connect := (msg_method (u_req s) = ''CONNECT''),
                u_is_absolute := is_absolute parts, u_is_http := is_http parts\<rparr>
      in if u_is_connect s \<and> u_is_authority s \<and> \<not> ha_parser_keep_alive api (u_req s)
         then tunnel_respond T_refused no_persistence_text (s\<lparr>u_close_tunnel := True\<rparr>)
         else if (u_is_connect s \<and> u_is_authority s) \<or> (u_is_absolute s \<and> u_is_http s)
         then (s\<lparr>u_pc := T_connect\<rparr>, Yield (Connect (up_host parts) (tunnel_service client_ssl parts)))
         else tunnel_respond T_malformed malformed_text s)"

text \<open>The request that is relayed for an absolute URI: its target, its host and its connection.\<close>

definition origin_target :: "string \<Rightarrow> char uri_parts \<Rightarrow> string" where
  "origin_target method parts =
     (let path = (if up_path parts = [] then (if method = ''OPTIONS'' then ''*'' else ''/'') else up_path parts)
      in if up_query parts = [] then path else path @ ''?'' @ up_query parts)"

definition origin_host :: "char uri_parts \<Rightarrow> string" where
  "origin_host parts = (if up_port parts = [] then up_host parts else up_host parts @ '':'' @ up_port parts)"

definition origin_request :: "http_api \<Rightarrow> char uri_parts \<Rightarrow> message \<Rightarrow> message" where
  "origin_request api parts req =
     (let req = ha_set_keep_alive api False req;
          req = req\<lparr>msg_target := origin_target (msg_method req) parts\<rparr>
      in req\<lparr>msg_fields := ha_set api ''Host'' (origin_host parts) (msg_fields req)\<rparr>)"

text \<open>The remote is connected: relay the request, or tell the client that the tunnel is open.\<close>

definition tunnel_connected ::
  "http_api \<Rightarrow> tunnel_state \<Rightarrow> tunnel_state \<times> (tunnel_op, error_code \<times> bool) out" where
  "tunnel_connected api s =
     (if u_is_absolute s \<and> u_is_http s
      then (let s = s\<lparr>u_req := origin_request api (u_parts s) (u_req s)\<rparr>
            in (s\<lparr>u_pc := T_relay\<rparr>, Yield (Relay_request (u_req s) (u_req_done s))))
      else (let s = s\<lparr>u_response := (u_response s)\<lparr>rs_status := 200\<rparr>\<rparr>
            in (s\<lparr>u_pc := T_established\<rparr>, Yield (Respond (u_response s)))))"

definition tunnel_resume ::
  "http_api \<Rightarrow> (error_code \<Rightarrow> string) \<Rightarrow> bool \<Rightarrow> tunnel_state \<Rightarrow> tunnel_ev \<Rightarrow>
   tunnel_state \<times> (tunnel_op, error_code \<times> bool) out" where
  "tunnel_resume api ec_message client_ssl s ev =
     (case (u_pc s, ev) of
        (T_start, Tunnel_start) \<Rightarrow> tunnel_next s
      | (T_header, Request ec req is_done) \<Rightarrow>
          if ec_failed ec then tunnel_upcall ec s
          else tunnel_dispatch api client_ssl (s\<lparr>u_req := req, u_req_done := is_done\<rparr>)
      | (T_refused, Responded ec) \<Rightarrow>
          if ec_failed ec then tunnel_upcall ec s else tunnel_finish ec s
      | (T_connect, On_connect ec) \<Rightarrow>
          if ec_failed ec
          then tunnel_respond T_unreachable (unreachable_text ec_message (up_host (u_parts s)) ec) s
          else tunnel_connected api s
      | (T_unreachable, Responded ec) \<Rightarrow>
          if ec_failed ec then tunnel_upcall ec s
          else if ha_keep_alive api (u_req s) then tunnel_next s else tunnel_finish ec s
      | (T_malformed, Responded ec) \<Rightarrow>
          if ec_failed ec then tunnel_upcall ec s
          else if ha_parser_keep_alive api (u_req s) then tunnel_next s else tunnel_finish ec s
      | (T_relay, On_relay ec close_tunnel) \<Rightarrow>
          if ec_failed ec then tunnel_upcall ec s else tunnel_finish ec (s\<lparr>u_close_tunnel := True\<rparr>)
      | (T_established, Responded ec) \<Rightarrow>
          if ec_failed ec then tunnel_upcall ec (s\<lparr>u_close_tunnel := True\<rparr>)
          else tunnel_finish ec (s\<lparr>u_close_tunnel := False\<rparr>)
      | (T_detect, On_detect ec is_ssl) \<Rightarrow>
          let s = s\<lparr>u_is_ssl := is_ssl\<rparr> in (s, Return (no_error, u_close_tunnel s))
      | _ \<Rightarrow> (s, Mismatch))"

text \<open>
  \<open>async_tunnel\<close> for a server session and a client session; of the latter the coroutine asks
  only whether its stream is encrypted.
\<close>

definition async_tunnel ::
  "http_api \<Rightarrow> (error_code \<Rightarrow> string) \<Rightarrow> 'k session \<Rightarrow> tunnel_ev list \<Rightarrow>
   tunnel_state \<times> (tunnel_op, error_code \<times> bool) out list" where
  "async_tunnel api ec_message client evs =
     coro_run (tunnel_resume api ec_message (ms_is_ssl (se_stream client))) tunnel_init (Tunnel_start # evs)"

end
