(* ===== verification/Tunnel_Properties.thy ===== *)
theory Tunnel_Properties
  imports Tunnel
begin

text \<open>
  The properties of the tunnel operation: which requests reach a remote and how, and what
  becomes of the others.
\<close>

lemmas tunnel_defs = tunnel_resume_def tunnel_next_def tunnel_respond_def tunnel_upcall_def tunnel_finish_def
  tunnel_dispatch_def tunnel_connected_def Let_def

lemma tunnel_first:
  "tunnel_resume api ec_message ssl tunnel_init Tunnel_start = (tunnel_init\<lparr>u_pc := T_header\<rparr>, Yield Read_request)"
  by (simp add: tunnel_defs tunnel_init_def)

lemma tunnel_request:
  "u_pc s = T_header \<Longrightarrow> \<not> ec_failed ec \<Longrightarrow> tunnel_resume api ec_message ssl s (Request ec req is_done) =
     tunnel_dispatch api ssl (s\<lparr>u_req := req, u_req_done := is_done\<rparr>)"
  by (simp add: tunnel_resume_def)

subsection \<open>Requests that are served\<close>

text \<open>The parts of the target, and whether the request is one of the two forms the proxy serves.\<close>

abbreviation target_parts :: "http_api \<Rightarrow> message \<Rightarrow> char uri_parts" where
  "target_parts api req \<equiv> parse_uri (ha_run api) (msg_target req)"

definition admitted :: "http_api \<Rightarrow> message \<Rightarrow> bool" where
  "admitted api req \<longleftrightarrow> (msg_method req = ''CONNECT'' \<and> is_authority (target_parts api req)) \<or>
     (is_absolute (target_parts api req) \<and> is_http (target_parts api req))"

text \<open>The service a client session is connected to when the target has the given port.\<close>

definition service_for :: "bool \<Rightarrow> string \<Rightarrow> string" where
  "service_for ssl po = (if po = [] then if ssl then ''https'' else ''http'' else po)"

lemma connect_run:
  assumes "http_lib api" and "simple_host h" "h \<noteq> []" "port_text pt po"
    and "msg_method req = ''CONNECT''" "msg_target req = h @ pt" "ha_parser_keep_alive api req"
  shows "snd (coro_run (tunnel_resume api ec_message ssl) (tunnel_init\<lparr>u_pc := T_header\<rparr>)
      [Request no_error req is_done, On_connect no_error, Responded no_error, On_detect ec is_ssl]) =
    map Yield [Connect h (service_for ssl po), Respond new_response, Detect_client_ssl] @ [Return (no_error, False)]"
proof -
  have p: "parse_uri (ha_run api) (h @ pt) = no_parts\<lparr>up_host := h, up_port := po\<rparr>"
    using parse_uri_authority [OF http_lib.x3 [OF assms(1)] assms(2,4)] .
  then show ?thesis
    using assms(3,5,6,7)
    by (simp add: tunnel_request)
       (simp add: tunnel_defs tunnel_init_def new_response_def is_authority_def is_absolute_def is_http_def
        is_http_impl_def tunnel_service_def service_for_def)
qed

text \<open>
  A \<open>CONNECT\<close> request for a host with an optional port, on a persistent connection, opens
  a tunnel: the client session is connected to exactly this host and port, or to the service
  that belongs to its stream when no port is given; only then the client is told so with
  status 200 and an empty answer, and the tunnel stays open, whatever the look for TLS
  reports.
\<close>

lemma tunnel_connect_opens:
  assumes "http_lib api" and "simple_host h" "h \<noteq> []" "port_text pt po"
    and "msg_method req = ''CONNECT''" "msg_target req = h @ pt" "ha_parser_keep_alive api req"
  shows "snd (async_tunnel api ec_message client
      [Request no_error req is_done, On_connect no_error, Responded no_error, On_detect ec is_ssl]) =
    [Yield Read_request, Yield (Connect h (service_for (ms_is_ssl (se_stream client)) po)),
     Yield (Respond new_response), Yield Detect_client_ssl, Return (no_error, False)]"
  using connect_run [OF assms, of ec_message "ms_is_ssl (se_stream client)"]
  by (simp add: async_tunnel_def tunnel_first)

definition sample_client :: "bool session" where
  "sample_client = session_of_executor True default_opts"

definition sample_connect :: message where
  "sample_connect = empty_message\<lparr>msg_method := ''CONNECT'', msg_target := ''a.b:443''\<rparr>"

lemma tunnel_connect_opens_instance:
  "snd (async_tunnel http_ref (\<lambda>ec. []) sample_client
      [Request no_error sample_connect True, On_connect no_error, Responded no_error, On_detect asio_eof None]) =
    [Yield Read_request, Yield (Connect ''a.b'' ''443''), Yield (Respond new_response), Yield Detect_client_ssl,
     Return (no_error, False)]"
proof -
  have "port_text '':443'' ''443''" "simple_host ''a.b''" "ha_parser_keep_alive http_ref sample_connect"
    by (simp_all add: port_text_def opt_part_def std_isdigit_def less_eq_char_def simple_host_def plain_hostI
        no_digit_def is_reg_char_def is_unreserved_def std_isalpha_def sample_connect_def empty_message_def
        http_ref_def keep_alive_ref_def)
  then show ?thesis
    using tunnel_connect_opens [OF ref_http.http_lib_axioms, of "''a.b''" "'':443''" "''443''" sample_connect]
    by (simp add: sample_connect_def service_for_def)
qed

text \<open>The request that is relayed for an absolute URI.\<close>

context http_lib
begin

lemma field_of_host: "ha_field_of api ''Host'' = host_field"
  using beast_fields.field_of_iff [OF fields, of host_field] by (simp add: iequals_def)

lemma origin_request_facts:
  "msg_method (origin_request api parts req) = msg_method req"
  "msg_version (origin_request api parts req) = msg_version req"
  "msg_target (origin_request api parts req) = origin_target (msg_method req) parts"
  "filter (\<lambda>(k, w). iequals k ''Host'') (msg_fields (origin_request api parts req)) = [(''Host'', origin_host parts)]"
  using keep_alive_start [of False req]
  by (simp_all add: origin_request_def Let_def same_start_def set_single)

lemma origin_request_closes: "\<not> ha_keep_alive api (origin_request api parts req)"
proof -
  let ?m = "(ha_set_keep_alive api False req)\<lparr>msg_target :=
    origin_target (msg_method (ha_set_keep_alive api False req)) parts\<rparr>"
  have "\<not> ha_keep_alive api ?m"
    by (simp add: target_keep_alive keep_alive_set)
  then show ?thesis
    using set_keep_alive [of "''Host''" "origin_host parts" ?m] field_of_host
    by (simp add: origin_request_def Let_def)
qed

lemma origin_request_other:
  assumes "\<not> iequals ''Host'' n" "ha_field_of api n \<noteq> connection"
  shows "filter (\<lambda>(k, w). iequals k n) (msg_fields (origin_request api parts req)) =
    filter (\<lambda>(k, w). iequals k n) (msg_fields req)"
proof -
  let ?req = "ha_set_keep_alive api False req"
  have eq: "filter (\<lambda>(k, w). iequals k n) (without (ha_field_of api) {connection} fs) = filter (\<lambda>(k, w). iequals k n) fs" for fs
  proof -
    have "ha_field_of api k \<noteq> connection" if "iequals k n" for k
      using assms(2) that beast_fields.field_of_iff [OF fields, of connection] by (auto simp: iequals_def)
    then show ?thesis
      by (auto simp: without_def intro!: filter_cong)
  qed
  have "filter (\<lambda>(k, w). iequals k n) (msg_fields ?req) = filter (\<lambda>(k, w). iequals k n) (msg_fields req)"
    using eq [of "msg_fields ?req"] eq [of "msg_fields req"] keep_alive_fields [of False req] by simp
  with set_other [OF assms(1)] show ?thesis
    by (simp add: origin_request_def Let_def)
qed

end

text \<open>
  C9: a request for an absolute \<open>http\<close> or \<open>https\<close> URI without a fragment, whose host is an
  IPv4 address or a registered name that does not start with one, is relayed as a request in
  origin form when the connection and the relay succeed: the remote is connected at the host and port of the URI, or at the
  service that belongs to the stream of the client session when there is no port; the target
  is the path and the query, \<open>/\<close> or \<open>*\<close> for an empty path; the only \<open>Host\<close> field is that of
  the URI; all other fields are kept, apart from \<open>Connection\<close>, which asks for the connection to
  be closed. The tunnel is then closed.
\<close>

theorem tunnel_absolute_relays:
  assumes "http_lib api" and "s \<in> {''http'', ''https''}" "userinfo_part ut" "simple_host h"
    and "opt_part CHR '':'' (list_all std_isdigit) pt po" "abempty pa" "tail_form t q []"
    and "msg_target req = s @ '':'' @ ''//'' @ ut @ h @ pt @ pa @ t"
  shows "\<exists>m. snd (async_tunnel api ec_message client
      [Request no_error req is_done, On_connect no_error, On_relay no_error close]) =
      [Yield Read_request,
       Yield (Connect h (service_for (ms_is_ssl (se_stream client)) po)),
       Yield (Relay_request m is_done), Return (no_error, True)] \<and>
    msg_method m = msg_method req \<and> \<not> ha_keep_alive api m \<and>
    msg_target m = (if pa \<noteq> [] then pa else if msg_method req = ''OPTIONS'' then ''*'' else ''/'') @
      (if q = [] then [] else ''?'' @ q) \<and>
    filter (\<lambda>(k, w). iequals k ''Host'') (msg_fields m) = [(''Host'', h @ (if po = [] then [] else '':'' @ po))] \<and>
    (\<forall>n. \<not> iequals ''Host'' n \<longrightarrow> ha_field_of api n \<noteq> connection \<longrightarrow>
       filter (\<lambda>(k, w). iequals k n) (msg_fields m) = filter (\<lambda>(k, w). iequals k n) (msg_fields req))"
proof -
  let ?p = "\<lparr>up_scheme = s, up_host = h, up_port = po, up_path = pa, up_query = q, up_fragment = []\<rparr>"
  let ?m = "origin_request api ?p req"
  have "scheme_ok s"
    using assms(2) by (auto simp: scheme_ok_def std_isalpha_def is_scheme_char_def less_eq_char_def)
  then have p: "parse_uri (ha_run api) (msg_target req) = ?p"
    using parse_uri_complete [OF http_lib.x3 [OF assms(1)] _ assms(3-7)] assms(8) by simp
  have "s \<noteq> []"
    using assms(2) by auto
  then have "snd (async_tunnel api ec_message client
      [Request no_error req is_done, On_connect no_error, On_relay no_error close]) =
      [Yield Read_request,
       Yield (Connect h (service_for (ms_is_ssl (se_stream client)) po)),
       Yield (Relay_request ?m is_done), Return (no_error, True)]"
    using assms(2)
    by (simp add: async_tunnel_def tunnel_first tunnel_request)
       (auto simp: tunnel_defs tunnel_init_def is_authority_def is_absolute_def is_http_def is_http_impl_def
        tunnel_service_def service_for_def p)
  then show ?thesis
    using http_lib.origin_request_facts [OF assms(1), of ?p req] http_lib.origin_request_closes [OF assms(1), of ?p req]
      http_lib.origin_request_other [OF assms(1), where req = req and parts = ?p]
    by (intro exI [of _ ?m]) (auto simp: origin_target_def origin_host_def Let_def)
qed

definition sample_get :: message where
  "sample_get = empty_message\<lparr>msg_method := ''GET'', msg_target := ''http://a.b/x'', msg_fields := [(''Host'', ''c'')]\<rparr>"

theorem tunnel_absolute_relays_witness:
  "\<exists>m. Yield (Relay_request m True) \<in> set (snd (async_tunnel http_ref (\<lambda>ec. []) sample_client
      [Request no_error sample_get True, On_connect no_error, On_relay no_error True])) \<and> msg_target m = ''/x''"
proof -
  have "userinfo_part []" "simple_host ''a.b''" "opt_part CHR '':'' (list_all std_isdigit) [] []" "abempty ''/x''"
    by (simp_all add: opt_part_def std_isdigit_def less_eq_char_def simple_host_def plain_hostI
        no_digit_def is_reg_char_def is_unreserved_def std_isalpha_def userinfo_part_def abempty_def
        is_abpath_char_def is_path_char_def)
  then show ?thesis
    using tunnel_absolute_relays [OF ref_http.http_lib_axioms _ _ _ _ _ tail_form_none,
        of "''http''" "[]" "''a.b''" "[]" "[]" "''/x''" sample_get "\<lambda>ec. []" sample_client True True]
    by (fastforce simp: sample_get_def)
qed

subsection \<open>What a remote is connected for\<close>

text \<open>
  The event behind an output: a connection is made only for an admitted request, and a request
  is relayed or a tunnel announced only on a successful connection.
\<close>

definition tunnel_cause :: "http_api \<Rightarrow> bool \<Rightarrow> tunnel_ev \<Rightarrow> (tunnel_op, error_code \<times> bool) out \<Rightarrow> bool" where
  "tunnel_cause api ssl e out =
     (case out of
        Yield (Connect h service) \<Rightarrow>
          (case e of Request ec req is_done \<Rightarrow> \<not> ec_failed ec \<and> admitted api req \<and>
             (msg_method req = ''CONNECT'' \<and> is_authority (target_parts api req) \<longrightarrow> ha_parser_keep_alive api req) \<and>
             h = up_host (target_parts api req) \<and> service = tunnel_service ssl (target_parts api req)
           | _ \<Rightarrow> False)
      | Yield (Relay_request m is_done) \<Rightarrow> (case e of On_connect ec \<Rightarrow> \<not> ec_failed ec | _ \<Rightarrow> False)
      | Yield (Respond r) \<Rightarrow> rs_status r = 400 \<or> (case e of On_connect ec \<Rightarrow> \<not> ec_failed ec | _ \<Rightarrow> False)
      | _ \<Rightarrow> True)"

interpretation tunnel_causes: coro_rel "tunnel_resume api ec_message ssl" "tunnel_cause api ssl" for api ec_message ssl
proof
  fix s e s' out
  assume "tunnel_resume api ec_message ssl s e = (s', out)"
  then show "tunnel_cause api ssl e out"
    by (auto simp: tunnel_defs tunnel_cause_def admitted_def split: tunnel_pc.splits tunnel_ev.splits if_splits)
qed

text \<open>
  C8: in every run of the tunnel, a remote is connected only in answer to a request that is a
  \<open>CONNECT\<close> with an authority on a persistent connection or has an absolute \<open>http\<close> or
  \<open>https\<close> URI, at the host and port of its target; and a request is relayed, or any other
  status than 400 announced to the client, only in answer to a successful connection.
\<close>

theorem tunnel_connects_only_admitted:
  "list_all2 (tunnel_cause api (ms_is_ssl (se_stream client)))
     (take (length (snd (async_tunnel api ec_message client evs))) (Tunnel_start # evs))
     (snd (async_tunnel api ec_message client evs))"
  unfolding async_tunnel_def by (rule tunnel_causes.run_rel)

subsection \<open>Requests that are refused\<close>

definition refusal :: response where
  "refusal = \<lparr>rs_status = 400, rs_body = malformed_text, rs_payload = True\<rparr>"

lemma tunnel_refuses:
  assumes "u_pc s = T_header" "\<not> admitted api req"
  shows "\<exists>s'. tunnel_resume api ec_message ssl s (Request no_error req is_done) = (s', Yield (Respond refusal)) \<and>
    u_pc s' = T_malformed \<and> u_req s' = req \<and> u_close_tunnel s' = u_close_tunnel s \<and> u_is_ssl s' = u_is_ssl s"
  using assms by (auto simp: tunnel_request tunnel_defs refusal_def admitted_def)

text \<open>At the head of the loop only two fields of the state matter.\<close>

definition same_head :: "tunnel_state \<Rightarrow> tunnel_state \<Rightarrow> bool" where
  "same_head s t \<longleftrightarrow> u_pc s = T_header \<and> u_pc t = T_header \<and> u_response s = u_response t \<and>
     u_is_ssl s = u_is_ssl t \<and> u_close_tunnel s = u_close_tunnel t"

lemma same_head_run:
  assumes "same_head s t"
  shows "snd (coro_run (tunnel_resume api ec_message ssl) s evs) = snd (coro_run (tunnel_resume api ec_message ssl) t evs)"
proof (cases evs)
  case (Cons e es)
  show ?thesis
  proof (cases "\<exists>ec req d. e = Request ec req d \<and> \<not> ec_failed ec")
    case True
    then obtain ec req d where e: "e = Request ec req d" "\<not> ec_failed ec"
      by auto
    have "tunnel_dispatch api ssl (s\<lparr>u_req := req, u_req_done := d\<rparr>) =
        tunnel_dispatch api ssl (t\<lparr>u_req := req, u_req_done := d\<rparr>)"
      using assms by (cases s; cases t) (simp add: same_head_def tunnel_dispatch_def tunnel_respond_def Let_def)
    with e Cons assms show ?thesis
      by (simp add: tunnel_request same_head_def)
  next
    case False
    with Cons assms show ?thesis
      by (cases e) (auto simp: same_head_def tunnel_resume_def tunnel_upcall_def)
  qed
qed simp

lemma tunnel_refuses_and_reads:
  assumes "same_head s (tunnel_init\<lparr>u_pc := T_header\<rparr>)" "\<not> admitted api req" "ha_parser_keep_alive api req"
  shows "\<exists>s'. coro_run (tunnel_resume api ec_message ssl) s (Request no_error req is_done # Responded no_error # evs) =
      apsnd ((@) [Yield (Respond refusal), Yield Read_request]) (coro_run (tunnel_resume api ec_message ssl) s' evs) \<and>
    same_head s' (tunnel_init\<lparr>u_pc := T_header\<rparr>)"
proof -
  have "u_pc s = T_header"
    using assms(1) by (simp add: same_head_def)
  from tunnel_refuses [OF this assms(2), of ec_message ssl is_done] obtain t
    where t: "tunnel_resume api ec_message ssl s (Request no_error req is_done) = (t, Yield (Respond refusal))"
      "u_pc t = T_malformed" "u_req t = req" "u_close_tunnel t = u_close_tunnel s" "u_is_ssl t = u_is_ssl s"
    by blast
  let ?u = "t\<lparr>u_req := empty_message, u_req_done := False, u_response := new_response, u_pc := T_header\<rparr>"
  have "tunnel_resume api ec_message ssl t (Responded no_error) = (?u, Yield Read_request)"
    using t assms(3) by (simp add: tunnel_resume_def tunnel_next_def)
  moreover have "same_head ?u (tunnel_init\<lparr>u_pc := T_header\<rparr>)"
    using t assms(1) by (simp add: same_head_def tunnel_init_def)
  ultimately show ?thesis
    using t(1) by (intro exI [of _ ?u]) (simp add: apsnd_def map_prod_def split: prod.split)
qed

text \<open>
  C19: requests without a body that are neither form and come on a persistent connection are
  each answered with status 400, and when these responses can be written they leave no trace:
  after any number of them the tunnel treats what follows exactly as if it had come first.
  (The body of a refused request would not be skipped: see \<open>refused_body_unread\<close>.)
\<close>

theorem tunnel_retries:
  assumes "list_all (\<lambda>req. \<not> admitted api req \<and> ha_parser_keep_alive api req) reqs"
  shows "snd (async_tunnel api ec_message client
      (concat (map (\<lambda>req. [Request no_error req True, Responded no_error]) reqs) @ evs)) =
    Yield Read_request # concat (map (\<lambda>req. [Yield (Respond refusal), Yield Read_request]) reqs) @
    tl (snd (async_tunnel api ec_message client evs))"
proof -
  let ?run = "coro_run (tunnel_resume api ec_message (ms_is_ssl (se_stream client)))"
  let ?h = "tunnel_init\<lparr>u_pc := T_header\<rparr>"
  have "snd (?run s (concat (map (\<lambda>req. [Request no_error req True, Responded no_error]) reqs) @ evs)) =
      concat (map (\<lambda>req. [Yield (Respond refusal), Yield Read_request]) reqs) @ snd (?run ?h evs)"
    if "same_head s ?h" for s
    using assms that
  proof (induction reqs arbitrary: s)
    case (Cons req reqs)
    from Cons.prems tunnel_refuses_and_reads [OF Cons.prems(2), of api req] obtain s' where s':
      "?run s (Request no_error req True # Responded no_error #
          concat (map (\<lambda>req. [Request no_error req True, Responded no_error]) reqs) @ evs) =
        apsnd ((@) [Yield (Respond refusal), Yield Read_request])
          (?run s' (concat (map (\<lambda>req. [Request no_error req True, Responded no_error]) reqs) @ evs))"
      "same_head s' ?h"
      by force
    with Cons.IH [OF _ s'(2)] Cons.prems(1) show ?case
      by (simp del: coro_run.simps)
  qed (simp add: same_head_run)
  from this [of ?h] show ?thesis
    by (simp add: async_tunnel_def tunnel_first same_head_def)
qed

text \<open>
  The tunnel reads headers only. After a refused request whose parser is not done, that is whose
  body is still unread, the next operation is again the reading of a request header, with a new
  parser: the bytes of the body are taken for the next request.
\<close>

lemma refused_body_unread:
  assumes "u_pc s = T_header" "\<not> admitted api req" "ha_parser_keep_alive api req"
  shows "\<exists>s'. coro_run (tunnel_resume api ec_message ssl) s [Request no_error req False, Responded no_error] =
      (s', [Yield (Respond refusal), Yield Read_request]) \<and> \<not> u_req_done s' \<and> u_req s' = empty_message"
proof -
  obtain t where "tunnel_resume api ec_message ssl s (Request no_error req False) = (t, Yield (Respond refusal))"
    "u_pc t = T_malformed" "u_req t = req"
    using tunnel_refuses [OF assms(1,2)] by blast
  then show ?thesis
    using assms(3) by (simp add: tunnel_resume_def [of _ _ _ t] tunnel_next_def)
qed

definition sample_origin :: message where
  "sample_origin = empty_message\<lparr>msg_method := ''GET'', msg_target := ''/x''\<rparr>"

lemma sample_origin_refused: "\<not> admitted http_ref sample_origin" "ha_parser_keep_alive http_ref sample_origin"
  by code_simp+

theorem tunnel_retries_witness:
  "snd (async_tunnel http_ref (\<lambda>ec. []) sample_client [Request no_error sample_origin True, Responded no_error,
      Request asio_eof empty_message False]) =
    [Yield Read_request, Yield (Respond refusal), Yield Read_request, Return (asio_eof, False)]"
proof -
  have "tl (snd (async_tunnel http_ref (\<lambda>ec. []) sample_client [Request asio_eof empty_message False])) = [Return (asio_eof, False)]"
    by (simp add: async_tunnel_def tunnel_first) (simp add: tunnel_defs tunnel_init_def)
  then show ?thesis
    using tunnel_retries [of http_ref "[sample_origin]" "\<lambda>ec. []" sample_client "[Request asio_eof empty_message False]"]
      sample_origin_refused by simp
qed

subsection \<open>Refusals on a connection that does not persist\<close>

lemma refused_run:
  assumes "\<not> admitted api req" "\<not> ha_parser_keep_alive api req"
  shows "snd (coro_run (tunnel_resume api ec_message ssl) (tunnel_init\<lparr>u_pc := T_header\<rparr>)
      [Request no_error req is_done, Responded no_error, On_detect ec is_ssl]) =
    map Yield [Respond refusal, Detect_client_ssl] @ [Return (no_error, False)]"
proof -
  let ?h = "tunnel_init\<lparr>u_pc := T_header\<rparr>"
  obtain s where "tunnel_resume api ec_message ssl ?h (Request no_error req is_done) = (s, Yield (Respond refusal))"
    "u_pc s = T_malformed" "u_req s = req" "u_close_tunnel s = u_close_tunnel ?h"
    using tunnel_refuses [OF _ assms(1), of ?h ec_message ssl is_done] by auto
  then show ?thesis
    using assms(2) by (simp add: tunnel_resume_def [of _ _ _ s] tunnel_finish_def)
       (simp add: tunnel_resume_def tunnel_init_def)
qed

text \<open>
  How the tunnel ends with a client that does not keep its connection. A \<open>CONNECT\<close> is
  refused and the connection is to be closed; but any other request that is not served is
  refused and the tunnel then completes without an error and without the mark for closing,
  exactly like a tunnel that has been opened.
\<close>

lemma tunnel_refused_but_open:
  assumes "\<not> ha_parser_keep_alive api req" "\<not> (is_absolute (target_parts api req) \<and> is_http (target_parts api req))"
  shows "snd (async_tunnel api ec_message client [Request no_error req is_done, Responded no_error, On_detect ec is_ssl]) =
    (if msg_method req = ''CONNECT'' \<and> is_authority (target_parts api req)
     then [Yield Read_request, Yield (Respond \<lparr>rs_status = 400, rs_body = no_persistence_text, rs_payload = True\<rparr>),
           Return (no_error, True)]
     else [Yield Read_request, Yield (Respond refusal), Yield Detect_client_ssl, Return (no_error, False)])"
proof (cases "msg_method req = ''CONNECT'' \<and> is_authority (target_parts api req)")
  case True
  with assms show ?thesis
    by (simp add: async_tunnel_def tunnel_first tunnel_request)
       (simp add: tunnel_defs tunnel_init_def)
next
  case False
  with assms(2) have "\<not> admitted api req"
    by (simp add: admitted_def)
  with False refused_run [OF this assms(1)] show ?thesis
    by (simp add: async_tunnel_def tunnel_first)
qed

lemma tunnel_refused_but_open_instance:
  "snd (async_tunnel http_ref (\<lambda>ec. []) sample_client
      [Request no_error (sample_origin\<lparr>msg_fields := [(''Connection'', ''close'')]\<rparr>) True, Responded no_error,
       On_detect asio_eof None]) =
    [Yield Read_request, Yield (Respond refusal), Yield Detect_client_ssl, Return (no_error, False)]"
proof -
  let ?req = "sample_origin\<lparr>msg_fields := [(''Connection'', ''close'')]\<rparr>"
  have "\<not> ha_parser_keep_alive http_ref ?req" "\<not> (is_absolute (target_parts http_ref ?req) \<and> is_http (target_parts http_ref ?req))"
    "msg_method ?req \<noteq> ''CONNECT''"
    by code_simp+
  then show ?thesis
    using tunnel_refused_but_open [of http_ref ?req] by simp
qed

end
