(* ===== verification/Foxy_Log.thy ===== *)
theory Foxy_Log
  imports Foxy_Error
begin

text \<open>
  \<^verbatim>\<open>src/log.cpp\<close>: what is written to the standard error stream. The text of an error code
  comes from its category: \<open>ec_message\<close> is a parameter.
\<close>

definition log_error :: "(error_code \<Rightarrow> string) \<Rightarrow> error_code \<Rightarrow> string \<Rightarrow> string" where
  "log_error ec_message ec what =
     (if ec = stream_truncated then [] else what @ '' : '' @ ec_message ec @ [CHR 0x0A])"

lemma log_error_silent: "log_error ec_message ec what = [] \<longleftrightarrow> ec = stream_truncated"
  by (simp add: log_error_def)

end
