(* ===== verification/Proxy.thy ===== *)
theory Proxy
  imports Tunnel Foxy_Log
begin

text \<open>
  \<^verbatim>\<open>src/proxy.cpp\<close>: the coroutine that serves one connection of the proxy, its composition with
  the coroutines it starts, and the accept loop of the proxy.
\<close>

subsection \<open>One connection\<close>

datatype connection_pc = P_start | P_tunnel | P_relay | P_session_down | P_client_down

text \<open>\<open>cn_log\<close> is what the connection has written to the standard error stream.\<close>

record 'k conn =
  cn_pc :: connection_pc
  cn_session :: "'k session"
  cn_client :: "'k session"
  cn_log :: string

definition connection_new :: "'k \<Rightarrow> 'k multi_stream \<Rightarrow> session_opts \<Rightarrow> 'k conn" where
  "connection_new new_socket stream client_opts =
     \<lparr>cn_pc = P_start, cn_session = server_session_new stream default_opts,
      cn_client = client_session_new new_socket client_opts, cn_log = []\<rparr>"

datatype connection_op = Do_tunnel | Do_relay | Do_session_shutdown | Do_client_shutdown

datatype connection_ev = Begin | Completed error_code bool

text \<open>An end of file is not worth a message: its value is set to zero.\<close>

definition connection_report :: "(error_code \<Rightarrow> string) \<Rightarrow> error_code \<Rightarrow> 'k conn \<Rightarrow> 'k conn" where
  "connection_report ec_message ec c =
     (let ec = (if ec = asio_eof then ec\<lparr>ec_value := 0\<rparr> else ec)
      in if ec_failed ec then c\<lparr>cn_log := cn_log c @ log_error ec_message ec ''proxy client shutdown''\<rparr> else c)"

definition connection_resume ::
  "(error_code \<Rightarrow> string) \<Rightarrow> 'k conn \<Rightarrow> connection_ev \<Rightarrow> 'k conn \<times> (connection_op, unit) out" where
  "connection_resume ec_message c ev =
     (case (cn_pc c, ev) of
        (P_start, Begin) \<Rightarrow> (c\<lparr>cn_pc := P_tunnel\<rparr>, Yield Do_tunnel)
      | (P_tunnel, Completed ec close_tunnel) \<Rightarrow>
          if ec_failed ec then (c\<lparr>cn_pc := P_session_down\<rparr>, Yield Do_session_shutdown)
          else if close_tunnel then (c\<lparr>cn_pc := P_session_down\<rparr>, Yield Do_session_shutdown)
          else (c\<lparr>cn_pc := P_relay\<rparr>, Yield Do_relay)
      | (P_relay, Completed ec close_tunnel) \<Rightarrow>
          if ec_failed ec then (c\<lparr>cn_pc := P_session_down\<rparr>, Yield Do_session_shutdown)
          else if close_tunnel then (c\<lparr>cn_pc := P_session_down\<rparr>, Yield Do_session_shutdown)
          else (c\<lparr>cn_pc := P_tunnel\<rparr>, Yield Do_tunnel)
      | (P_session_down, Completed ec _) \<Rightarrow> (c\<lparr>cn_pc := P_client_down\<rparr>, Yield Do_client_shutdown)
      | (P_client_down, Completed ec _) \<Rightarrow> (connection_report ec_message ec c, Return ())
      | _ \<Rightarrow> (c, Mismatch))"

subsection \<open>The connection with the operations it starts\<close>

text \<open>
  The operation that runs on behalf of the connection. While a tunnel relays a request for an
  absolute URI, the relay runs inside the tunnel. The sessions are those of the connection.
\<close>

datatype 'k inner =
    No_inner
  | In_tunnel tunnel_state
  | In_tunnel_relay tunnel_state relay_state
  | In_relay relay_state
  | In_session "pc \<times> 'k session"
  | In_client "pc \<times> 'k session"

datatype proxy_op = Op_tunnel tunnel_op | Op_relay relay_op | Op_session net_op | Op_client net_op

datatype proxy_ev = Ev_begin | Ev_tunnel tunnel_ev | Ev_relay relay_ev | Ev_session net_ev | Ev_client net_ev

type_synonym 'k proxy_st = "'k conn \<times> 'k inner"

text \<open>
  An operation that runs inside another one: what it yields is yielded by the whole, and when
  it completes, \<open>ret\<close> goes on with its result.
\<close>

definition nest ::
  "('op \<Rightarrow> 'op2) \<Rightarrow> ('s \<Rightarrow> 't) \<Rightarrow> ('s \<Rightarrow> 'r \<Rightarrow> 't \<times> ('op2, 'r2) out) \<Rightarrow> 's \<times> ('op, 'r) out \<Rightarrow> 't \<times> ('op2, 'r2) out" where
  "nest wrap keep ret step =
     (case step of
        (s, Yield op) \<Rightarrow> (keep s, Yield (wrap op))
      | (s, Return r) \<Rightarrow> ret s r
      | (s, Throw ec) \<Rightarrow> (keep s, Throw ec)
      | (s, Terminate) \<Rightarrow> (keep s, Terminate)
      | (s, Mismatch) \<Rightarrow> (keep s, Mismatch))"

text \<open>The parameters of the whole: Beast, the messages of error codes, the sockets.\<close>

record 'k proxy_env =
  pe_http :: http_api
  pe_message :: "error_code \<Rightarrow> string"
  pe_socket :: "'k socket_api"

definition px_done :: "'k proxy_env \<Rightarrow> 'k conn \<Rightarrow> error_code \<Rightarrow> 'k proxy_st \<times> (proxy_op, unit) out" where
  "px_done env c ec =
     (case connection_resume (pe_message env) c (Completed ec False) of
        (c, Return r) \<Rightarrow> ((c, No_inner), Return r)
      | (c, _) \<Rightarrow> ((c, No_inner), Mismatch))"

definition px_client_step ::
  "'k proxy_env \<Rightarrow> 'k conn \<Rightarrow> pc \<times> 'k session \<Rightarrow> net_ev \<Rightarrow> 'k proxy_st \<times> (proxy_op, unit) out" where
  "px_client_step env c st ev =
     nest Op_client (\<lambda>st. (c\<lparr>cn_client := snd st\<rparr>, In_client st))
       (\<lambda>st ec. px_done env (c\<lparr>cn_client := snd st\<rparr>) ec) (client_async_shutdown (pe_socket env) st ev)"

text \<open>The next operation that the connection asks for after \<open>async_shutdown\<close> of its session.\<close>

definition px_session_step ::
  "'k proxy_env \<Rightarrow> 'k conn \<Rightarrow> pc \<times> 'k session \<Rightarrow> net_ev \<Rightarrow> 'k proxy_st \<times> (proxy_op, unit) out" where
  "px_session_step env c st ev =
     nest Op_session (\<lambda>st. (c\<lparr>cn_session := snd st\<rparr>, In_session st))
       (\<lambda>st ec. case connection_resume (pe_message env) (c\<lparr>cn_session := snd st\<rparr>) (Completed ec False) of
          (c, Yield Do_client_shutdown) \<Rightarrow> px_client_step env c (At_start, cn_client c) Start
        | (c, out) \<Rightarrow> ((c, No_inner), Mismatch))
       (server_async_shutdown (pe_socket env) st ev)"

text \<open>The connection goes on after a tunnel or a relay has completed, or at its start.\<close>

definition px_resume_connection ::
  "'k proxy_env \<Rightarrow> 'k conn \<Rightarrow> connection_ev \<Rightarrow> 'k proxy_st \<times> (proxy_op, unit) out" where
  "px_resume_connection env c ev =
     (case connection_resume (pe_message env) c ev of
        (c, Yield Do_tunnel) \<Rightarrow>
          nest Op_tunnel (\<lambda>t. (c, In_tunnel t)) (\<lambda>t r. ((c, In_tunnel t), Mismatch))
            (tunnel_resume (pe_http env) (pe_message env) (ms_is_ssl (se_stream (cn_client c))) tunnel_init Tunnel_start)
      | (c, Yield Do_relay) \<Rightarrow>
          nest Op_relay (\<lambda>r. (c, In_relay r)) (\<lambda>r x. ((c, In_relay r), Mismatch))
            (relay_resume (pe_http env) relay_init Relay_start)
      | (c, Yield Do_session_shutdown) \<Rightarrow> px_session_step env c (At_start, cn_session c) Start
      | (c, Yield Do_client_shutdown) \<Rightarrow> px_client_step env c (At_start, cn_client c) Start
      | (c, Return r) \<Rightarrow> ((c, No_inner), Return r)
      | (c, _) \<Rightarrow> ((c, No_inner), Mismatch))"

definition px_relay_step ::
  "'k proxy_env \<Rightarrow> 'k conn \<Rightarrow> relay_state \<Rightarrow> relay_ev \<Rightarrow> 'k proxy_st \<times> (proxy_op, unit) out" where
  "px_relay_step env c r ev =
     nest Op_relay (\<lambda>r. (c, In_relay r)) (\<lambda>r (ec, close). px_resume_connection env c (Completed ec close))
       (relay_resume (pe_http env) r ev)"

text \<open>A tunnel that has completed, and the relay inside a tunnel.\<close>

definition px_tunnel_back ::
  "'k proxy_env \<Rightarrow> 'k conn \<Rightarrow> tunnel_state \<Rightarrow> tunnel_ev \<Rightarrow> 'k proxy_st \<times> (proxy_op, unit) out" where
  "px_tunnel_back env c t ev =
     nest Op_tunnel (\<lambda>t. (c, In_tunnel t)) (\<lambda>t (ec, close). px_resume_connection env c (Completed ec close))
       (tunnel_resume (pe_http env) (pe_message env) (ms_is_ssl (se_stream (cn_client c))) t ev)"

definition px_tunnel_relay_step ::
  "'k proxy_env \<Rightarrow> 'k conn \<Rightarrow> tunnel_state \<Rightarrow> relay_state \<Rightarrow> relay_ev \<Rightarrow> 'k proxy_st \<times> (proxy_op, unit) out" where
  "px_tunnel_relay_step env c t r ev =
     nest Op_relay (\<lambda>r. (c, In_tunnel_relay t r)) (\<lambda>r (ec, close). px_tunnel_back env c t (On_relay ec close))
       (relay_resume (pe_http env) r ev)"

definition px_tunnel_step ::
  "'k proxy_env \<Rightarrow> 'k conn \<Rightarrow> tunnel_state \<Rightarrow> tunnel_ev \<Rightarrow> 'k proxy_st \<times> (proxy_op, unit) out" where
  "px_tunnel_step env c t ev =
     (case tunnel_resume (pe_http env) (pe_message env) (ms_is_ssl (se_stream (cn_client c))) t ev of
        (t, Yield (Relay_request m is_done)) \<Rightarrow>
          px_tunnel_relay_step env c t (relay_init_parser m is_done) Relay_start
      | step \<Rightarrow>
          nest Op_tunnel (\<lambda>t. (c, In_tunnel t)) (\<lambda>t (ec, close). px_resume_connection env c (Completed ec close)) step)"

fun proxy_resume :: "'k proxy_env \<Rightarrow> 'k proxy_st \<Rightarrow> proxy_ev \<Rightarrow> 'k proxy_st \<times> (proxy_op, unit) out" where
  "proxy_resume env (c, No_inner) Ev_begin = px_resume_connection env c Begin"
| "proxy_resume env (c, In_tunnel t) (Ev_tunnel ev) = px_tunnel_step env c t ev"
| "proxy_resume env (c, In_tunnel_relay t r) (Ev_relay ev) = px_tunnel_relay_step env c t r ev"
| "proxy_resume env (c, In_relay r) (Ev_relay ev) = px_relay_step env c r ev"
| "proxy_resume env (c, In_session st) (Ev_session ev) = px_session_step env c st ev"
| "proxy_resume env (c, In_client st) (Ev_client ev) = px_client_step env c st ev"
| "proxy_resume env st ev = (st, Mismatch)"

definition proxy_connection :: "'k proxy_env \<Rightarrow> 'k \<Rightarrow> 'k multi_stream \<Rightarrow> session_opts \<Rightarrow> proxy_ev list \<Rightarrow>
    'k proxy_st \<times> (proxy_op, unit) out list" where
  "proxy_connection env new_socket stream client_opts evs =
     coro_run (proxy_resume env) (connection_new new_socket stream client_opts, No_inner) (Ev_begin # evs)"

end
