(* ===== verification/Proxy_Properties.thy ===== *)
theory Proxy_Properties
  imports Proxy Session_Properties Relay_Properties Tunnel_Properties
begin

text \<open>
  The properties of a connection of the proxy, with the tunnels, relays and shutdowns it runs.
\<close>

subsection \<open>The end of a connection\<close>

lemmas px_defs = px_done_def px_client_step_def px_session_step_def px_resume_connection_def px_relay_step_def
  px_tunnel_back_def px_tunnel_relay_step_def px_tunnel_step_def nest_def

lemma map_plain_ssl [simp]: "ms_is_ssl (ms_map_plain f ms) = ms_is_ssl ms"
  by (cases ms) simp_all

lemma shutdown_and_close_ssl:
  "shutdown_and_close api how s = (s', ec) \<Longrightarrow> ms_is_ssl (se_stream s') = ms_is_ssl (se_stream s)"
  by (auto simp: shutdown_and_close_def Let_def split: prod.splits)

lemma server_shutdown_return:
  assumes "socket_lib api" "server_async_shutdown api (pc, s) ev = ((pc', s'), Return ec)"
  shows "\<not> sk_is_open api (ms_plain (se_stream s'))"
  using assms(2) by (cases "(api, (pc, s), ev)" rule: server_async_shutdown.cases)
    (auto simp: server_half_close_def split: if_splits prod.splits dest: close_closed [OF assms(1)])

lemma client_shutdown_step:
  assumes "client_async_shutdown api (pc, s) ev = ((pc', s'), out)"
  shows "ms_is_ssl (se_stream s') = ms_is_ssl (se_stream s)"
  using assms by (cases "(api, (pc, s), ev)" rule: client_async_shutdown.cases)
    (auto simp: Let_def split: if_splits prod.splits dest: shutdown_and_close_ssl)

lemma client_shutdown_return:
  assumes "socket_lib api" "client_async_shutdown api (pc, s) ev = ((pc', s'), Return ec)"
  shows "\<not> sk_is_open api (ms_plain (se_stream s')) \<or> ms_is_ssl (se_stream s') \<or> pc \<noteq> At_start"
  using assms(2) by (cases "(api, (pc, s), ev)" rule: client_async_shutdown.cases)
    (auto simp: Let_def split: if_splits prod.splits dest: close_closed [OF assms(1)])

definition server_closed :: "'k proxy_env \<Rightarrow> 'k conn \<Rightarrow> bool" where
  "server_closed env c \<longleftrightarrow> \<not> sk_is_open (pe_socket env) (ms_plain (se_stream (cn_session c)))"

definition client_closed :: "'k proxy_env \<Rightarrow> 'k conn \<Rightarrow> bool" where
  "client_closed env c \<longleftrightarrow> \<not> sk_is_open (pe_socket env) (ms_plain (se_stream (cn_client c)))"

abbreviation client_ssl :: "'k conn \<Rightarrow> bool" where
  "client_ssl c \<equiv> ms_is_ssl (se_stream (cn_client c))"

text \<open>
  Where the connection is while an operation runs for it; a client session is shut down only
  when the server session has been closed, and in the midst of it only when it is encrypted.
\<close>

definition px_inv :: "'k proxy_env \<Rightarrow> bool \<Rightarrow> 'k proxy_st \<Rightarrow> bool" where
  "px_inv env ssl st \<longleftrightarrow> client_ssl (fst st) = ssl \<and>
     (case snd st of
        No_inner \<Rightarrow> cn_pc (fst st) = P_start
      | In_tunnel t \<Rightarrow> cn_pc (fst st) = P_tunnel
      | In_tunnel_relay t r \<Rightarrow> cn_pc (fst st) = P_tunnel
      | In_relay r \<Rightarrow> cn_pc (fst st) = P_relay
      | In_session s \<Rightarrow> cn_pc (fst st) = P_session_down
      | In_client s \<Rightarrow> cn_pc (fst st) = P_client_down \<and> server_closed env (fst st) \<and>
          ms_is_ssl (se_stream (snd s)) \<and> ssl)"

definition px_fin :: "'k proxy_env \<Rightarrow> bool \<Rightarrow> 'k proxy_st \<Rightarrow> bool" where
  "px_fin env ssl st \<longleftrightarrow> server_closed env (fst st) \<and> (\<not> ssl \<longrightarrow> client_closed env (fst st))"

definition px_ok :: "'k proxy_env \<Rightarrow> bool \<Rightarrow> 'k proxy_st \<times> (proxy_op, unit) out \<Rightarrow> bool" where
  "px_ok env ssl step = (case step of (st, Yield op) \<Rightarrow> px_inv env ssl st | (st, Return _) \<Rightarrow> px_fin env ssl st | _ \<Rightarrow> True)"

lemma px_ok_simps [simp]:
  "px_ok env ssl (st, Yield op) = px_inv env ssl st" "px_ok env ssl (st, Return r) = px_fin env ssl st"
  "px_ok env ssl (st, Throw ec)" "px_ok env ssl (st, Terminate)" "px_ok env ssl (st, Mismatch)"
  by (simp_all add: px_ok_def)

lemma px_inv_simps [simp]:
  "px_inv env ssl (c, No_inner) \<longleftrightarrow> client_ssl c = ssl \<and> cn_pc c = P_start"
  "px_inv env ssl (c, In_tunnel t) \<longleftrightarrow> client_ssl c = ssl \<and> cn_pc c = P_tunnel"
  "px_inv env ssl (c, In_tunnel_relay t r) \<longleftrightarrow> client_ssl c = ssl \<and> cn_pc c = P_tunnel"
  "px_inv env ssl (c, In_relay r) \<longleftrightarrow> client_ssl c = ssl \<and> cn_pc c = P_relay"
  "px_inv env ssl (c, In_session s) \<longleftrightarrow> client_ssl c = ssl \<and> cn_pc c = P_session_down"
  by (simp_all add: px_inv_def)

lemmas px_ok_defs = px_ok_def px_inv_def px_fin_def server_closed_def client_closed_def

lemma px_done_ok:
  "cn_pc c = P_client_down \<Longrightarrow> server_closed env c \<Longrightarrow> (\<not> ssl \<Longrightarrow> client_closed env c) \<Longrightarrow> px_ok env ssl (px_done env c ec)"
  by (auto simp: px_done_def connection_resume_def connection_report_def px_ok_defs Let_def)

lemma px_client_step_ok:
  assumes "socket_lib (pe_socket env)" "cn_pc c = P_client_down" "server_closed env c"
    and "ms_is_ssl (se_stream s) = ssl" "pc \<noteq> At_start \<Longrightarrow> ssl"
  shows "px_ok env ssl (px_client_step env c (pc, s) ev)"
proof -
  obtain pc' s' out where r: "client_async_shutdown (pe_socket env) (pc, s) ev = ((pc', s'), out)"
    by (metis prod.exhaust)
  have ssl: "ms_is_ssl (se_stream s') = ssl"
    using client_shutdown_step [OF r] assms(4) by simp
  show ?thesis
  proof (cases out)
    case (Yield op)
    then have ssl
      using r assms(4,5) by (cases "(pe_socket env, (pc, s), ev)" rule: client_async_shutdown.cases)
        (auto simp: Let_def split: if_splits prod.splits)
    with Yield r assms(2,3) ssl show ?thesis
      by (simp add: px_client_step_def nest_def px_ok_defs)
  next
    case (Return ec)
    have "client_closed env (c\<lparr>cn_client := s'\<rparr>)" if "\<not> ssl"
      using client_shutdown_return [OF assms(1) r [unfolded Return]] that ssl assms(5) by (auto simp: client_closed_def)
    with Return r assms(2,3) show ?thesis
      by (simp add: px_client_step_def nest_def) (intro px_done_ok; simp add: server_closed_def)
  qed (simp_all add: px_client_step_def nest_def r px_ok_def)
qed

lemma px_session_step_ok:
  assumes "socket_lib (pe_socket env)" "cn_pc c = P_session_down" "client_ssl c = ssl"
  shows "px_ok env ssl (px_session_step env c st ev)"
proof -
  obtain pc' s' out where r: "server_async_shutdown (pe_socket env) st ev = ((pc', s'), out)"
    by (metis prod.exhaust)
  show ?thesis
  proof (cases out)
    case (Return ec)
    let ?c = "c\<lparr>cn_session := s', cn_pc := P_client_down\<rparr>"
    have "server_closed env ?c"
      using server_shutdown_return [OF assms(1)] r Return by (cases st) (auto simp: server_closed_def)
    then have "px_ok env ssl (px_client_step env ?c (At_start, cn_client ?c) Start)"
      using assms by (intro px_client_step_ok) simp_all
    then show ?thesis
      using Return r assms(2) by (simp add: px_session_step_def nest_def connection_resume_def)
  qed (simp_all add: px_session_step_def nest_def r px_ok_def px_inv_def assms)
qed

lemma px_resume_connection_ok:
  assumes "socket_lib (pe_socket env)" "cn_pc c \<in> {P_start, P_tunnel, P_relay}" "client_ssl c = ssl"
  shows "px_ok env ssl (px_resume_connection env c ev)"
proof -
  have "px_ok env ssl (px_session_step env (c\<lparr>cn_pc := P_session_down\<rparr>) st e)" for st e
    using assms by (intro px_session_step_ok) simp_all
  then show ?thesis
    using assms(2,3) by (cases ev; cases "cn_pc c")
      (simp_all add: px_resume_connection_def connection_resume_def tunnel_first relay_first nest_def)
qed

lemma px_ok_nest:
  assumes "\<And>s op. step = (s, Yield op) \<Longrightarrow> px_inv env ssl (keep s)"
    and "\<And>s r. step = (s, Return r) \<Longrightarrow> px_ok env ssl (ret s r)"
  shows "px_ok env ssl (nest wrap keep ret step)"
  using assms by (auto simp: nest_def px_ok_def split: prod.split out.split)

lemma px_tunnel_back_ok:
  assumes "socket_lib (pe_socket env)" "cn_pc c = P_tunnel" "client_ssl c = ssl"
  shows "px_ok env ssl (px_tunnel_back env c t ev)"
  unfolding px_tunnel_back_def using assms
  by (intro px_ok_nest) (auto simp: px_inv_def intro: px_resume_connection_ok)

lemma px_tunnel_relay_step_ok:
  assumes "socket_lib (pe_socket env)" "cn_pc c = P_tunnel" "client_ssl c = ssl"
  shows "px_ok env ssl (px_tunnel_relay_step env c t r ev)"
  unfolding px_tunnel_relay_step_def using assms
  by (intro px_ok_nest) (auto simp: px_inv_def intro: px_tunnel_back_ok)

lemma px_relay_step_ok:
  assumes "socket_lib (pe_socket env)" "cn_pc c = P_relay" "client_ssl c = ssl"
  shows "px_ok env ssl (px_relay_step env c r ev)"
  unfolding px_relay_step_def using assms
  by (intro px_ok_nest) (auto simp: px_inv_def intro: px_resume_connection_ok)

lemma px_tunnel_step_ok:
  assumes "socket_lib (pe_socket env)" "cn_pc c = P_tunnel" "client_ssl c = ssl"
  shows "px_ok env ssl (px_tunnel_step env c t ev)"
proof -
  let ?ret = "\<lambda>t (ec, close). px_resume_connection env c (Completed ec close)"
  have "px_ok env ssl (nest Op_tunnel (\<lambda>t. (c, In_tunnel t)) ?ret step)" for step :: "tunnel_state \<times> (tunnel_op, error_code \<times> bool) out"
    using assms by (intro px_ok_nest) (auto simp: px_inv_def intro: px_resume_connection_ok)
  then show ?thesis
    using px_tunnel_relay_step_ok [OF assms] unfolding px_tunnel_step_def
    by (simp split: prod.split out.split tunnel_op.split)
qed

lemma proxy_resume_ok:
  assumes "socket_lib (pe_socket env)" "px_inv env ssl st"
  shows "px_ok env ssl (proxy_resume env st ev)"
proof (cases "(env, st, ev)" rule: proxy_resume.cases)
  case (6 env' c s e)
  with assms show ?thesis
    by (cases s) (auto simp: px_inv_def intro: px_client_step_ok)
qed (use assms in \<open>auto intro: px_resume_connection_ok px_tunnel_step_ok px_tunnel_relay_step_ok
    px_relay_step_ok px_session_step_ok\<close>)

sublocale socket_lib < proxy_end: coro_final "proxy_resume \<lparr>pe_http = http, pe_message = ec_message, pe_socket = api\<rparr>"
    "px_inv \<lparr>pe_http = http, pe_message = ec_message, pe_socket = api\<rparr> ssl"
    "\<lambda>st r. px_fin \<lparr>pe_http = http, pe_message = ec_message, pe_socket = api\<rparr> ssl st" for http ec_message ssl
proof
  let ?env = "\<lparr>pe_http = http, pe_message = ec_message, pe_socket = api\<rparr>"
  have lib: "socket_lib (pe_socket ?env)"
    using socket_lib_axioms by simp
  fix s e s' op r
  assume "px_inv ?env ssl s"
  note ok = proxy_resume_ok [OF lib this, of e]
  show "proxy_resume ?env s e = (s', Yield op) \<Longrightarrow> px_inv ?env ssl s'"
    using ok by (simp add: px_ok_def)
  show "proxy_resume ?env s e = (s', Return r) \<Longrightarrow> px_fin ?env ssl s'"
    using ok by (simp add: px_ok_def)
qed

context socket_lib
begin

lemma proxy_run_final:
  assumes "pe_socket env = api" "px_inv env ssl st" "coro_run (proxy_resume env) st evs = (st', outs)" "Return r \<in> set outs"
  shows "px_fin env ssl st'"
proof -
  have "env = \<lparr>pe_http = pe_http env, pe_message = pe_message env, pe_socket = api\<rparr>"
    using assms(1) by simp
  then show ?thesis
    using proxy_end.run_final [of "pe_http env" "pe_message env" ssl st evs st' outs r] assms(2-4) by argo
qed

end

text \<open>
  When a connection of the proxy has ended, however its tunnels, relays and shutdowns
  went, the socket of the client has been closed, and so has the socket to the remote unless
  it is encrypted.
\<close>

lemma proxy_closes_sockets:
  assumes "socket_lib (pe_socket env)"
    and "proxy_connection env new_socket stream opts evs = ((c, inner), outs)" "Return () \<in> set outs"
  shows "\<not> sk_is_open (pe_socket env) (ms_plain (se_stream (cn_session c))) \<and>
    (so_ssl_ctx opts = None \<longrightarrow> \<not> sk_is_open (pe_socket env) (ms_plain (se_stream (cn_client c))))"
proof -
  let ?ssl = "so_ssl_ctx opts \<noteq> None"
  have "px_inv env ?ssl (connection_new new_socket stream opts, No_inner)"
    by (auto simp: connection_new_def session_of_executor_def ms_ssl_of_def ms_plain_of_def split: option.split)
  from socket_lib.proxy_run_final [OF assms(1) refl this assms(2) [unfolded proxy_connection_def] assms(3)]
  have "px_fin env ?ssl (c, inner)" .
  then show ?thesis
    by (simp add: px_fin_def server_closed_def client_closed_def)
qed

lemma proxy_begins:
  "snd (proxy_connection env new_socket stream opts evs) =
     Yield (Op_tunnel Read_request) # snd (coro_run (proxy_resume env)
       ((connection_new new_socket stream opts)\<lparr>cn_pc := P_tunnel\<rparr>, In_tunnel (tunnel_init\<lparr>u_pc := T_header\<rparr>)) evs)"
  by (simp add: proxy_connection_def coro_run_from px_resume_connection_def connection_resume_def connection_new_def
      tunnel_first nest_def del: coro_run.simps(2))

definition proxy_ref :: "bool proxy_env" where
  "proxy_ref = \<lparr>pe_http = http_ref, pe_message = (\<lambda>ec. []), pe_socket = socket_ref\<rparr>"

lemma proxy_closes_sockets_instance:
  "\<exists>c inner outs. proxy_connection proxy_ref True (Plain True) default_opts
     [Ev_tunnel (Request asio_eof empty_message False), Ev_session (Done asio_eof 0)] = ((c, inner), outs) \<and>
   Return () \<in> set outs \<and> ms_plain (se_stream (cn_session c)) = False \<and> ms_plain (se_stream (cn_client c)) = False"
proof -
  let ?evs = "[Ev_tunnel (Request asio_eof empty_message False), Ev_session (Done asio_eof 0)]"
  obtain c inner outs where r: "proxy_connection proxy_ref True (Plain True) default_opts ?evs = ((c, inner), outs)"
    by (metis prod.exhaust)
  have "snd (proxy_connection proxy_ref True (Plain True) default_opts ?evs) =
      [Yield (Op_tunnel Read_request), Yield (Op_session (Read_some 1024)), Return ()]"
    unfolding proxy_begins
    by (simp add: px_tunnel_step_def tunnel_resume_def tunnel_upcall_def tunnel_init_def nest_def px_resume_connection_def
        connection_resume_def px_session_step_def server_half_close_def connection_new_def session_of_stream_def Let_def
        px_client_step_def px_done_def shutdown_and_close_def session_of_executor_def default_opts_def ms_plain_of_def
        split: prod.split)
  then have o: "Return () \<in> set outs"
    unfolding r by simp
  have "socket_lib (pe_socket proxy_ref)"
    by (simp add: proxy_ref_def sock.socket_lib_axioms)
  from proxy_closes_sockets [OF this r o] r o show ?thesis
    by (simp add: proxy_ref_def socket_ref_def default_opts_def)
qed

subsection \<open>Operations that run inside the connection\<close>

lemma relay_inside:
  "snd (coro_run (relay_resume (pe_http env)) r es) = map Yield ops @ [Return (ec, close)] \<Longrightarrow>
   length es = Suc (length ops) \<Longrightarrow>
   snd (coro_run (proxy_resume env) (c, In_relay r) (map Ev_relay es @ evs)) =
     map (\<lambda>op. Yield (Op_relay op)) ops @
     coro_from (proxy_resume env) (px_resume_connection env c (Completed ec close)) evs"
proof (induction es arbitrary: r ops)
  case (Cons e es)
  obtain r' out where r: "relay_resume (pe_http env) r e = (r', out)"
    by (cases "relay_resume (pe_http env) r e")
  show ?case
  proof (cases ops)
    case Nil
    with Cons.prems r have "out = Return (ec, close)"
      by (cases out) auto
    with Nil Cons.prems(2) r show ?thesis
      by (simp add: coro_run_from px_relay_step_def nest_def del: coro_run.simps(2))
  next
    case (Cons op ops')
    with Cons.prems r have "out = Yield op" "snd (coro_run (relay_resume (pe_http env)) r' es) = map Yield ops' @ [Return (ec, close)]"
      by (cases out; auto)+
    with Cons.IH [of r' ops'] Cons.prems(2) r Cons show ?thesis
      by (simp add: coro_run_from px_relay_step_def nest_def del: coro_run.simps(2))
  qed
qed simp

lemma tunnel_inside:
  "snd (coro_run (tunnel_resume (pe_http env) (pe_message env) (client_ssl c)) t es) = map Yield ops @ [Return (ec, close)] \<Longrightarrow>
   length es = Suc (length ops) \<Longrightarrow> (\<And>m d. Relay_request m d \<notin> set ops) \<Longrightarrow>
   snd (coro_run (proxy_resume env) (c, In_tunnel t) (map Ev_tunnel es @ evs)) =
     map (\<lambda>op. Yield (Op_tunnel op)) ops @
     coro_from (proxy_resume env) (px_resume_connection env c (Completed ec close)) evs"
proof (induction es arbitrary: t ops)
  case (Cons e es)
  obtain t' out where t: "tunnel_resume (pe_http env) (pe_message env) (client_ssl c) t e = (t', out)"
    by (cases "tunnel_resume (pe_http env) (pe_message env) (client_ssl c) t e")
  show ?case
  proof (cases ops)
    case Nil
    with Cons.prems t have "out = Return (ec, close)"
      by (cases out) auto
    with Nil Cons.prems(2) t show ?thesis
      by (simp add: coro_run_from px_tunnel_step_def nest_def del: coro_run.simps(2))
  next
    case (Cons op ops')
    with Cons.prems t have o: "out = Yield op" "snd (coro_run (tunnel_resume (pe_http env) (pe_message env) (client_ssl c)) t' es) =
        map Yield ops' @ [Return (ec, close)]"
      by (cases out; auto)+
    have "\<And>m d. op \<noteq> Relay_request m d" "\<And>m d. Relay_request m d \<notin> set ops'"
      using Cons.prems(3) Cons by (metis list.set_intros)+
    then have "px_tunnel_step env c t e = ((c, In_tunnel t'), Yield (Op_tunnel op))"
      using t o(1) by (cases op) (auto simp: px_tunnel_step_def nest_def)
    with Cons.IH [OF o(2)] Cons.prems(2) Cons \<open>\<And>m d. Relay_request m d \<notin> set ops'\<close> show ?thesis
      by (simp add: coro_run_from del: coro_run.simps(2))
  qed
qed simp

lemma connection_new_ssl: "client_ssl (connection_new new_socket stream opts) = (so_ssl_ctx opts \<noteq> None)"
  by (auto simp: connection_new_def session_of_executor_def ms_ssl_of_def ms_plain_of_def split: option.split)

text \<open>The connection after a tunnel, and after a relay.\<close>

lemma after_tunnel:
  "cn_pc c = P_tunnel \<Longrightarrow> px_resume_connection env c (Completed no_error False) =
     ((c\<lparr>cn_pc := P_relay\<rparr>, In_relay (relay_init\<lparr>r_pc := R_req_header\<rparr>)), Yield (Op_relay Server_read_header))"
  by (simp add: px_resume_connection_def connection_resume_def relay_first nest_def)

lemma after_relay:
  "cn_pc c = P_relay \<Longrightarrow> px_resume_connection env c (Completed no_error False) =
     ((c\<lparr>cn_pc := P_tunnel\<rparr>, In_tunnel (tunnel_init\<lparr>u_pc := T_header\<rparr>)), Yield (Op_tunnel Read_request))"
  by (simp add: px_resume_connection_def connection_resume_def tunnel_first nest_def)

lemma after_last_relay:
  "cn_pc c = P_relay \<Longrightarrow> se_stream (cn_session c) = Plain k \<Longrightarrow> se_stream (cn_client c) = Plain k2 \<Longrightarrow>
   coro_from (proxy_resume env) (px_resume_connection env c (Completed no_error True)) [Ev_session (Done ec n)] =
     [Yield (Op_session (Read_some 1024)), Return ()]"
  by (simp add: px_resume_connection_def connection_resume_def px_session_step_def server_half_close_def nest_def
      px_client_step_def px_done_def shutdown_and_close_def Let_def split: prod.split)

text \<open>A tunnel that is opened by \<open>CONNECT\<close>, and one exchange through it.\<close>

definition connect_events :: "message \<Rightarrow> bool \<Rightarrow> error_code \<Rightarrow> bool option \<Rightarrow> tunnel_ev list" where
  "connect_events req is_done ec is_ssl =
     [Request no_error req is_done, On_connect no_error, Responded no_error, On_detect ec is_ssl]"

lemma connect_and_exchange:
  assumes "http_lib (pe_http env)" "simple_host h" "h \<noteq> []" "port_text pt po"
    and "msg_method creq = ''CONNECT''" "msg_target creq = h @ pt" "ha_parser_keep_alive (pe_http env) creq"
    and "\<not> signed (pe_http env) req" "\<not> signed (pe_http env) res"
  shows "snd (proxy_connection env new_socket stream opts
      (map Ev_tunnel (connect_events creq is_done ec is_ssl) @ map Ev_relay (exchange_events req cs res ds) @ evs)) =
    map (\<lambda>op. Yield (Op_tunnel op)) [Read_request, Connect h (service_for (so_ssl_ctx opts \<noteq> None) po),
      Respond new_response, Detect_client_ssl] @
    map (\<lambda>op. Yield (Op_relay op)) (Server_read_header # exchange_ops (pe_http env) req cs res ds) @
    coro_from (proxy_resume env) (px_resume_connection env ((connection_new new_socket stream opts)\<lparr>cn_pc := P_relay\<rparr>)
      (Completed no_error (exchange_close (pe_http env) req res))) evs"
proof -
  let ?c = "(connection_new new_socket stream opts)\<lparr>cn_pc := P_tunnel\<rparr>"
  note t = connect_run [OF assms(1-7), of "pe_message env" "client_ssl ?c" is_done ec is_ssl, folded connect_events_def]
  note r = exchange_from_request [OF assms(8,9), of cs ds]
  show ?thesis
    unfolding proxy_begins
    by (subst tunnel_inside [OF t])
       (simp_all add: connect_events_def connection_new_ssl after_tunnel relay_inside [OF r exchange_lengths])
qed

end
