(* ===== verification/Acceptor.thy ===== *)
theory Acceptor
  imports Session Foxy_Log
begin

text \<open>
  What the two accept loops share. The acceptor belongs to Asio: of it the loops see at most
  one outstanding accept, which the network completes with a socket or an error, and which
  \<open>cancel\<close> completes with \<open>operation_aborted\<close>; a completion that is already queued stays.
\<close>

datatype 'k accept_wait = No_accept | Accepting | Accept_ready error_code 'k

definition accept_cancel :: "'k \<Rightarrow> 'k accept_wait \<Rightarrow> 'k accept_wait" where
  "accept_cancel closed_socket w = (case w of Accepting \<Rightarrow> Accept_ready operation_aborted closed_socket | _ \<Rightarrow> w)"

lemma accept_cancel_simps [simp]:
  "accept_cancel k No_accept = No_accept" "accept_cancel k Accepting = Accept_ready operation_aborted k"
  "accept_cancel k (Accept_ready ec k2) = Accept_ready ec k2"
  by (simp_all add: accept_cancel_def)

lemma accept_cancel_not_waiting [simp]: "accept_cancel k w \<noteq> Accepting"
  by (cases w) simp_all

datatype 'k accept_ev = A_start | A_ready error_code 'k | A_completed | A_stop

text \<open>The states that a loop reaches from a first one.\<close>

inductive accept_run :: "('s \<Rightarrow> 'k accept_ev \<Rightarrow> 's \<Rightarrow> bool) \<Rightarrow> 's \<Rightarrow> 'k accept_ev list \<Rightarrow> 's \<Rightarrow> bool" for step first where
  init: "accept_run step first [] first"
| more: "accept_run step first evs s \<Longrightarrow> step s e s' \<Longrightarrow> accept_run step first (evs @ [e]) s'"

lemma accept_more: "accept_run step first evs s \<Longrightarrow> step s e s' \<Longrightarrow> evs' = evs @ [e] \<Longrightarrow> accept_run step first evs' s'"
  by (simp add: accept_run.more)

text \<open>The sockets that the network has delivered, and the one whose completion is queued.\<close>

definition accepted :: "'k accept_ev list \<Rightarrow> 'k list" where
  "accepted evs = concat (map (\<lambda>e. case e of A_ready ec k \<Rightarrow> if ec_failed ec then [] else [k] | _ \<Rightarrow> []) evs)"

definition pending :: "'k accept_wait \<Rightarrow> 'k list" where
  "pending w = (case w of Accept_ready ec k \<Rightarrow> if ec_failed ec then [] else [k] | _ \<Rightarrow> [])"

lemma accepted_snoc [simp]:
  "accepted [] = []" "accepted (evs @ [A_start]) = accepted evs" "accepted (evs @ [A_completed]) = accepted evs"
  "accepted (evs @ [A_stop]) = accepted evs"
  "accepted (evs @ [A_ready ec k]) = accepted evs @ (if ec_failed ec then [] else [k])"
  by (simp_all add: accepted_def)

lemma pending_simps [simp]:
  "pending No_accept = []" "pending Accepting = []" "pending (Accept_ready ec k) = (if ec_failed ec then [] else [k])"
  "pending (accept_cancel k w) = pending w"
  by (cases w; simp add: pending_def)+

text \<open>
  The contract of an accept loop: an accept becomes ready only while one is outstanding, its
  completion serves the socket if there is one and no other, and nothing else serves.
\<close>

locale accept_loop =
  fixes step :: "'s \<Rightarrow> 'k accept_ev \<Rightarrow> 's \<Rightarrow> bool"
    and inv :: "'s \<Rightarrow> bool"
    and wait :: "'s \<Rightarrow> 'k accept_wait"
    and served :: "'s \<Rightarrow> 'k list"
  assumes inv_step: "inv s \<Longrightarrow> step s e s' \<Longrightarrow> inv s'"
    and ready: "inv s \<Longrightarrow> step s (A_ready ec k) s' \<Longrightarrow>
          wait s = Accepting \<and> wait s' = Accept_ready ec k \<and> served s' = served s"
    and completed: "inv s \<Longrightarrow> step s A_completed s' \<Longrightarrow> served s' = served s @ pending (wait s) \<and> pending (wait s') = []"
    and started: "inv s \<Longrightarrow> step s A_start s' \<Longrightarrow> served s' = served s \<and> pending (wait s') = pending (wait s)"
    and stopped: "inv s \<Longrightarrow> step s A_stop s' \<Longrightarrow> served s' = served s \<and> pending (wait s') = pending (wait s)"
begin

lemma run_inv: "accept_run step first evs s \<Longrightarrow> inv first \<Longrightarrow> inv s"
  by (induction rule: accept_run.induct) (auto intro: inv_step)

lemma serves_accepted:
  assumes "accept_run step first evs s" "inv first" "served first = []" "wait first = No_accept"
  shows "served s @ pending (wait s) = accepted evs"
  using assms
proof (induction rule: accept_run.induct)
  case (more evs s e s')
  moreover from more have "inv s"
    by (blast intro: run_inv)
  ultimately show ?case
    by (cases e) (auto dest: ready completed started stopped)
qed simp

end

end
