(* ===== verification/Proxy_Accept.thy ===== *)
theory Proxy_Accept
  imports Proxy Acceptor
begin

text \<open>
  \<^verbatim>\<open>src/proxy.cpp\<close> and \<^verbatim>\<open>include/foxy/proxy.hpp\<close>: the constructor of the proxy, \<open>async_accept\<close>,
  \<open>cancel\<close> and the accept loop.
\<close>

datatype loop_pc = Lp_idle | Lp_posted | Lp_wait | Lp_done

text \<open>
  The stream that the next client is accepted on, the connections that have been posted, and
  what has been written to the two output streams.
\<close>

record 'k proxy =
  xp_pc :: loop_pc
  xp_stream :: "'k multi_stream"
  xp_open :: bool
  xp_wait :: "'k accept_wait"
  xp_client_opts :: session_opts
  xp_conns :: "'k conn list"
  xp_out :: string
  xp_log :: string

definition proxy_new :: "'k \<Rightarrow> session_opts \<Rightarrow> 'k proxy" where
  "proxy_new new_socket client_opts =
     \<lparr>xp_pc = Lp_idle, xp_stream = ms_plain_of new_socket, xp_open = True, xp_wait = No_accept,
      xp_client_opts = client_opts, xp_conns = [], xp_out = [], xp_log = []\<rparr>"

definition proxy_async_accept :: "'k proxy \<Rightarrow> 'k proxy" where
  "proxy_async_accept p =
     (if \<not> xp_open p
      then p\<lparr>xp_out := xp_out p @ ''foxy::proxy cannot accept on a closed ip::tcp::acceptor'' @ [CHR 0x0A]\<rparr>
      else p\<lparr>xp_pc := Lp_posted\<rparr>)"

text \<open>The posted loop runs, and every later turn of it: an accept on the stream.\<close>

definition loop_accept :: "'k proxy \<Rightarrow> 'k proxy" where
  "loop_accept p = p\<lparr>xp_pc := Lp_wait, xp_wait := Accepting\<rparr>"

text \<open>
  A completed accept has put its socket into the stream. A connection takes the stream over
  and leaves a new socket behind.
\<close>

definition loop_completed :: "(error_code \<Rightarrow> string) \<Rightarrow> 'k \<Rightarrow> error_code \<Rightarrow> 'k \<Rightarrow> 'k proxy \<Rightarrow> 'k proxy" where
  "loop_completed ec_message new_socket ec socket p =
     (if ec = operation_aborted then p\<lparr>xp_pc := Lp_done\<rparr>
      else if ec_failed ec
      then loop_accept (p\<lparr>xp_log := xp_log p @ log_error ec_message ec ''foxy::proxy::async_accept''\<rparr>)
      else
        (let stream = ms_map_plain (\<lambda>_. socket) (xp_stream p)
         in loop_accept (p\<lparr>xp_conns := xp_conns p @ [connection_new new_socket stream (xp_client_opts p)],
                           xp_stream := ms_map_plain (\<lambda>_. new_socket) stream\<rparr>)))"

definition proxy_cancel :: "'k \<Rightarrow> 'k proxy \<Rightarrow> 'k proxy" where
  "proxy_cancel new_socket p = p\<lparr>xp_wait := accept_cancel new_socket (xp_wait p)\<rparr>"

text \<open>
  \<open>A_start\<close> is the call of \<open>async_accept\<close>, after which the posted loop runs, and \<open>A_stop\<close> is
  the posted cancellation.
\<close>

inductive proxy_step :: "(error_code \<Rightarrow> string) \<Rightarrow> 'k \<Rightarrow> 'k proxy \<Rightarrow> 'k accept_ev \<Rightarrow> 'k proxy \<Rightarrow> bool"
  for ec_message new_socket where
  called: "xp_pc p = Lp_idle \<Longrightarrow> proxy_step ec_message new_socket p A_start (proxy_async_accept p)"
| posted: "xp_pc p = Lp_posted \<Longrightarrow> proxy_step ec_message new_socket p A_start (loop_accept p)"
| ready: "xp_wait p = Accepting \<Longrightarrow> proxy_step ec_message new_socket p (A_ready ec k) (p\<lparr>xp_wait := Accept_ready ec k\<rparr>)"
| completes: "xp_wait p = Accept_ready ec k \<Longrightarrow>
    proxy_step ec_message new_socket p A_completed (loop_completed ec_message new_socket ec k (p\<lparr>xp_wait := No_accept\<rparr>))"
| cancelled: "proxy_step ec_message new_socket p A_stop (proxy_cancel new_socket p)"

inductive_simps proxy_step_start: "proxy_step ec_message k p A_start p'"
inductive_simps proxy_step_ready: "proxy_step ec_message k p (A_ready ec k2) p'"
inductive_simps proxy_step_completed: "proxy_step ec_message k p A_completed p'"
inductive_simps proxy_step_stop: "proxy_step ec_message k p A_stop p'"

lemmas proxy_step_simps = proxy_step_start proxy_step_ready proxy_step_completed proxy_step_stop

subsection \<open>The contract of the loop\<close>

definition proxy_served :: "'k proxy \<Rightarrow> 'k list" where
  "proxy_served p = map (\<lambda>c. ms_plain (se_stream (cn_session c))) (xp_conns p)"

definition proxy_inv :: "'k proxy \<Rightarrow> bool" where
  "proxy_inv p \<longleftrightarrow> (xp_pc p = Lp_wait) = (xp_wait p \<noteq> No_accept) \<and> \<not> ms_is_ssl (xp_stream p)"

lemma loop_accept_sel [simp]:
  "xp_pc (loop_accept p) = Lp_wait" "xp_wait (loop_accept p) = Accepting" "xp_stream (loop_accept p) = xp_stream p"
  "xp_conns (loop_accept p) = xp_conns p" "xp_client_opts (loop_accept p) = xp_client_opts p"
  by (simp_all add: loop_accept_def)

lemma loop_completed_sel [simp]:
  "xp_pc (loop_completed ec_message k ec socket p) = (if ec = operation_aborted then Lp_done else Lp_wait)"
  "xp_wait (loop_completed ec_message k ec socket p) = (if ec = operation_aborted then xp_wait p else Accepting)"
  "ms_is_ssl (xp_stream (loop_completed ec_message k ec socket p)) = ms_is_ssl (xp_stream p)"
  "xp_client_opts (loop_completed ec_message k ec socket p) = xp_client_opts p"
  "xp_conns (loop_completed ec_message k ec socket p) = xp_conns p @
     (if ec_failed ec then [] else [connection_new k (ms_map_plain (\<lambda>_. socket) (xp_stream p)) (xp_client_opts p)])"
  by (cases "xp_stream p"; simp add: loop_completed_def Let_def)+

lemma proxy_inv_step: "proxy_inv p \<Longrightarrow> proxy_step ec_message k p e p' \<Longrightarrow> proxy_inv p'"
  by (cases e) (auto simp: proxy_inv_def proxy_step_simps proxy_async_accept_def proxy_cancel_def accept_cancel_def
      split: if_splits accept_wait.splits)

lemma not_ssl_plain: "\<not> ms_is_ssl ms \<Longrightarrow> ms_map_plain f ms = Plain (f (ms_plain ms))"
  by (cases ms) simp_all

interpretation proxy_loop: accept_loop "proxy_step ec_message k" proxy_inv xp_wait proxy_served for ec_message k
proof
  fix p e p'
  assume "proxy_inv p" "proxy_step ec_message k p e p'"
  then show "proxy_inv p'"
    by (rule proxy_inv_step)
qed (auto simp: proxy_step_simps proxy_async_accept_def proxy_cancel_def proxy_served_def proxy_inv_def not_ssl_plain
    connection_new_def session_of_stream_def)

lemma proxy_inv_new: "proxy_inv (proxy_new k opts)"
  by (simp add: proxy_inv_def proxy_new_def ms_plain_of_def)

lemma proxy_conns_made:
  assumes "accept_run (proxy_step ec_message k) (proxy_new k opts) evs p"
  shows "xp_client_opts p = opts \<and> xp_conns p = map (\<lambda>socket. connection_new k (Plain socket) opts) (proxy_served p)"
  using assms
proof (induction rule: accept_run.induct)
  case (more evs p e p')
  have "proxy_inv p"
    by (rule proxy_loop.run_inv [OF more.hyps(1)]) (rule proxy_inv_new)
  with more show ?case
    by (cases e) (auto simp: proxy_step_simps proxy_async_accept_def proxy_cancel_def proxy_served_def proxy_inv_def
        not_ssl_plain connection_new_def session_of_stream_def)
qed (simp add: proxy_new_def proxy_served_def)

subsection \<open>Properties\<close>

text \<open>
  The proxy makes one connection for every client it accepts, in the order of their
  arrival and whatever accepts fail between them, each with a plain stream on the accepted
  socket and a client session with the options of the proxy.
\<close>

lemma proxy_serves_accepted:
  assumes "accept_run (proxy_step ec_message k) (proxy_new k opts) evs p"
  shows "\<exists>sockets. xp_conns p = map (\<lambda>socket. connection_new k (Plain socket) opts) sockets \<and>
    sockets @ pending (xp_wait p) = accepted evs"
proof -
  have "proxy_served p @ pending (xp_wait p) = accepted evs"
    by (rule proxy_loop.serves_accepted [OF assms proxy_inv_new]) (simp_all add: proxy_new_def proxy_served_def)
  with proxy_conns_made [OF assms] show ?thesis
    by blast
qed

lemma proxy_serves_accepted_instance:
  "\<exists>p. accept_run (proxy_step (\<lambda>ec. []) False) (proxy_new False default_opts) [A_start, A_start] p \<and>
    xp_conns p = [] \<and> xp_wait p = Accepting"
proof -
  let ?p = "loop_accept (proxy_async_accept (proxy_new False default_opts))"
  have "accept_run (proxy_step (\<lambda>ec. []) False) (proxy_new False default_opts) (([] @ [A_start]) @ [A_start]) ?p"
    by (rule accept_run.more, rule accept_run.more [OF accept_run.init], rule proxy_step.called)
       (simp_all add: proxy_step.posted proxy_new_def proxy_async_accept_def)
  then have r: "accept_run (proxy_step (\<lambda>ec. []) False) (proxy_new False default_opts) [A_start, A_start] ?p"
    by simp
  show ?thesis
    using proxy_serves_accepted [OF r] r by (intro exI [of _ ?p]) (simp add: accepted_def)
qed

text \<open>
  Cancelling the proxy ends its loop only while an accept is outstanding: then the accept
  completes, the loop is over and no connection is made. When the completion of an accept is
  already queued, the cancellation changes nothing, and the loop goes on to the next accept.
\<close>

lemma proxy_cancel_outcome:
  "case xp_wait p of
     Accepting \<Rightarrow> (\<exists>p'. proxy_step ec_message k (proxy_cancel k p) A_completed p' \<and> xp_pc p' = Lp_done \<and> xp_conns p' = xp_conns p)
   | Accept_ready ec socket \<Rightarrow> proxy_cancel k p = p \<and>
       (\<exists>p'. proxy_step ec_message k p A_completed p' \<and> xp_wait p' = (if ec = operation_aborted then No_accept else Accepting))
   | No_accept \<Rightarrow> proxy_cancel k p = p"
  by (auto simp: proxy_step_simps proxy_cancel_def split: accept_wait.split)

end
