(* ===== verification/Listener.thy ===== *)
theory Listener
  imports Acceptor
begin

text \<open>
  \<^verbatim>\<open>include/foxy/listener.hpp\<close>: the coroutine that serves one session of a listener, the accept
  loop and the listener itself. The user's factory and the handlers it makes are not part of
  the program: a handler is the operation \<open>Sv_handler\<close>.
\<close>

subsection \<open>One session\<close>

datatype server_pc = Sv_start | Sv_shaken | Sv_handled | Sv_down

datatype server_opn = Sv_handshake | Sv_handler | Sv_shutdown

datatype server_ev = Sv_begin | Sv_done error_code nat

text \<open>The handler has been moved out of the frame when it has been started.\<close>

record 'k server_frame =
  sf_pc :: server_pc
  sf_session :: "'k session"
  sf_handler :: bool

definition server_frame_new :: "'k session \<Rightarrow> 'k server_frame" where
  "server_frame_new s = \<lparr>sf_pc = Sv_start, sf_session = s, sf_handler = True\<rparr>"

definition server_run_handler :: "'k server_frame \<Rightarrow> 'k server_frame \<times> (server_opn, unit) out" where
  "server_run_handler f = (f\<lparr>sf_pc := Sv_handled, sf_handler := False\<rparr>, Yield Sv_handler)"

definition server_shutdown :: "'k server_frame \<Rightarrow> 'k server_frame \<times> (server_opn, unit) out" where
  "server_shutdown f = (f\<lparr>sf_pc := Sv_down\<rparr>, Yield Sv_shutdown)"

definition server_op_resume :: "'k server_frame \<Rightarrow> server_ev \<Rightarrow> 'k server_frame \<times> (server_opn, unit) out" where
  "server_op_resume f ev =
     (case (sf_pc f, ev) of
        (Sv_start, Sv_begin) \<Rightarrow>
          if ms_is_ssl (se_stream (sf_session f)) then (f\<lparr>sf_pc := Sv_shaken\<rparr>, Yield Sv_handshake)
          else server_run_handler f
      | (Sv_shaken, Sv_done ec _) \<Rightarrow> if ec_failed ec then server_shutdown f else server_run_handler f
      | (Sv_handled, Sv_done ec _) \<Rightarrow> if ec_failed ec then server_shutdown f else server_shutdown f
      | (Sv_down, Sv_done ec _) \<Rightarrow> (f, Return ())
      | _ \<Rightarrow> (f, Mismatch))"

subsection \<open>The accept loop\<close>

datatype accept_pc = Al_start | Al_wait | Al_done

text \<open>
  \<open>al_sessions\<close> are the sessions that have been handed to a \<open>server_op\<close>, in order; an SSL
  context is known by a number.
\<close>

record 'k accept_st =
  al_pc :: accept_pc
  al_open :: bool
  al_wait :: "'k accept_wait"
  al_ctx :: "nat option"
  al_sessions :: "'k session list"
  al_log :: string

definition listener_new :: "nat option \<Rightarrow> 'k accept_st" where
  "listener_new ctx =
     \<lparr>al_pc = Al_start, al_open = True, al_wait = No_accept, al_ctx = ctx, al_sessions = [], al_log = []\<rparr>"

text \<open>The condition of the loop and the next accept.\<close>

definition accept_next :: "'k accept_st \<Rightarrow> 'k accept_st" where
  "accept_next s = (if al_open s then s\<lparr>al_pc := Al_wait, al_wait := Accepting\<rparr> else s\<lparr>al_pc := Al_done\<rparr>)"

definition listener_session :: "nat option \<Rightarrow> 'k \<Rightarrow> 'k session" where
  "listener_session ctx socket =
     server_session_new (case ctx of Some c \<Rightarrow> ms_ssl_of socket c | None \<Rightarrow> ms_plain_of socket)
       \<lparr>so_ssl_ctx = ctx, so_timeout = 30 * 1000000000, so_verify_peer_cert = False\<rparr>"

definition accept_completed :: "(error_code \<Rightarrow> string) \<Rightarrow> error_code \<Rightarrow> 'k \<Rightarrow> 'k accept_st \<Rightarrow> 'k accept_st" where
  "accept_completed ec_message ec socket s =
     (if ec_failed ec
      then (let s = (if ec \<noteq> operation_aborted
                     then s\<lparr>al_log := al_log s @ log_error ec_message ec ''foxy::listener::accept_op''\<rparr> else s)
            in s\<lparr>al_pc := Al_done\<rparr>)
      else accept_next (s\<lparr>al_sessions := al_sessions s @ [listener_session (al_ctx s) socket]\<rparr>))"

text \<open>\<open>async_accept\<close> posts the loop; \<open>shutdown\<close> posts the cancelling and closing of the acceptor.\<close>

definition listener_async_accept :: "'k accept_st \<Rightarrow> 'k accept_st" where
  "listener_async_accept s = accept_next s"

definition listener_shutdown :: "'k \<Rightarrow> 'k accept_st \<Rightarrow> 'k accept_st" where
  "listener_shutdown closed_socket s =
     (let s = s\<lparr>al_wait := accept_cancel closed_socket (al_wait s)\<rparr> in s\<lparr>al_open := False\<rparr>)"

inductive listener_step :: "(error_code \<Rightarrow> string) \<Rightarrow> 'k \<Rightarrow> 'k accept_st \<Rightarrow> 'k accept_ev \<Rightarrow> 'k accept_st \<Rightarrow> bool"
  for ec_message closed_socket where
  starts: "al_pc s = Al_start \<Longrightarrow> listener_step ec_message closed_socket s A_start (listener_async_accept s)"
| ready: "al_wait s = Accepting \<Longrightarrow> listener_step ec_message closed_socket s (A_ready ec k) (s\<lparr>al_wait := Accept_ready ec k\<rparr>)"
| completes: "al_wait s = Accept_ready ec k \<Longrightarrow>
    listener_step ec_message closed_socket s A_completed (accept_completed ec_message ec k (s\<lparr>al_wait := No_accept\<rparr>))"
| shuts_down: "listener_step ec_message closed_socket s A_stop (listener_shutdown closed_socket s)"

inductive_simps listener_step_start: "listener_step ec_message k s A_start s'"
inductive_simps listener_step_ready: "listener_step ec_message k s (A_ready ec k2) s'"
inductive_simps listener_step_completed: "listener_step ec_message k s A_completed s'"
inductive_simps listener_step_stop: "listener_step ec_message k s A_stop s'"

lemmas listener_step_simps = listener_step_start listener_step_ready listener_step_completed listener_step_stop

lemma accept_next_sel [simp]:
  "al_pc (accept_next s) = (if al_open s then Al_wait else Al_done)"
  "al_wait (accept_next s) = (if al_open s then Accepting else al_wait s)"
  "al_open (accept_next s) = al_open s" "al_ctx (accept_next s) = al_ctx s" "al_sessions (accept_next s) = al_sessions s"
  by (simp_all add: accept_next_def)

lemma accept_completed_sel [simp]:
  "al_pc (accept_completed ec_message ec k s) = (if ec_failed ec \<or> \<not> al_open s then Al_done else Al_wait)"
  "al_wait (accept_completed ec_message ec k s) = (if ec_failed ec \<or> \<not> al_open s then al_wait s else Accepting)"
  "al_open (accept_completed ec_message ec k s) = al_open s" "al_ctx (accept_completed ec_message ec k s) = al_ctx s"
  "al_sessions (accept_completed ec_message ec k s) =
     al_sessions s @ (if ec_failed ec then [] else [listener_session (al_ctx s) k])"
  by (simp_all add: accept_completed_def Let_def)

lemmas listener_defs = listener_async_accept_def listener_shutdown_def Let_def

subsection \<open>What is served\<close>

definition listener_served :: "'k accept_st \<Rightarrow> 'k list" where
  "listener_served s = map (\<lambda>t. ms_plain (se_stream t)) (al_sessions s)"

lemma listener_session_plain [simp]: "ms_plain (se_stream (listener_session ctx k)) = k"
  by (simp add: listener_session_def session_of_stream_def ms_ssl_of_def ms_plain_of_def split: option.split)

text \<open>
  An accept is outstanding, or its completion queued, exactly while the loop waits, and never
  outstanding on a closed acceptor.
\<close>

definition listener_inv :: "'k accept_st \<Rightarrow> bool" where
  "listener_inv s \<longleftrightarrow> (al_pc s = Al_wait) = (al_wait s \<noteq> No_accept) \<and> (\<not> al_open s \<longrightarrow> al_wait s \<noteq> Accepting)"

lemma accept_cancel_none [simp]: "accept_cancel k w = No_accept \<longleftrightarrow> w = No_accept"
  by (cases w) simp_all

lemma listener_inv_step: "listener_inv s \<Longrightarrow> listener_step ec_message k s e s' \<Longrightarrow> listener_inv s'"
  by (cases e) (auto simp: listener_inv_def listener_step_simps listener_defs split: if_splits)

interpretation listener: accept_loop "listener_step ec_message k" listener_inv al_wait listener_served for ec_message k
proof
  fix s e s'
  assume "listener_inv s" "listener_step ec_message k s e s'"
  then show "listener_inv s'"
    by (rule listener_inv_step)
qed (auto simp: listener_step_simps listener_defs listener_served_def listener_inv_def)

subsection \<open>Properties\<close>

lemma listener_sessions_made:
  assumes "accept_run (listener_step ec_message k) (listener_new ctx) evs s"
  shows "al_ctx s = ctx \<and> al_sessions s = map (listener_session ctx) (listener_served s)"
  using assms
proof (induction rule: accept_run.induct)
  case (more evs s e s')
  then show ?case
    by (cases e) (auto simp: listener_step_simps listener_defs listener_served_def)
qed (simp add: listener_new_def listener_served_def)

text \<open>
  C20: a listener serves every connection it accepts exactly once, in the order of their
  arrival; each session is encrypted exactly when the listener has an SSL context, which is
  then its context, waits thirty seconds and does not verify the peer.
\<close>

theorem listener_serves_accepted:
  assumes "accept_run (listener_step ec_message k) (listener_new ctx) evs s"
  shows "map (\<lambda>t. ms_plain (se_stream t)) (al_sessions s) @ pending (al_wait s) = accepted evs \<and>
    list_all (\<lambda>t. ms_is_ssl (se_stream t) = (ctx \<noteq> None) \<and>
      se_opts t = \<lparr>so_ssl_ctx = ctx, so_timeout = 30000000000, so_verify_peer_cert = False\<rparr>) (al_sessions s)"
proof
  have "listener_inv (listener_new ctx)" "listener_served (listener_new ctx) = []" "al_wait (listener_new ctx) = No_accept"
    by (simp_all add: listener_inv_def listener_new_def listener_served_def)
  then show "map (\<lambda>t. ms_plain (se_stream t)) (al_sessions s) @ pending (al_wait s) = accepted evs"
    using listener.serves_accepted [OF assms] by (simp add: listener_served_def)
  have "al_sessions s = map (listener_session ctx) (listener_served s)"
    using listener_sessions_made [OF assms] by simp
  then show "list_all (\<lambda>t. ms_is_ssl (se_stream t) = (ctx \<noteq> None) \<and>
      se_opts t = \<lparr>so_ssl_ctx = ctx, so_timeout = 30000000000, so_verify_peer_cert = False\<rparr>) (al_sessions s)"
    by (auto simp: list_all_iff listener_session_def session_of_stream_def ms_ssl_of_def ms_plain_of_def split: option.split)
qed

lemma sample_listener_run:
  "accept_run (listener_step (\<lambda>ec. []) False) (listener_new None) [A_start, A_ready no_error True, A_stop, A_completed]
     (accept_completed (\<lambda>ec. []) no_error True
       ((listener_shutdown False ((listener_async_accept (listener_new None))\<lparr>al_wait := Accept_ready no_error True\<rparr>))
        \<lparr>al_wait := No_accept\<rparr>))"
proof -
  let ?step = "listener_step (\<lambda>ec. []) False"
  let ?s1 = "listener_async_accept (listener_new None) :: bool accept_st"
  let ?s2 = "?s1\<lparr>al_wait := Accept_ready no_error True\<rparr>"
  let ?s3 = "listener_shutdown False ?s2"
  have "accept_run ?step (listener_new None) ([] @ [A_start]) ?s1"
    by (rule accept_run.more [OF accept_run.init]) (simp add: listener_step_simps listener_new_def)
  then have "accept_run ?step (listener_new None) (([] @ [A_start]) @ [A_ready no_error True]) ?s2"
    by (rule accept_run.more) (simp add: listener_step_simps listener_new_def listener_async_accept_def)
  then have "accept_run ?step (listener_new None) ((([] @ [A_start]) @ [A_ready no_error True]) @ [A_stop]) ?s3"
    by (rule accept_run.more) (simp add: listener_step_simps)
  then have "accept_run ?step (listener_new None) (((([] @ [A_start]) @ [A_ready no_error True]) @ [A_stop]) @ [A_completed])
      (accept_completed (\<lambda>ec. []) no_error True (?s3\<lparr>al_wait := No_accept\<rparr>))"
    by (rule accept_run.more) (rule listener_step.completes, simp add: listener_shutdown_def)
  then show ?thesis
    by simp
qed

theorem listener_serves_accepted_witness:
  "\<exists>s. accept_run (listener_step (\<lambda>ec. []) False) (listener_new None)
      [A_start, A_ready no_error True, A_stop, A_completed] s \<and>
    map (\<lambda>t. ms_plain (se_stream t)) (al_sessions s) @ pending (al_wait s) = [True]"
  using listener_serves_accepted [OF sample_listener_run] sample_listener_run by (force simp: accepted_def)

text \<open>The events since the first stop.\<close>

definition since_stop :: "'k accept_ev list \<Rightarrow> 'k accept_ev list" where
  "since_stop evs = tl (dropWhile (\<lambda>e. e \<noteq> A_stop) evs)"

lemma since_stop_snoc: "since_stop (evs @ [e]) = (if A_stop \<in> set evs then since_stop evs @ [e] else [])"
proof (cases "A_stop \<in> set evs")
  case True
  then have "dropWhile (\<lambda>e. e \<noteq> A_stop) evs \<noteq> []"
    by (simp add: dropWhile_eq_Nil_conv)
  with True show ?thesis
    by (simp add: since_stop_def dropWhile_append1)
next
  case False
  then have "dropWhile (\<lambda>e. e \<noteq> A_stop) (evs @ [e]) = dropWhile (\<lambda>e. e \<noteq> A_stop) [e]"
    by (intro dropWhile_append2) auto
  with False show ?thesis
    by (simp add: since_stop_def)
qed

lemma listener_closed_run:
  assumes "accept_run (listener_step ec_message k) (listener_new ctx) evs s"
  shows "al_open s = (A_stop \<notin> set evs) \<and>
    (A_stop \<in> set evs \<longrightarrow> al_pc s \<noteq> Al_start \<or> al_wait s = No_accept) \<and>
    (A_stop \<in> set evs \<longrightarrow> count_list (since_stop evs) A_completed + (if al_pc s = Al_wait then 1 else 0) \<le> 1)"
  using assms
proof (induction rule: accept_run.induct)
  case (more evs s e s')
  have "listener_inv s"
    by (rule listener.run_inv [OF more.hyps(1)]) (simp add: listener_inv_def listener_new_def)
  with more show ?case
    by (cases e) (auto simp: listener_step_simps listener_defs listener_inv_def since_stop_snoc split: if_splits)
qed (simp add: listener_new_def)

text \<open>
  C21: shutting a listener down ends its loop: after the shutdown no accept is outstanding any
  more, at most one completion that was already queued is still handled, and the loop is over
  after it.
\<close>

theorem listener_shutdown_stops:
  assumes "accept_run (listener_step ec_message k) (listener_new ctx) evs s" "A_stop \<in> set evs"
  shows "count_list (since_stop evs) A_completed \<le> 1 \<and> al_wait s \<noteq> Accepting \<and>
    (al_pc s = Al_wait \<longrightarrow> (\<exists>s'. listener_step ec_message k s A_completed s' \<and> al_pc s' = Al_done))"
proof -
  have inv: "listener_inv s"
    by (rule listener.run_inv [OF assms(1)]) (simp add: listener_inv_def listener_new_def)
  have "al_open s = False" "count_list (since_stop evs) A_completed \<le> 1"
    using listener_closed_run [OF assms(1)] assms(2) by auto
  moreover from this inv have "\<exists>s'. listener_step ec_message k s A_completed s' \<and> al_pc s' = Al_done" if "al_pc s = Al_wait"
    using that by (cases "al_wait s") (auto simp: listener_inv_def listener_step_simps)
  ultimately show ?thesis
    using inv by (auto simp: listener_inv_def)
qed

theorem listener_shutdown_stops_witness:
  "\<exists>s. accept_run (listener_step (\<lambda>ec. []) False) (listener_new None)
      [A_start, A_ready no_error True, A_stop, A_completed] s \<and> al_wait s \<noteq> Accepting"
  using listener_shutdown_stops [OF sample_listener_run] sample_listener_run by auto

text \<open>
  A session of a listener runs the user's handler exactly once, on an encrypted stream
  only after a successful handshake, and is shut down exactly once whatever the handshake and
  the handler report.
\<close>

lemma server_op_runs:
  "snd (coro_run server_op_resume (server_frame_new s) [Sv_begin, Sv_done ec1 n1, Sv_done ec2 n2, Sv_done ec3 n3]) =
    (if ms_is_ssl (se_stream s)
     then Yield Sv_handshake # (if ec_failed ec1 then [] else [Yield Sv_handler]) @ [Yield Sv_shutdown, Return ()]
     else [Yield Sv_handler, Yield Sv_shutdown, Return ()])"
  by (simp add: server_op_resume_def server_frame_new_def server_run_handler_def server_shutdown_def)

end
