(* ===== verification/Speak.thy ===== *)
theory Speak
  imports Session
begin

text \<open>
  \<^verbatim>\<open>include/foxy/speak.hpp\<close>: connect, run the user's handler, shut down. The handler and the
  factory that makes it are not part of the program: a handler is a coroutine \<open>handler\<close> that
  is resumed with an error code and a number of bytes, as \<open>async_compose\<close> does, and \<open>factory\<close>
  gives its first state.
\<close>

datatype speak_pc = Sp_start | Sp_connecting | Sp_speaking | Sp_leaving

record ('k, 'h) speak_frame =
  sp_pc :: speak_pc
  sp_session :: "'k session"
  sp_host :: string
  sp_service :: string
  sp_handler :: "'h option"
  sp_bound :: error_code        \<comment> \<open>the error code bound to the handler\<close>

definition speak_new :: "'k \<Rightarrow> string \<Rightarrow> string \<Rightarrow> session_opts \<Rightarrow> ('k, 'h) speak_frame" where
  "speak_new new_socket host service opts =
     \<lparr>sp_pc = Sp_start, sp_session = client_session_new new_socket opts, sp_host = host, sp_service = service,
      sp_handler = None, sp_bound = no_error\<rparr>"

datatype 'op speak_op = Sp_connect string string | Sp_user 'op | Sp_shutdown

datatype speak_ev = Sp_begin | Sp_done error_code nat

text \<open>
  The handler is wrapped by \<open>std::bind\<close> with the error code of the connection and zero: these
  are its arguments at every resumption, and the ones it is resumed with are dropped.
\<close>

definition speak_handle ::
  "('h \<Rightarrow> error_code \<Rightarrow> nat \<Rightarrow> 'h \<times> ('op, error_code \<times> nat) out) \<Rightarrow> ('k, 'h) speak_frame \<Rightarrow> 'h \<Rightarrow>
   ('k, 'h) speak_frame \<times> ('op speak_op, unit) out" where
  "speak_handle handler f h =
     (case handler h (sp_bound f) 0 of
        (h, Yield op) \<Rightarrow> (f\<lparr>sp_pc := Sp_speaking, sp_handler := Some h\<rparr>, Yield (Sp_user op))
      | (h, Return r) \<Rightarrow> (f\<lparr>sp_pc := Sp_leaving, sp_handler := None\<rparr>, Yield Sp_shutdown)
      | (h, Throw ec) \<Rightarrow> (f, Throw ec)
      | (h, Terminate) \<Rightarrow> (f, Terminate)
      | (h, Mismatch) \<Rightarrow> (f, Mismatch))"

definition speak_resume ::
  "('h \<Rightarrow> error_code \<Rightarrow> nat \<Rightarrow> 'h \<times> ('op, error_code \<times> nat) out) \<Rightarrow> ('k session \<Rightarrow> 'h) \<Rightarrow> ('k, 'h) speak_frame \<Rightarrow>
   speak_ev \<Rightarrow> ('k, 'h) speak_frame \<times> ('op speak_op, unit) out" where
  "speak_resume handler factory f ev =
     (case (sp_pc f, ev) of
        (Sp_start, Sp_begin) \<Rightarrow>
          (f\<lparr>sp_pc := Sp_connecting, sp_host := [], sp_service := []\<rparr>, Yield (Sp_connect (sp_host f) (sp_service f)))
      | (Sp_connecting, Sp_done ec _) \<Rightarrow>
          let f = f\<lparr>sp_bound := (if ec_failed ec then ec else no_error)\<rparr>
          in speak_handle handler f (factory (sp_session f))
      | (Sp_speaking, Sp_done _ _) \<Rightarrow>
          (case sp_handler f of Some h \<Rightarrow> speak_handle handler f h | None \<Rightarrow> (f, Mismatch))
      | (Sp_leaving, Sp_done _ _) \<Rightarrow> (f, Return ())
      | _ \<Rightarrow> (f, Mismatch))"

subsection \<open>Properties\<close>

text \<open>A handler that is resumed with the same arguments every time.\<close>

definition deaf :: "('h \<Rightarrow> error_code \<Rightarrow> nat \<Rightarrow> 'h \<times> ('op, error_code \<times> nat) out) \<Rightarrow> error_code \<Rightarrow> 'h \<Rightarrow> unit \<Rightarrow>
    'h \<times> ('op, error_code \<times> nat) out" where
  "deaf handler ec h u = handler h ec 0"

lemma speak_handler_run:
  assumes "snd (coro_run (deaf handler (sp_bound f)) h (replicate (Suc (length ops)) ())) = map Yield ops @ [Return r]"
    and "length results = length ops"
  shows "coro_from (speak_resume handler factory) (speak_handle handler f h)
      (map (\<lambda>(ec, n). Sp_done ec n) results @ [Sp_done ec2 n2]) =
    map (\<lambda>op. Yield (Sp_user op)) ops @ [Yield Sp_shutdown, Return ()]"
  using assms
proof (induction ops arbitrary: f h results)
  case Nil
  obtain h' out where h: "handler h (sp_bound f) 0 = (h', out)"
    by (cases "handler h (sp_bound f) 0")
  have "snd (coro_run (deaf handler (sp_bound f)) h [()]) = [Return r]"
    using Nil(1) by simp
  with h have "coro_from (deaf handler (sp_bound f)) (h', out) [] = [Return r]"
    by (simp only: coro_run_from deaf_def)
  then have "out = Return r"
    by (cases out) (simp_all add: coro_from_def)
  with Nil(2) h show ?case
    by (simp add: speak_handle_def speak_resume_def)
next
  case (Cons op ops)
  obtain ec n results' where res: "results = (ec, n) # results'" "length results' = length ops"
    using Cons.prems(2) by (cases results) auto
  obtain h' out where h: "handler h (sp_bound f) 0 = (h', out)"
    by (cases "handler h (sp_bound f) 0")
  let ?f = "f\<lparr>sp_pc := Sp_speaking, sp_handler := Some h'\<rparr>"
  have "snd (coro_run (deaf handler (sp_bound f)) h (() # replicate (Suc (length ops)) ())) = Yield op # map Yield ops @ [Return r]"
    using Cons.prems(1) by simp
  with h have step: "coro_from (deaf handler (sp_bound f)) (h', out) (replicate (Suc (length ops)) ()) =
      Yield op # map Yield ops @ [Return r]"
    by (simp only: coro_run_from deaf_def)
  then have out: "out = Yield op"
    by (cases out) (simp_all add: coro_from_def)
  with step have rest: "snd (coro_run (deaf handler (sp_bound f)) h' (replicate (Suc (length ops)) ())) =
      map Yield ops @ [Return r]"
    by (simp only: coro_from_simps list.inject)
  have "sp_bound ?f = sp_bound f"
    by simp
  with rest Cons.IH [of ?f h' results'] res(2) have
    "coro_from (speak_resume handler factory) (speak_handle handler ?f h')
      (map (\<lambda>(ec, n). Sp_done ec n) results' @ [Sp_done ec2 n2]) = map (\<lambda>op. Yield (Sp_user op)) ops @ [Yield Sp_shutdown, Return ()]"
    by simp
  moreover have "speak_handle handler f h = (?f, Yield (Sp_user op))"
    by (simp add: speak_handle_def h out)
  moreover have "speak_resume handler factory ?f (Sp_done ec n) = speak_handle handler ?f h'"
    by (simp add: speak_resume_def)
  ultimately show ?case
    by (simp add: res(1) coro_run_from del: coro_run.simps(2))
qed

text \<open>
  C37: \<open>speak\<close> connects to the host and the service, runs the handler also when connecting has
  failed, with the error code of the connection, and shuts the session down when the handler
  completes. But at every resumption the handler is told this same error code and zero bytes,
  and not the results of its own operations, which are arbitrary here.
\<close>

theorem speak_runs_handler:
  assumes "snd (coro_run (deaf handler (if ec_failed ec then ec else no_error)) (factory (session_of_executor new_socket opts))
      (replicate (Suc (length ops)) ())) = map Yield ops @ [Return r]"
    and "length results = length ops"
  shows "snd (coro_run (speak_resume handler factory) (speak_new new_socket host service opts)
      (Sp_begin # Sp_done ec n # map (\<lambda>(ec, n). Sp_done ec n) results @ [Sp_done ec2 n2])) =
    Yield (Sp_connect host service) # map (\<lambda>op. Yield (Sp_user op)) ops @ [Yield Sp_shutdown, Return ()]"
proof -
  let ?f = "(speak_new new_socket host service opts)\<lparr>sp_pc := Sp_connecting, sp_host := [], sp_service := [],
    sp_bound := (if ec_failed ec then ec else no_error)\<rparr>"
  show ?thesis
    using speak_handler_run [of handler ?f "factory (session_of_executor new_socket opts)" ops r results factory ec2 n2] assms
    by (simp add: coro_run_from speak_resume_def speak_new_def del: coro_run.simps(2))
qed

definition sample_handler :: "nat \<Rightarrow> error_code \<Rightarrow> nat \<Rightarrow> nat \<times> (nat, error_code \<times> nat) out" where
  "sample_handler h ec n = (if h = 0 then (1, Yield 7) else (h, Return (ec, n)))"

theorem speak_runs_handler_witness:
  "snd (coro_run (speak_resume sample_handler (\<lambda>s. 0)) (speak_new True ''a.b'' ''http'' default_opts)
      (Sp_begin # Sp_done no_error 0 # map (\<lambda>(ec, n). Sp_done ec n) [(asio_eof, 3)] @ [Sp_done no_error 0])) =
    [Yield (Sp_connect ''a.b'' ''http''), Yield (Sp_user 7), Yield Sp_shutdown, Return ()]"
  using speak_runs_handler [of sample_handler no_error "\<lambda>s. 0" True default_opts "[7]" "(no_error, 0)" "[(asio_eof, 3)]"]
  by (simp add: deaf_def sample_handler_def)

end
