(* ===== verification/Shared_Timer.thy ===== *)
theory Shared_Timer
  imports Timed_Op
begin

text \<open>
  A session has one timer (\<open>basic_session::timer\<close>), and every timed operation in progress on it
  waits on that timer. \<open>expires_after\<close> and \<open>cancel\<close> complete all its outstanding waits with
  \<open>operation_aborted\<close>, the ones of the other operations too. Here the operations of
  \<open>Timed_Op\<close> share the timer: the state is the list of the operations started so far.
\<close>

datatype 'a shared_event = Sh_start | Sh_op nat 'a | Sh_expired | Sh_wait nat

definition cancel_waits :: "'a timed list \<Rightarrow> 'a timed list" where
  "cancel_waits xs = map timer_cancel xs"

definition expire :: "'a timed \<Rightarrow> 'a timed" where
  "expire s = (if t_wait s = Waiting then s\<lparr>t_wait := Ready no_error\<rparr> else s)"

text \<open>Initiating an operation sets the expiry time, which aborts the waits, then waits itself.\<close>

definition shared_start :: "'a timed list \<Rightarrow> 'a timed list" where
  "shared_start xs = cancel_waits xs @ [timed_init]"

text \<open>An operation that completes before its timer cancels the waits on the timer, all of them.\<close>

definition shared_op :: "nat \<Rightarrow> 'a \<Rightarrow> 'a timed list \<Rightarrow> 'a timed list" where
  "shared_op i args xs =
     (let s = (xs ! i)\<lparr>t_op := False\<rparr>
      in if t_done s then xs[i := on_op args s] else (cancel_waits xs)[i := on_op args s])"

text \<open>A wait that was aborted while its operation goes on sets the expiry time and waits again.\<close>

definition shared_wait :: "nat \<Rightarrow> error_code \<Rightarrow> 'a timed list \<Rightarrow> 'a timed list" where
  "shared_wait i ec xs =
     (let s = on_timer ec ((xs ! i)\<lparr>t_wait := No_wait\<rparr>)
      in if t_wait s = Waiting then (cancel_waits xs)[i := s] else xs[i := s])"

inductive shared_step :: "'a timed list \<Rightarrow> 'a shared_event \<Rightarrow> 'a timed list \<Rightarrow> bool" where
  starts: "shared_step xs Sh_start (shared_start xs)"
| completes: "i < length xs \<Longrightarrow> t_op (xs ! i) \<Longrightarrow> shared_step xs (Sh_op i args) (shared_op i args xs)"
| expires: "\<exists>s\<in>set xs. t_wait s = Waiting \<Longrightarrow> shared_step xs Sh_expired (map expire xs)"
| wait_returns: "i < length xs \<Longrightarrow> t_wait (xs ! i) = Ready ec \<Longrightarrow> shared_step xs (Sh_wait i) (shared_wait i ec xs)"

inductive shared_run :: "'a shared_event list \<Rightarrow> 'a timed list \<Rightarrow> bool" where
  init: "shared_run [] []"
| step: "shared_run evs xs \<Longrightarrow> shared_step xs e xs' \<Longrightarrow> shared_run (evs @ [e]) xs'"

lemma shared_lengths [simp]:
  "length (cancel_waits xs) = length xs" "length (shared_start xs) = Suc (length xs)"
  "length (shared_op i args xs) = length xs" "length (shared_wait i ec xs) = length xs"
  by (simp_all add: cancel_waits_def shared_start_def shared_op_def shared_wait_def Let_def)

lemma cancel_waits_nth [simp]: "i < length xs \<Longrightarrow> cancel_waits xs ! i = timer_cancel (xs ! i)"
  by (simp add: cancel_waits_def)

subsection \<open>Each operation is a timed operation\<close>

text \<open>What the others do to one operation: nothing, or a re-arming of its timer.\<close>

definition own_events :: "nat \<Rightarrow> 'a shared_event list \<Rightarrow> 'a timed_event list \<Rightarrow> bool" where
  "own_events i evs tevs \<longleftrightarrow> (\<forall>r. Op_done r \<in> set tevs \<longleftrightarrow> Sh_op i r \<in> set evs) \<and>
     (Expired \<in> set tevs \<longrightarrow> Sh_expired \<in> set evs)"

lemma own_events_snoc:
  "own_events i evs tevs \<Longrightarrow> (\<forall>r. e \<noteq> Sh_op i r) \<Longrightarrow> own_events i (evs @ [e]) tevs"
  "own_events i evs tevs \<Longrightarrow> (\<forall>r. e \<noteq> Sh_op i r) \<Longrightarrow> te = Rearmed \<or> te = Wait_done \<or> (te = Expired \<and> e = Sh_expired) \<Longrightarrow>
     own_events i (evs @ [e]) (tevs @ [te])"
  "own_events i evs tevs \<Longrightarrow> own_events i (evs @ [Sh_op i r]) (tevs @ [Op_done r])"
  by (auto simp: own_events_def)

definition refined :: "'a shared_event list \<Rightarrow> 'a timed list \<Rightarrow> bool" where
  "refined evs xs \<longleftrightarrow> (\<forall>i<length xs. \<exists>tevs. timed_run tevs (xs ! i) \<and> own_events i evs tevs) \<and>
     (\<forall>i r. Sh_op i r \<in> set evs \<longrightarrow> i < length xs)"

text \<open>One step of the whole, seen by the operation \<open>i\<close>.\<close>

definition sees :: "nat \<Rightarrow> 'a shared_event \<Rightarrow> 'a timed \<Rightarrow> 'a timed \<Rightarrow> bool" where
  "sees i e s s' \<longleftrightarrow>
     (case e of
        Sh_op j r \<Rightarrow> if j = i then timed_step s (Op_done r) s' else s' = s \<or> timed_step s Rearmed s'
      | Sh_wait j \<Rightarrow> if j = i then timed_step s Wait_done s' else s' = s \<or> timed_step s Rearmed s'
      | Sh_expired \<Rightarrow> s' = s \<or> timed_step s Expired s'
      | Sh_start \<Rightarrow> s' = s \<or> timed_step s Rearmed s')"

lemma timer_cancel_sees: "timer_cancel s = s \<or> timed_step s Rearmed (timer_cancel s)"
  by (simp add: timer_cancel_def timed_step_simps)

lemma shared_step_sees:
  assumes "shared_step xs e xs'" "i < length xs"
  shows "i < length xs' \<and> sees i e (xs ! i) (xs' ! i)"
  using assms(1)
proof cases
  case starts
  then show ?thesis
    using assms(2) timer_cancel_sees by (simp add: sees_def shared_start_def nth_append)
next
  case (completes j args)
  then show ?thesis
    using assms(2) timer_cancel_sees by (auto simp: sees_def shared_op_def Let_def timed_step_simps nth_list_update)
next
  case expires
  then show ?thesis
    using assms(2) by (auto simp: sees_def expire_def timed_step_simps)
next
  case (wait_returns j ec)
  then show ?thesis
    using assms(2) timer_cancel_sees by (auto simp: sees_def shared_wait_def Let_def timed_step_simps nth_list_update)
qed

lemma sees_run:
  assumes "timed_run tevs s" "own_events i evs tevs" "sees i e s s'"
  shows "\<exists>tevs'. timed_run tevs' s' \<and> own_events i (evs @ [e]) tevs'"
proof (cases "\<exists>te. timed_step s te s' \<and> own_events i (evs @ [e]) (tevs @ [te])")
  case True
  then show ?thesis
    using assms(1) timed_run.step by blast
next
  case False
  then have "s' = s \<and> (\<forall>r. e \<noteq> Sh_op i r)"
    using assms(3) own_events_snoc(2,3) [OF assms(2)] by (cases e) (fastforce simp: sees_def split: if_splits)+
  then show ?thesis
    using assms(1,2) own_events_snoc(1) by blast
qed

lemma shared_run_refined: "shared_run evs xs \<Longrightarrow> refined evs xs"
proof (induction rule: shared_run.induct)
  case (step evs xs e xs')
  have "\<exists>tevs. timed_run tevs (xs' ! i) \<and> own_events i (evs @ [e]) tevs" if i: "i < length xs'" for i
  proof (cases "i < length xs")
    case True
    with step(3) obtain tevs where "timed_run tevs (xs ! i)" "own_events i evs tevs"
      by (auto simp: refined_def)
    with sees_run shared_step_sees [OF step(2) True] show ?thesis
      by blast
  next
    case False
    with i step(2) have "e = Sh_start" "xs' ! i = timed_init"
      by (auto elim!: shared_step.cases simp: shared_start_def nth_append less_Suc_eq)
    moreover have "own_events i (evs @ [Sh_start]) []"
      using False step(3) by (auto simp: own_events_def refined_def)
    ultimately show ?thesis
      using timed_run.init by metis
  qed
  moreover have "j < length xs'" if "Sh_op j r \<in> set (evs @ [e])" for j r
    using that step(2,3) by (auto elim!: shared_step.cases simp: refined_def)
  ultimately show ?case
    by (simp add: refined_def)
qed (simp add: refined_def)

subsection \<open>Two operations at a time\<close>

text \<open>Nothing but starts and returning waits: no operation completes and the timer does not expire.\<close>

definition quiet :: "'a shared_event list \<Rightarrow> bool" where
  "quiet evs = list_all (\<lambda>e. case e of Sh_wait i \<Rightarrow> True | Sh_start \<Rightarrow> True | _ \<Rightarrow> False) evs"

lemma quiet_waits: "quiet evs \<Longrightarrow> quiet (evs @ map Sh_wait ws)"
  by (auto simp: quiet_def list_all_iff)

definition aborted :: "'a timed \<Rightarrow> bool" where
  "aborted s \<longleftrightarrow> t_wait s = Ready operation_aborted \<and> t_op s \<and> \<not> t_done s \<and> t_coro s \<noteq> Finished"

definition armed :: "'a timed \<Rightarrow> bool" where
  "armed s \<longleftrightarrow> t_wait s = Waiting \<and> t_op s \<and> \<not> t_done s \<and> t_coro s \<noteq> Finished"

text \<open>As soon as two operations are in progress, all waits but one have been aborted.\<close>

definition one_armed :: "'a timed list \<Rightarrow> bool" where
  "one_armed xs \<longleftrightarrow> (\<forall>s\<in>set xs. aborted s \<or> armed s) \<and> (xs \<noteq> [] \<longrightarrow> length (filter armed xs) = 1)"

lemma cancel_waits_aborted: "\<forall>s\<in>set xs. aborted s \<or> armed s \<Longrightarrow> \<forall>s\<in>set (cancel_waits xs). aborted s"
  by (auto simp: cancel_waits_def aborted_def armed_def timer_cancel_def)

lemma aborted_not_armed: "aborted s \<Longrightarrow> \<not> armed s"
  by (simp add: aborted_def armed_def)

lemma one_armed_update:
  assumes "\<forall>s\<in>set xs. aborted s" "i < length xs" "armed s"
  shows "one_armed (xs[i := s])"
proof -
  have "xs[i := s] = take i xs @ s # drop (Suc i) xs"
    using assms(2) by (simp add: upd_conv_take_nth_drop)
  moreover have "filter armed (take i xs) = []" "filter armed (drop (Suc i) xs) = []"
    using assms(1) aborted_not_armed by (auto simp: filter_empty_conv dest: in_set_takeD in_set_dropD)
  ultimately show ?thesis
    using assms(1,3) by (auto simp: one_armed_def dest: in_set_takeD in_set_dropD)
qed

lemma one_armed_append:
  assumes "\<forall>s\<in>set xs. aborted s" "armed s"
  shows "one_armed (xs @ [s])"
  using one_armed_update [of "xs @ [s\<lparr>t_wait := Ready operation_aborted\<rparr>]" "length xs" s] assms
  by (auto simp: aborted_def armed_def)

lemma aborted_rearms: "aborted s \<Longrightarrow> armed (on_timer operation_aborted (s\<lparr>t_wait := No_wait\<rparr>))"
  by (simp add: aborted_def armed_def on_timer_def)

lemma armed_rearm_list: "armed s \<Longrightarrow> t_wait s = Waiting"
  by (simp add: armed_def)

lemma one_armed_wait:
  assumes "one_armed xs" "i < length xs" "t_wait (xs ! i) = Ready ec"
  shows "one_armed (shared_wait i ec xs)"
proof -
  have "aborted (xs ! i)" "ec = operation_aborted"
    using assms(3) nth_mem [OF assms(2)] assms(1) by (fastforce simp: one_armed_def aborted_def armed_def)+
  then have "armed (on_timer ec ((xs ! i)\<lparr>t_wait := No_wait\<rparr>))"
    using aborted_rearms by blast
  then show ?thesis
    using one_armed_update [of "cancel_waits xs" i] cancel_waits_aborted [of xs] assms(1,2)
    by (simp add: shared_wait_def one_armed_def [of xs] armed_rearm_list)
qed

lemma quiet_one_armed: "shared_run evs xs \<Longrightarrow> quiet evs \<Longrightarrow> one_armed xs"
proof (induction rule: shared_run.induct)
  case (step evs xs e xs')
  then have IH: "one_armed xs"
    by (simp add: quiet_def)
  from step(2) show ?case
  proof cases
    case starts
    then show ?thesis
      using one_armed_append [of "cancel_waits xs"] cancel_waits_aborted [of xs] IH
      by (auto simp: shared_start_def one_armed_def [of xs] armed_def timed_init_def)
  next
    case (wait_returns i ec)
    with IH one_armed_wait show ?thesis
      by blast
  qed (use step(4) in \<open>auto simp: quiet_def\<close>)
qed (simp add: one_armed_def)

text \<open>With two operations in progress there is an aborted wait, whose return aborts the other one.\<close>

lemma one_armed_aborted:
  assumes "one_armed xs" "2 \<le> length xs"
  shows "\<exists>i<length xs. t_wait (xs ! i) = Ready operation_aborted"
proof -
  have "filter armed xs \<noteq> xs"
  proof
    assume "filter armed xs = xs"
    with assms show False
      by (auto simp: one_armed_def)
  qed
  then obtain s where "s \<in> set xs" "\<not> armed s"
    by (metis filter_True)
  with assms(1) have "t_wait s = Ready operation_aborted"
    by (auto simp: one_armed_def aborted_def)
  with \<open>s \<in> set xs\<close> show ?thesis
    by (auto simp: in_set_conv_nth)
qed

lemma spins:
  assumes "shared_run evs xs" "quiet evs" "2 \<le> length xs"
  shows "\<exists>ws xs'. shared_run (evs @ map Sh_wait ws) xs' \<and> length ws = n \<and> length xs' = length xs"
proof (induction n)
  case 0
  then show ?case
    using assms(1) by (intro exI [of _ "[]"] exI [of _ xs]) simp
next
  case (Suc n)
  then obtain ws xs' where r: "shared_run (evs @ map Sh_wait ws) xs'" "length ws = n" "length xs' = length xs"
    by blast
  moreover have "quiet (evs @ map Sh_wait ws)"
    using assms(2) by (rule quiet_waits)
  ultimately obtain i where "i < length xs'" "t_wait (xs' ! i) = Ready operation_aborted"
    using one_armed_aborted quiet_one_armed assms(3) by metis
  then have "shared_run ((evs @ map Sh_wait ws) @ [Sh_wait i]) (shared_wait i operation_aborted xs')"
    by (intro shared_run.step [OF r(1)] shared_step.wait_returns)
  with r show ?case
    by (intro exI [of _ "ws @ [i]"] exI [of _ "shared_wait i operation_aborted xs'"]) simp
qed

subsection \<open>One operation after the other\<close>

text \<open>The use that the documentation describes: an operation starts when the one before is over.\<close>

inductive sequential_run :: "'a shared_event list \<Rightarrow> 'a timed list \<Rightarrow> bool" where
  init: "sequential_run [] []"
| start: "sequential_run evs xs \<Longrightarrow> list_all timed_final xs \<Longrightarrow> sequential_run (evs @ [Sh_start]) (shared_start xs)"
| step: "sequential_run evs xs \<Longrightarrow> shared_step xs e xs' \<Longrightarrow> e \<noteq> Sh_start \<Longrightarrow> sequential_run (evs @ [e]) xs'"

lemma sequential_shared: "sequential_run evs xs \<Longrightarrow> shared_run evs xs"
  by (induction rule: sequential_run.induct) (auto intro: shared_run.intros shared_step.intros)

lemma final_idle: "timed_final s \<Longrightarrow> timer_cancel s = s" "timed_final s \<Longrightarrow> expire s = s"
  by (simp_all add: timed_final_def timer_cancel_def expire_def)

lemma cancel_waits_finals: "list_all timed_final xs \<Longrightarrow> cancel_waits xs = xs"
  by (induction xs) (simp_all add: cancel_waits_def final_idle)

lemma expire_finals: "list_all timed_final xs \<Longrightarrow> map expire xs = xs"
  by (induction xs) (simp_all add: final_idle)

lemma cancel_waits_append: "cancel_waits (xs @ [s]) = cancel_waits xs @ [timer_cancel s]"
  by (simp add: cancel_waits_def)

lemma final_nth: "list_all timed_final xs \<Longrightarrow> i < length xs \<Longrightarrow> \<not> t_op (xs ! i) \<and> t_wait (xs ! i) = No_wait"
  by (simp add: list_all_length timed_final_def)

text \<open>Only the last operation moves, and it moves as a timed operation on its own.\<close>

lemma last_moves:
  assumes "shared_step (xs @ [s]) e ys" "e \<noteq> Sh_start" "list_all timed_final xs"
  shows "\<exists>te s'. ys = xs @ [s'] \<and> te \<noteq> Rearmed \<and> timed_step s te s'"
  using assms(1)
proof cases
  case (completes i args)
  then have i: "i = length xs"
    using final_nth [OF assms(3), of i] by (auto simp: nth_append split: if_splits)
  have "ys = xs @ [on_op args (s\<lparr>t_op := False\<rparr>)]"
    using completes i cancel_waits_finals [OF assms(3)] by (simp add: shared_op_def cancel_waits_append Let_def)
  moreover have "timed_step s (Op_done args) (on_op args (s\<lparr>t_op := False\<rparr>))"
    using completes i by (auto simp: timed_step_simps)
  ultimately show ?thesis
    by blast
next
  case expires
  then have "t_wait s = Waiting"
    using assms(3) by (auto simp: list_all_iff timed_final_def)
  with expires expire_finals [OF assms(3)] show ?thesis
    by (auto simp: expire_def timed_step_simps)
next
  case (wait_returns i ec)
  then have i: "i = length xs"
    using final_nth [OF assms(3), of i] by (auto simp: nth_append split: if_splits)
  have "ys = xs @ [on_timer ec (s\<lparr>t_wait := No_wait\<rparr>)]"
    using wait_returns i cancel_waits_finals [OF assms(3)] by (simp add: shared_wait_def cancel_waits_append Let_def)
  moreover have "timed_step s Wait_done (on_timer ec (s\<lparr>t_wait := No_wait\<rparr>))"
    using wait_returns i by (auto simp: timed_step_simps)
  ultimately show ?thesis
    by blast
qed (use assms(2) in simp)

definition sequential_inv :: "'a shared_event list \<Rightarrow> 'a timed list \<Rightarrow> bool" where
  "sequential_inv evs xs \<longleftrightarrow> list_all timed_final (butlast xs) \<and>
     length evs + (if xs = [] then 0 else steps_left (last xs)) \<le> 4 * length xs"

lemma run_last:
  assumes "shared_run evs (xs @ [s])"
  shows "\<exists>tevs. timed_inv tevs s"
  using shared_run_refined [OF assms] timed_inv_run by (force simp: refined_def nth_append)

lemma sequential_bound: "sequential_run evs xs \<Longrightarrow> sequential_inv evs xs"
proof (induction rule: sequential_run.induct)
  case (start evs xs)
  have "steps_left (timed_init :: 'a timed) = 3"
    by (simp add: steps_left_def timed_init_def)
  moreover have "length evs \<le> 4 * length xs"
    using start by (simp add: sequential_inv_def)
  ultimately show ?case
    using start(2) by (simp add: sequential_inv_def shared_start_def cancel_waits_finals)
next
  case (step evs xs e xs')
  show ?case
  proof (cases xs rule: rev_cases)
    case Nil
    with step(2,3) show ?thesis
      by (auto elim: shared_step.cases)
  next
    case (snoc ys s)
    with step(4) have fin: "list_all timed_final ys" and le: "length evs + steps_left s \<le> 4 * length xs"
      by (simp_all add: sequential_inv_def)
    obtain tevs where inv: "timed_inv tevs s"
      using run_last sequential_shared [OF step(1)] snoc by blast
    with last_moves step(2,3) snoc fin obtain te s' where
      m: "xs' = ys @ [s']" "te \<noteq> Rearmed" "timed_step s te s'"
      by blast
    with steps_left_step [OF m(3) inv] le fin snoc show ?thesis
      by (simp add: sequential_inv_def)
  qed
qed (simp add: sequential_inv_def)

subsection \<open>Properties\<close>

text \<open>
  C13: every operation on a shared timer is a timed operation: what the others do with the
  timer only re-arms it. So its handler is called at most once, with its own result, and its
  stream is closed only after the shared timer expired.
\<close>

theorem shared_timer_refines:
  assumes "shared_run evs xs" "i < length xs"
  shows "(\<exists>tevs. timed_run tevs (xs ! i) \<and> own_events i evs tevs) \<and> length (t_calls (xs ! i)) \<le> 1 \<and>
    (\<forall>r. r \<in> set (t_calls (xs ! i)) \<longrightarrow> Sh_op i r \<in> set evs) \<and> (t_closed (xs ! i) \<longrightarrow> Sh_expired \<in> set evs)"
proof -
  obtain tevs where t: "timed_run tevs (xs ! i)" "own_events i evs tevs"
    using shared_run_refined [OF assms(1)] assms(2) by (auto simp: refined_def)
  have "length (t_calls (xs ! i)) \<le> 1" "\<forall>r\<in>set (t_calls (xs ! i)). only_op tevs r"
    using timed_inv_run [OF t(1)] by (auto simp: timed_inv_defs)
  moreover have "t_closed (xs ! i) \<Longrightarrow> Expired \<in> set tevs"
    using closed_inv_run [OF t(1)] by (simp add: closed_inv_def)
  ultimately show ?thesis
    using t by (auto simp: own_events_def only_op_def)
qed

text \<open>Two operations started one after the other.\<close>

definition two_started :: "nat timed list" where
  "two_started = shared_start (shared_start [])"

lemma two_started_run: "shared_run [Sh_start, Sh_start] two_started"
  unfolding two_started_def
  using shared_run.step [OF shared_run.step [OF shared_run.init shared_step.starts] shared_step.starts] by simp

theorem shared_timer_refines_witness:
  "1 < length two_started \<and> length (t_calls (two_started ! 1)) \<le> 1 \<and>
   (\<exists>tevs. timed_run tevs (two_started ! 1) \<and> own_events 1 [Sh_start, Sh_start] tevs)"
  using shared_timer_refines [OF two_started_run, of 1] by (simp add: two_started_def)

text \<open>
  C25: while two or more operations of a session overlap, the timer is never left to expire in
  peace: as long as no operation completes there is always an aborted wait whose completion is
  queued, whose handler sets the expiry time anew and aborts another wait, and so on through any
  number of completions, with every operation still outstanding and no handler called.
\<close>

theorem shared_timer_spins:
  assumes "shared_run evs xs" "quiet evs" "2 \<le> length xs"
  shows "\<exists>ws xs'. shared_run (evs @ map Sh_wait ws) xs' \<and> length ws = n \<and>
    (\<exists>i<length xs'. t_wait (xs' ! i) = Ready operation_aborted) \<and> list_all t_op xs' \<and> \<not> list_ex t_done xs'"
proof -
  obtain ws xs' where r: "shared_run (evs @ map Sh_wait ws) xs'" "length ws = n" "length xs' = length xs"
    using spins [OF assms] by blast
  moreover have "one_armed xs'"
    using quiet_one_armed [OF r(1)] quiet_waits [OF assms(2)] by blast
  moreover from this have "list_all t_op xs'" "\<not> list_ex t_done xs'"
    by (auto simp: one_armed_def aborted_def armed_def list_all_iff list_ex_iff)
  moreover have "\<exists>i<length xs'. t_wait (xs' ! i) = Ready operation_aborted"
    using one_armed_aborted [OF \<open>one_armed xs'\<close>] assms(3) r(3) by simp
  ultimately show ?thesis
    by blast
qed

theorem shared_timer_spins_witness:
  "\<exists>ws xs'. shared_run ([Sh_start, Sh_start] @ map Sh_wait ws) (xs' :: nat timed list) \<and> length ws = 1000 \<and>
     list_all t_op xs'"
  using shared_timer_spins [OF two_started_run, of 1000] by (auto simp: quiet_def two_started_def)

text \<open>
  C24: operations that are started one after the other never disturb each other: a session that
  has started \<open>n\<close> operations this way has gone through at most \<open>4 * n\<close> steps, starts
  included, whatever operations and timer do, and all operations but the last are over.
\<close>

theorem sequential_operations_end:
  assumes "sequential_run evs xs"
  shows "length evs \<le> 4 * length xs \<and> list_all timed_final (butlast xs)"
  using sequential_bound [OF assms] by (simp add: sequential_inv_def)

theorem sequential_operations_end_witness:
  "\<exists>xs :: nat timed list. sequential_run [Sh_start, Sh_op 0 7, Sh_wait 0, Sh_start] xs \<and>
     list_all timed_final (butlast xs)"
proof -
  define xs :: "nat timed list" where "xs = shared_wait 0 operation_aborted (shared_op 0 7 (shared_start []))"
  have "sequential_run [Sh_start] (shared_start [] :: nat timed list)"
    using sequential_run.start [OF sequential_run.init] by simp
  then have "sequential_run ([Sh_start] @ [Sh_op 0 7]) (shared_op 0 7 (shared_start []) :: nat timed list)"
    by (rule sequential_run.step) (auto intro!: shared_step.completes simp: shared_start_def cancel_waits_def timed_init_def)
  then have "sequential_run (([Sh_start] @ [Sh_op 0 7]) @ [Sh_wait 0]) xs"
    unfolding xs_def by (rule sequential_run.step)
      (auto intro!: shared_step.wait_returns simp: shared_op_def shared_start_def cancel_waits_def timed_init_def timed_defs)
  moreover have "list_all timed_final xs"
    by (simp add: xs_def shared_wait_def shared_op_def shared_start_def cancel_waits_def timed_init_def timed_defs timed_final_def)
  ultimately have "sequential_run [Sh_start, Sh_op 0 7, Sh_wait 0, Sh_start] (shared_start xs)"
    using sequential_run.start by fastforce
  with sequential_operations_end [OF this] show ?thesis
    by blast
qed

end
