(* ===== verification/Timed_Session.thy ===== *)
theory Timed_Session
  imports Timed_Op Session
begin

text \<open>
  The two halves of a session's operation put together: \<open>detail::async_timer\<close> runs a coroutine
  of \<open>Session\<close> as the wrapped operation of \<open>Timed_Op\<close>. When the coroutine completes, the
  intermediate handler gets its result; when the timer expires first, the handler closes the
  plain layer of the session's stream, and the operation that is pending on it can only come
  back as aborted, unless its completion is already queued.
\<close>

record ('s, 'op, 'ev, 'r) timed_session =
  ts_coro :: 's
  ts_outs :: "('op, 'r) out list"        \<comment> \<open>what the coroutine has done so far\<close>
  ts_timed :: "'r timed"
  ts_ready :: "'ev option"               \<comment> \<open>the queued completion of the pending operation\<close>
  ts_cut :: bool                         \<comment> \<open>the stream was closed under the pending operation\<close>

text \<open>
  What closing the stream does: to the state of the coroutine, and to an operation that is
  pending, which can from then on only complete in certain ways.
\<close>

record ('s, 'op, 'ev) closing =
  cl_close :: "'s \<Rightarrow> 's"
  cl_ends :: "'op \<Rightarrow> 'ev \<Rightarrow> bool"

definition ts_resume ::
  "('s \<Rightarrow> 'ev \<Rightarrow> 's \<times> ('op, 'r) out) \<Rightarrow> 'ev \<Rightarrow> ('s, 'op, 'ev, 'r) timed_session \<Rightarrow> ('s, 'op, 'ev, 'r) timed_session" where
  "ts_resume resume ev x =
     (case resume (ts_coro x) ev of
        (c, out) \<Rightarrow>
          x\<lparr>ts_coro := c, ts_outs := ts_outs x @ [out], ts_ready := None, ts_cut := False,
            ts_timed := (case out of
                Return r \<Rightarrow> on_op r ((ts_timed x)\<lparr>t_op := False\<rparr>)
              | _ \<Rightarrow> ts_timed x)\<rparr>)"

text \<open>\<open>close(stream)\<close> at the end of the timer's handler.\<close>

definition close_session :: "'k socket_api \<Rightarrow> 'k session \<Rightarrow> 'k session" where
  "close_session api s = s\<lparr>se_stream := ms_map_plain (close_nothrow api) (se_stream s)\<rparr>"

definition ts_waited :: "('s, 'op, 'ev) closing \<Rightarrow> error_code \<Rightarrow> ('s, 'op, 'ev, 'r) timed_session \<Rightarrow> ('s, 'op, 'ev, 'r) timed_session" where
  "ts_waited cl ec x =
     (let t = on_timer ec ((ts_timed x)\<lparr>t_wait := No_wait\<rparr>)
      in if t_closed t \<and> \<not> t_closed (ts_timed x)
         then x\<lparr>ts_timed := t, ts_coro := cl_close cl (ts_coro x), ts_cut := True\<rparr>
         else x\<lparr>ts_timed := t\<rparr>)"

text \<open>The results that the pending operation can still have.\<close>

definition ts_may :: "('s, 'op, 'ev) closing \<Rightarrow> ('s, 'op, 'ev, 'r) timed_session \<Rightarrow> 'ev \<Rightarrow> bool" where
  "ts_may cl x ev =
     (case ts_ready x of
        Some e \<Rightarrow> ev = e
      | None \<Rightarrow> (case last (ts_outs x) of Yield op \<Rightarrow> ts_cut x \<longrightarrow> cl_ends cl op ev | _ \<Rightarrow> False))"

text \<open>\<open>async_timer\<close>: start the wait, then the coroutine, which runs up to its first operation.\<close>

definition async_timer ::
  "('s \<Rightarrow> 'ev \<Rightarrow> 's \<times> ('op, 'r) out) \<Rightarrow> 'ev \<Rightarrow> 's \<Rightarrow> ('s, 'op, 'ev, 'r) timed_session" where
  "async_timer resume start s = ts_resume resume start \<lparr>ts_coro = s, ts_outs = [], ts_timed = timed_init, ts_ready = None, ts_cut = False\<rparr>"

text \<open>
  \<open>Completes\<close> queues the completion of the pending operation, \<open>Resume\<close> runs the coroutine with
  it (or with a completion that was not seen waiting in the queue).
\<close>

datatype 'ev ts_event = Completes 'ev | Resume 'ev | Expires | Rearms | Waited

inductive ts_step ::
  "('s \<Rightarrow> 'ev \<Rightarrow> 's \<times> ('op, 'r) out) \<Rightarrow> ('s, 'op, 'ev) closing \<Rightarrow>
   ('s, 'op, 'ev, 'r) timed_session \<Rightarrow> 'ev ts_event \<Rightarrow> ('s, 'op, 'ev, 'r) timed_session \<Rightarrow> bool"
  for resume cl where
  completes: "list_all yields (ts_outs x) \<Longrightarrow> ts_ready x = None \<Longrightarrow> ts_may cl x ev \<Longrightarrow>
    ts_step resume cl x (Completes ev) (x\<lparr>ts_ready := Some ev\<rparr>)"
| resumes: "list_all yields (ts_outs x) \<Longrightarrow> ts_may cl x ev \<Longrightarrow> ts_step resume cl x (Resume ev) (ts_resume resume ev x)"
| expires: "t_wait (ts_timed x) = Waiting \<Longrightarrow>
    ts_step resume cl x Expires (x\<lparr>ts_timed := (ts_timed x)\<lparr>t_wait := Ready no_error\<rparr>\<rparr>)"
| rearms: "t_wait (ts_timed x) = Waiting \<Longrightarrow>
    ts_step resume cl x Rearms (x\<lparr>ts_timed := (ts_timed x)\<lparr>t_wait := Ready operation_aborted\<rparr>\<rparr>)"
| waited: "t_wait (ts_timed x) = Ready ec \<Longrightarrow> ts_step resume cl x Waited (ts_waited cl ec x)"

inductive ts_run ::
  "('s \<Rightarrow> 'ev \<Rightarrow> 's \<times> ('op, 'r) out) \<Rightarrow> ('s, 'op, 'ev) closing \<Rightarrow> 'ev \<Rightarrow> 's \<Rightarrow> 'ev ts_event list \<Rightarrow>
   ('s, 'op, 'ev, 'r) timed_session \<Rightarrow> bool"
  for resume cl start s where
  init: "ts_run resume cl start s [] (async_timer resume start s)"
| step: "ts_run resume cl start s evs x \<Longrightarrow> ts_step resume cl x e x' \<Longrightarrow>
    ts_run resume cl start s (evs @ [e]) x'"

text \<open>The step an event makes, when it is possible, and the state after a sequence of events.\<close>

fun ts_next ::
  "('s \<Rightarrow> 'ev \<Rightarrow> 's \<times> ('op, 'r) out) \<Rightarrow> ('s, 'op, 'ev) closing \<Rightarrow> ('s, 'op, 'ev, 'r) timed_session \<Rightarrow> 'ev ts_event \<Rightarrow>
   ('s, 'op, 'ev, 'r) timed_session option" where
  "ts_next resume cl x (Completes ev) =
     (if list_all yields (ts_outs x) \<and> ts_ready x = None \<and> ts_may cl x ev then Some (x\<lparr>ts_ready := Some ev\<rparr>) else None)"
| "ts_next resume cl x (Resume ev) =
     (if list_all yields (ts_outs x) \<and> ts_may cl x ev then Some (ts_resume resume ev x) else None)"
| "ts_next resume cl x Expires =
     (if t_wait (ts_timed x) = Waiting then Some (x\<lparr>ts_timed := (ts_timed x)\<lparr>t_wait := Ready no_error\<rparr>\<rparr>) else None)"
| "ts_next resume cl x Rearms =
     (if t_wait (ts_timed x) = Waiting then Some (x\<lparr>ts_timed := (ts_timed x)\<lparr>t_wait := Ready operation_aborted\<rparr>\<rparr>) else None)"
| "ts_next resume cl x Waited =
     (case t_wait (ts_timed x) of Ready ec \<Rightarrow> Some (ts_waited cl ec x) | _ \<Rightarrow> None)"

primrec ts_exec ::
  "('s \<Rightarrow> 'ev \<Rightarrow> 's \<times> ('op, 'r) out) \<Rightarrow> ('s, 'op, 'ev) closing \<Rightarrow> ('s, 'op, 'ev, 'r) timed_session \<Rightarrow> 'ev ts_event list \<Rightarrow>
   ('s, 'op, 'ev, 'r) timed_session option" where
  "ts_exec resume cl x [] = Some x"
| "ts_exec resume cl x (e # es) = Option.bind (ts_next resume cl x e) (\<lambda>x'. ts_exec resume cl x' es)"

lemma ts_next_step: "ts_step resume cl x e x' \<longleftrightarrow> ts_next resume cl x e = Some x'"
  by (cases e) (auto split: wait.splits if_splits intro: ts_step.intros elim: ts_step.cases)

lemma ts_exec_run_from:
  "ts_run resume cl start s evs x \<Longrightarrow> ts_exec resume cl x es = Some x' \<Longrightarrow> ts_run resume cl start s (evs @ es) x'"
proof (induction es arbitrary: evs x)
  case (Cons e es)
  then obtain y where "ts_next resume cl x e = Some y" "ts_exec resume cl y es = Some x'"
    by (auto split: bind_splits)
  with Cons.IH [of "evs @ [e]" y] Cons.prems(1) show ?case
    by (simp add: ts_run.step ts_next_step)
qed simp

lemma ts_exec_run:
  "ts_exec resume cl (async_timer resume start s) es = Some x \<Longrightarrow> ts_run resume cl start s es x"
  using ts_exec_run_from [OF ts_run.init] by fastforce

subsection \<open>Projection to the race\<close>

definition race_of :: "'ev ts_event list \<Rightarrow> ('s, 'op, 'ev, 'r) timed_session \<Rightarrow> 'r timed_event list \<Rightarrow> bool" where
  "race_of evs x tevs \<longleftrightarrow> timed_run tevs (ts_timed x) \<and>
     (\<forall>r. Op_done r \<in> set tevs \<longleftrightarrow> Return r \<in> set (ts_outs x)) \<and> (Expired \<in> set tevs \<longleftrightarrow> Expires \<in> set evs)"

lemma race_op: "race_of evs x tevs \<Longrightarrow> list_all yields (ts_outs x) \<Longrightarrow> t_op (ts_timed x)"
  using timed_inv_run [of tevs "ts_timed x"]
  by (force simp: race_of_def timed_inv_defs only_op_def list_all_iff)

lemma race_calls:
  assumes "race_of evs x tevs"
  shows "length (t_calls (ts_timed x)) \<le> 1" "r \<in> set (t_calls (ts_timed x)) \<Longrightarrow> Return r \<in> set (ts_outs x)"
proof -
  have inv: "timed_inv tevs (ts_timed x)"
    using assms by (simp add: race_of_def timed_inv_run)
  then show "length (t_calls (ts_timed x)) \<le> 1"
    by (auto simp: timed_inv_defs)
  assume "r \<in> set (t_calls (ts_timed x))"
  with inv have "only_op tevs r"
    by (auto simp: timed_inv_defs)
  with assms show "Return r \<in> set (ts_outs x)"
    by (simp add: race_of_def only_op_def)
qed

lemma race_resume:
  assumes "race_of evs x tevs" "list_all yields (ts_outs x)"
  shows "\<exists>tevs'. race_of (evs @ [Resume ev]) (ts_resume resume ev x) tevs'"
proof -
  obtain c out where r: "resume (ts_coro x) ev = (c, out)"
    by (cases "resume (ts_coro x) ev")
  show ?thesis
  proof (cases out)
    case (Return res)
    with r have "timed_step (ts_timed x) (Op_done res) (ts_timed (ts_resume resume ev x))"
      using race_op [OF assms] by (simp add: ts_resume_def timed_step_simps)
    with assms(1) have "timed_run (tevs @ [Op_done res]) (ts_timed (ts_resume resume ev x))"
      by (auto simp: race_of_def intro: timed_run.step)
    with r Return assms(1) have "race_of (evs @ [Resume ev]) (ts_resume resume ev x) (tevs @ [Op_done res])"
      by (auto simp: race_of_def ts_resume_def)
    then show ?thesis ..
  qed (use r assms(1) in \<open>auto simp: race_of_def ts_resume_def intro!: exI [of _ tevs]\<close>)
qed

lemma race_timer:
  assumes "race_of evs x tevs" "timed_step (ts_timed x) te (ts_timed x')" "ts_outs x' = ts_outs x"
    and "(e = Expires \<and> te = Expired) \<or> (e = Rearms \<and> te = Rearmed) \<or> (e = Waited \<and> te = Wait_done)"
  shows "\<exists>tevs'. race_of (evs @ [e]) x' tevs'"
  using assms by (intro exI [of _ "tevs @ [te]"]) (auto simp: race_of_def intro: timed_run.step)

lemma ts_run_race: "ts_run resume cl start s evs x \<Longrightarrow> \<exists>tevs. race_of evs x tevs"
proof (induction rule: ts_run.induct)
  case init
  have "race_of [] \<lparr>ts_coro = s, ts_outs = [], ts_timed = timed_init, ts_ready = None, ts_cut = False\<rparr> []"
    by (simp add: race_of_def timed_run.init)
  from race_resume [OF this, of start resume] obtain tevs where
    "race_of [Resume start] (async_timer resume start s) tevs"
    by (auto simp: async_timer_def)
  then show ?case
    by (auto simp: race_of_def)
next
  case (step evs x e x')
  then obtain tevs where t: "race_of evs x tevs"
    by blast
  from step(2) show ?case
  proof cases
    case (completes ev)
    with t show ?thesis
      by (intro exI [of _ tevs]) (simp add: race_of_def)
  next
    case (resumes ev)
    with race_resume [OF t] show ?thesis
      by blast
  next
    case expires
    then show ?thesis
      by (intro race_timer [OF t, of Expired]) (auto simp: timed_step_simps)
  next
    case rearms
    then show ?thesis
      by (intro race_timer [OF t, of Rearmed]) (auto simp: timed_step_simps)
  next
    case (waited ec)
    then show ?thesis
      by (intro race_timer [OF t, of Wait_done]) (auto simp: timed_step_simps ts_waited_def Let_def)
  qed
qed

subsection \<open>Projection to the coroutine\<close>

text \<open>The events that the coroutine was resumed with.\<close>

fun resumptions :: "'ev ts_event list \<Rightarrow> 'ev list" where
  "resumptions [] = []"
| "resumptions (Resume ev # es) = ev # resumptions es"
| "resumptions (e # es) = resumptions es"

lemma resumptions_append [simp]: "resumptions (es @ es') = resumptions es @ resumptions es'"
  by (induction es rule: resumptions.induct) simp_all

definition follows ::
  "('s \<Rightarrow> 'ev \<Rightarrow> 's \<times> ('op, 'r) out) \<Rightarrow> 'ev \<Rightarrow> 's \<Rightarrow> 'ev ts_event list \<Rightarrow> ('s, 'op, 'ev, 'r) timed_session \<Rightarrow> bool" where
  "follows resume start s evs x \<longleftrightarrow>
     coro_run resume s (start # resumptions evs) = (ts_coro x, ts_outs x) \<and> length (ts_outs x) = Suc (length (resumptions evs))"

lemma on_op_closed [simp]: "t_closed (on_op r s) = t_closed s"
  by (simp add: timed_defs split: option.split)

lemma on_timer_closed: "t_closed s \<Longrightarrow> t_closed (on_timer ec s)"
  by (simp add: timed_defs split: option.split)

lemma ts_run_follows: "ts_run resume cl start s evs x \<Longrightarrow> \<not> t_closed (ts_timed x) \<Longrightarrow> follows resume start s evs x"
proof (induction rule: ts_run.induct)
  case init
  show ?case
    by (cases "resume s start"; cases "snd (resume s start)")
      (simp_all add: follows_def async_timer_def ts_resume_def)
next
  case (step evs x e x')
  from step(2) show ?case
  proof cases
    case (resumes ev)
    obtain c out where r: "resume (ts_coro x) ev = (c, out)"
      by (cases "resume (ts_coro x) ev")
    have "\<not> t_closed (ts_timed x)"
      using step(4) resumes r by (cases out) (simp_all add: ts_resume_def)
    then have f: "follows resume start s evs x"
      by (rule step(3))
    with resumes(3) coro_run_snoc [of resume s "start # resumptions evs" "ts_coro x" "ts_outs x" ev] r
    have "coro_run resume s ((start # resumptions evs) @ [ev]) = (c, ts_outs x @ [out])"
      by (simp add: follows_def del: coro_run.simps)
    with f resumes r show ?thesis
      by (simp add: follows_def ts_resume_def del: coro_run.simps)
  next
    case (waited ec)
    then have "\<not> t_closed (ts_timed x)"
      using step(4) on_timer_closed [of "(ts_timed x)\<lparr>t_wait := No_wait\<rparr>" ec] by (auto simp: ts_waited_def Let_def)
    with waited step(3,4) show ?thesis
      by (simp add: follows_def ts_waited_def Let_def split: if_splits del: coro_run.simps)
  qed (use step(3,4) in \<open>simp_all add: follows_def del: coro_run.simps\<close>)
qed

text \<open>What neither the coroutine nor the timer changes stays as it was at the start.\<close>

lemma ts_run_keeps:
  assumes "ts_run resume cl start s evs x" "\<And>c ev. f (fst (resume c ev)) = f c" "\<And>c. f (cl_close cl c) = f c"
  shows "f (ts_coro x) = f s"
  using assms(1)
proof (induction rule: ts_run.induct)
  case init
  show ?case
    using assms(2) [of s start] by (cases "resume s start") (simp add: async_timer_def ts_resume_def)
next
  case (step evs x e x')
  from step(2) show ?case
  proof cases
    case (resumes ev)
    with step(3) assms(2) [of "ts_coro x" ev] show ?thesis
      by (cases "resume (ts_coro x) ev") (simp add: ts_resume_def)
  qed (use step(3) assms(3) in \<open>simp_all add: ts_waited_def Let_def\<close>)
qed

text \<open>What holds whenever the coroutine returns still holds when the handler is called.\<close>

lemma ts_run_final:
  assumes "ts_run resume cl start s evs x" "I s"
    and "\<And>c ev. I c \<Longrightarrow> I (fst (resume c ev))" "\<And>c. I c \<Longrightarrow> I (cl_close cl c)"
    and "\<And>c ev c' r. I c \<Longrightarrow> resume c ev = (c', Return r) \<Longrightarrow> P c'" "\<And>c. P c \<Longrightarrow> P (cl_close cl c)"
  shows "I (ts_coro x) \<and> (Return r \<in> set (ts_outs x) \<longrightarrow> P (ts_coro x))"
  using assms(1)
proof (induction rule: ts_run.induct)
  case init
  show ?case
    using assms(2) assms(3) [of s start] assms(5) [of s start] by (cases "resume s start") (auto simp: async_timer_def ts_resume_def)
next
  case (step evs x e x')
  from step(2) show ?case
  proof cases
    case (resumes ev)
    then have "Return r \<notin> set (ts_outs x)"
      by (auto simp: list_all_iff)
    with resumes step(3) assms(3) [of "ts_coro x" ev] assms(5) [of "ts_coro x" ev] show ?thesis
      by (cases "resume (ts_coro x) ev") (auto simp: ts_resume_def)
  qed (use step(3) assms(4,6) in \<open>auto simp: ts_waited_def Let_def\<close>)
qed

subsection \<open>A stream closed by the timer\<close>

text \<open>
  What the timer's handler does to the state of the coroutine, and that no resumption undoes it.
\<close>

locale timed_closing =
  fixes resume :: "'s \<Rightarrow> 'ev \<Rightarrow> 's \<times> ('op, 'r) out"
    and cl :: "('s, 'op, 'ev) closing"
    and closed :: "'s \<Rightarrow> bool"
  assumes close_closes: "closed (cl_close cl c)"
    and resume_keeps: "closed c \<Longrightarrow> closed (fst (resume c ev))"
begin

lemma run_closed: "ts_run resume cl start s evs x \<Longrightarrow> t_closed (ts_timed x) \<Longrightarrow> closed (ts_coro x)"
proof (induction rule: ts_run.induct)
  case init
  then show ?case
    by (simp add: async_timer_def ts_resume_def timed_init_def split: prod.splits out.splits)
next
  case (step evs x e x')
  from step(2) show ?case
  proof cases
    case (resumes ev)
    with step(3,4) resume_keeps [of "ts_coro x" ev] show ?thesis
      by (auto simp: ts_resume_def split: prod.splits out.splits)
  next
    case (waited ec)
    with step(3,4) close_closes show ?thesis
      by (auto simp: ts_waited_def Let_def)
  qed (use step(3,4) in simp_all)
qed

end

text \<open>An operation of a session that only reads and writes leaves the session as it is.\<close>

definition on_session ::
  "(pc \<Rightarrow> 'ev \<Rightarrow> pc \<times> ('op, 'r) out) \<Rightarrow> pc \<times> 'k session \<Rightarrow> 'ev \<Rightarrow> (pc \<times> 'k session) \<times> ('op, 'r) out" where
  "on_session f c ev = (case f (fst c) ev of (pc, out) \<Rightarrow> ((pc, snd c), out))"

definition session_closed :: "'k socket_api \<Rightarrow> pc \<times> 'k session \<Rightarrow> bool" where
  "session_closed api c = (\<not> sk_is_open api (ms_plain (se_stream (snd c))))"

text \<open>
  Closing a socket aborts what is pending on it, with \<open>operation_aborted\<close>. A resolver is
  another object: a resolution goes on.
\<close>

fun net_ends :: "net_op \<Rightarrow> net_ev \<Rightarrow> bool" where
  "net_ends (Resolve host service) ev = True"
| "net_ends (Tcp_connect eps) ev = (case ev of Connected ec ep \<Rightarrow> ec = operation_aborted | _ \<Rightarrow> False)"
| "net_ends Detect_ssl ev = (case ev of Detected ec b \<Rightarrow> ec = operation_aborted | _ \<Rightarrow> False)"
| "net_ends op ev = (case ev of Done ec n \<Rightarrow> ec = operation_aborted | _ \<Rightarrow> False)"

definition session_closing :: "'k socket_api \<Rightarrow> (pc \<times> 'k session, net_op, net_ev) closing" where
  "session_closing api = \<lparr>cl_close = apsnd (close_session api), cl_ends = net_ends\<rparr>"

lemma session_closing_sel [simp]:
  "cl_close (session_closing api) = apsnd (close_session api)" "cl_ends (session_closing api) = net_ends"
  by (simp_all add: session_closing_def)

lemma ms_plain_map [simp]: "ms_plain (ms_map_plain f ms) = f (ms_plain ms)"
  by (cases ms) simp_all

context socket_lib
begin

lemma close_session_closes: "session_closed api (apsnd (close_session api) c)"
  by (cases c) (simp add: session_closed_def close_session_def close_nothrow_def close_closes)

lemma shutdown_and_close_closes: "shutdown_and_close api how s = (s', ec) \<Longrightarrow> session_closed api (pc, s')"
  using close_closes by (auto simp: session_closed_def shutdown_and_close_def Let_def split: prod.splits) (metis fst_conv)

lemma client_shutdown_keeps:
  "session_closed api c \<Longrightarrow> session_closed api (fst (client_async_shutdown api c ev))"
  using shutdown_and_close_closes [of shutdown_both]
  by (cases "(api, c, ev)" rule: client_async_shutdown.cases)
    (auto simp: Let_def session_closed_def split: prod.splits)

lemma server_shutdown_keeps:
  "session_closed api c \<Longrightarrow> session_closed api (fst (server_async_shutdown api c ev))"
  using shutdown_and_close_closes [of shutdown_receive]
  by (cases "(api, c, ev)" rule: server_async_shutdown.cases)
    (auto simp: server_half_close_def session_closed_def shutdown_keeps Let_def split: prod.splits)

end

sublocale socket_lib < io: timed_closing "on_session f" "session_closing api" "session_closed api" for f
  by unfold_locales (simp add: close_session_closes, simp add: session_closed_def on_session_def split: prod.split)

sublocale socket_lib < client_end: timed_closing "client_async_shutdown api" "session_closing api" "session_closed api"
  by unfold_locales (simp add: close_session_closes, rule client_shutdown_keeps)

sublocale socket_lib < server_end: timed_closing "server_async_shutdown api" "session_closing api" "session_closed api"
  by unfold_locales (simp add: close_session_closes, rule server_shutdown_keeps)

context socket_lib
begin

lemmas timed_out_closed = io.run_closed client_end.run_closed server_end.run_closed

end

subsection \<open>Properties\<close>

text \<open>
  C11: an operation of a session under its timer refines the race of \<open>Timed_Op\<close>, with the result of its
  coroutine as the result of the wrapped operation; and as long as the timer has not closed the
  stream, the coroutine runs exactly as it does without a timer, on the events it is resumed
  with. So the handler is called at most once, and with what the coroutine returned.
\<close>

theorem timed_session_refines:
  assumes "ts_run resume cl start s evs x"
  shows "(\<exists>tevs. timed_run tevs (ts_timed x) \<and> (\<forall>r. Op_done r \<in> set tevs \<longleftrightarrow> Return r \<in> set (ts_outs x)) \<and>
      (Expired \<in> set tevs \<longleftrightarrow> Expires \<in> set evs)) \<and>
    length (t_calls (ts_timed x)) \<le> 1 \<and> (\<forall>r\<in>set (t_calls (ts_timed x)). Return r \<in> set (ts_outs x)) \<and>
    (\<not> t_closed (ts_timed x) \<longrightarrow> coro_run resume s (start # resumptions evs) = (ts_coro x, ts_outs x))"
proof -
  obtain tevs where t: "race_of evs x tevs"
    using ts_run_race [OF assms] by blast
  then have "length (t_calls (ts_timed x)) \<le> 1" "\<forall>r\<in>set (t_calls (ts_timed x)). Return r \<in> set (ts_outs x)"
    using race_calls [OF t] by auto
  moreover have "\<not> t_closed (ts_timed x) \<longrightarrow> coro_run resume s (start # resumptions evs) = (ts_coro x, ts_outs x)"
    using ts_run_follows [OF assms] unfolding follows_def by blast
  ultimately show ?thesis
    using t unfolding race_of_def by blast
qed

definition plain_session :: "bool session" where
  "plain_session = session_of_stream (ms_plain_of True) default_opts"

lemmas ts_eval = async_timer_def ts_resume_def ts_waited_def ts_may_def timed_init_def timed_defs

text \<open>A request that is answered in time.\<close>

lemma sample_request:
  "\<exists>x. ts_run (on_session async_request) (session_closing socket_ref) Start (At_start, plain_session)
     [Resume (Done no_error 10), Resume (Done no_error 20), Waited] x \<and> t_calls (ts_timed x) = [no_error] \<and> \<not> t_closed (ts_timed x)"
proof -
  have "\<exists>x. ts_exec (on_session async_request) (session_closing socket_ref)
      (async_timer (on_session async_request) Start (At_start, plain_session))
      [Resume (Done no_error 10), Resume (Done no_error 20), Waited] = Some x \<and> t_calls (ts_timed x) = [no_error] \<and> \<not> t_closed (ts_timed x)"
    by (simp add: ts_eval on_session_def)
  then show ?thesis
    by (metis ts_exec_run)
qed

theorem timed_session_refines_witness:
  "\<exists>x. ts_run (on_session async_request) (session_closing socket_ref) Start (At_start, plain_session)
      [Resume (Done no_error 10), Resume (Done no_error 20), Waited] x \<and>
    coro_run (on_session async_request) (At_start, plain_session) [Start, Done no_error 10, Done no_error 20] =
      (ts_coro x, ts_outs x) \<and> Return no_error \<in> set (ts_outs x)"
proof -
  obtain x where x: "ts_run (on_session async_request) (session_closing socket_ref) Start (At_start, plain_session)
      [Resume (Done no_error 10), Resume (Done no_error 20), Waited] x" "t_calls (ts_timed x) = [no_error]"
      "\<not> t_closed (ts_timed x)"
    using sample_request by blast
  with timed_session_refines [OF x(1)] show ?thesis
    by (auto simp del: coro_run.simps)
qed

text \<open>
  When the timer has closed the stream of a session, during any of the operations that read
  or write it, the socket is not open, whatever the operation goes on to do; the timer really
  expired, it is not waited on any more, and the handler is called with the result of the operation only.
\<close>

lemma timeout_closes_stream:
  assumes "socket_lib api"
    and "ts_run (on_session f) (session_closing api) start c evs x" "t_closed (ts_timed x)"
  shows "session_closed api (ts_coro x) \<and> Expires \<in> set evs \<and> t_wait (ts_timed x) = No_wait \<and>
    list_all (\<lambda>r. Return r \<in> set (ts_outs x)) (t_calls (ts_timed x))"
proof -
  obtain tevs where t: "race_of evs x tevs"
    using ts_run_race [OF assms(2)] by blast
  then have run: "timed_run tevs (ts_timed x)" and inv: "timed_inv tevs (ts_timed x)"
    by (simp_all add: race_of_def timed_inv_run)
  have "Expires \<in> set evs"
    using closed_inv_run [OF run] t assms(3) by (simp add: closed_inv_def race_of_def)
  moreover have "t_wait (ts_timed x) = No_wait"
    using inv assms(3) by (auto simp: timed_inv_defs)
  moreover have "list_all (\<lambda>r. Return r \<in> set (ts_outs x)) (t_calls (ts_timed x))"
    using race_calls(2) [OF t] by (simp add: list_all_iff)
  ultimately show ?thesis
    using socket_lib.timed_out_closed(1) [OF assms] by simp
qed

text \<open>A request whose answer does not come: the timer closes the stream and the read fails.\<close>

lemma sample_timeout:
  "\<exists>x. ts_run (on_session async_request) (session_closing socket_ref) Start (At_start, plain_session)
     [Resume (Done no_error 10), Expires, Waited, Resume (Done operation_aborted 0)] x \<and>
     t_calls (ts_timed x) = [operation_aborted] \<and> t_closed (ts_timed x)"
proof -
  have "\<exists>x. ts_exec (on_session async_request) (session_closing socket_ref)
      (async_timer (on_session async_request) Start (At_start, plain_session))
      [Resume (Done no_error 10), Expires, Waited, Resume (Done operation_aborted 0)] = Some x \<and>
      t_calls (ts_timed x) = [operation_aborted] \<and> t_closed (ts_timed x)"
    by (simp add: ts_eval on_session_def)
  then show ?thesis
    by (metis ts_exec_run)
qed

lemma timeout_closes_stream_instance:
  "\<exists>x. ts_run (on_session async_request) (session_closing socket_ref) Start (At_start, plain_session)
     [Resume (Done no_error 10), Expires, Waited, Resume (Done operation_aborted 0)] x \<and>
     t_calls (ts_timed x) = [operation_aborted] \<and> session_closed socket_ref (ts_coro x)"
proof -
  obtain x where x: "ts_run (on_session async_request) (session_closing socket_ref) Start (At_start, plain_session)
      [Resume (Done no_error 10), Expires, Waited, Resume (Done operation_aborted 0)] x" "t_closed (ts_timed x)"
      "t_calls (ts_timed x) = [operation_aborted]"
    using sample_timeout by blast
  with timeout_closes_stream [OF sock.socket_lib_axioms x(1,2)] show ?thesis
    by blast
qed

subsection \<open>What a deadline ends\<close>

text \<open>The state of \<open>connect_op\<close> with its session's stream closed.\<close>

definition close_connect :: "'k socket_api \<Rightarrow> 'k connect_st \<Rightarrow> 'k connect_st" where
  "close_connect api c = c\<lparr>co_session := close_session api (co_session c)\<rparr>"

definition connect_closing :: "'k socket_api \<Rightarrow> ('k connect_st, net_op, net_ev) closing" where
  "connect_closing api = \<lparr>cl_close = close_connect api, cl_ends = net_ends\<rparr>"

lemma connect_closing_sel [simp]:
  "cl_close (connect_closing api) = close_connect api" "cl_ends (connect_closing api) = net_ends"
  by (simp_all add: connect_closing_def)

lemma race_pending:
  "race_of evs x tevs \<Longrightarrow> \<not> t_done (ts_timed x) \<Longrightarrow> Return r \<notin> set (ts_outs x)"
  using timed_inv_run [of tevs "ts_timed x"] by (auto simp: race_of_def timed_inv_defs no_op_def)

text \<open>
  A request of which no completion is queued when its deadline closes the stream: the
  operation that was pending is aborted, and with it the request.
\<close>

definition request_inv :: "(pc \<times> 'k session, net_op, net_ev, error_code) timed_session \<Rightarrow> bool" where
  "request_inv x \<longleftrightarrow> ts_ready x = None \<and>
     (list_all yields (ts_outs x) \<longrightarrow> (fst (ts_coro x), last (ts_outs x)) \<in> {(At_1, Yield Http_write), (At_2, Yield Http_read)}) \<and>
     (t_closed (ts_timed x) \<longrightarrow> (\<forall>r. Return r \<in> set (ts_outs x) \<longrightarrow> r = operation_aborted) \<and>
        (list_all yields (ts_outs x) \<longrightarrow> ts_cut x))"

lemma request_resume_inv:
  assumes "request_inv x" "list_all yields (ts_outs x)" "ts_may (session_closing api) x ev"
  shows "request_inv (ts_resume (on_session async_request) ev x)"
proof -
  have "Return r \<notin> set (ts_outs x)" for r
    using assms(2) by (auto simp: list_all_iff)
  moreover have "t_closed (ts_timed x) \<longrightarrow> (\<exists>n. ev = Done operation_aborted n)"
    using assms by (cases ev) (auto simp: request_inv_def ts_may_def)
  ultimately show ?thesis
    using assms(1,2)
    by (cases "ts_coro x"; cases ev)
      (auto simp: request_inv_def ts_resume_def on_session_def split: if_splits)
qed

lemma request_run_inv:
  assumes "ts_run (on_session async_request) (session_closing api) Start (At_start, s) evs x" "\<forall>ev. Completes ev \<notin> set evs"
  shows "request_inv x"
  using assms
proof (induction rule: ts_run.induct)
  case init
  show ?case
    by (simp add: request_inv_def async_timer_def ts_resume_def on_session_def timed_init_def)
next
  case (step evs x e x')
  then have inv: "request_inv x"
    by auto
  from step(2) show ?case
  proof cases
    case (completes ev)
    then show ?thesis
      using step(4) by auto
  next
    case (resumes ev)
    then show ?thesis
      using request_resume_inv [OF inv] by simp
  next
    case (waited ec)
    obtain tevs where t: "race_of evs x tevs"
      using ts_run_race [OF step(1)] by blast
    have "\<not> t_done (ts_timed x)" if "t_closed (on_timer ec ((ts_timed x)\<lparr>t_wait := No_wait\<rparr>))" "\<not> t_closed (ts_timed x)"
      using that by (auto simp: timed_defs split: if_splits option.splits)
    then have "Return r \<notin> set (ts_outs x)" if "t_closed (ts_timed x')" "\<not> t_closed (ts_timed x)" for r
      using that waited(2) race_pending [OF t, of r] by (auto simp: ts_waited_def Let_def split: if_splits)
    with inv waited show ?thesis
      by (auto simp: request_inv_def ts_waited_def Let_def split: if_splits)
  qed (use inv in \<open>auto simp: request_inv_def\<close>)
qed

lemma request_aborted:
  assumes "ts_run (on_session async_request) (session_closing api) Start (At_start, s) evs x" "\<forall>ev. Completes ev \<notin> set evs"
    and "t_closed (ts_timed x)" "r \<in> set (t_calls (ts_timed x))"
  shows "r = operation_aborted"
proof -
  obtain tevs where "race_of evs x tevs"
    using ts_run_race [OF assms(1)] by blast
  from race_calls(2) [OF this assms(4)] show ?thesis
    using request_run_inv [OF assms(1,2)] assms(3) by (auto simp: request_inv_def)
qed

text \<open>
  C28: what the deadline of an operation ends. A request whose stream is closed by its timer, with
  no completion queued before, is aborted: its handler gets \<open>operation_aborted\<close> and nothing else.
  The deadline of \<open>async_connect\<close> does not end the resolution of the host name: the expired
  timer closes the stream, which has nothing pending, and is not waited on again, while the
  resolver goes on; when the name is resolved at last the operation connects all the same, with
  no deadline left, and completes with success.
\<close>

theorem connect_outlives_timeout:
  "(\<forall>evs x r. ts_run (on_session async_request) (session_closing api) Start (At_start, s) evs x \<longrightarrow>
      (\<forall>ev. Completes ev \<notin> set evs) \<longrightarrow> t_closed (ts_timed x) \<longrightarrow> r \<in> set (t_calls (ts_timed x)) \<longrightarrow> r = operation_aborted) \<and>
   (\<exists>x y. ts_run (connect_op ssl_api) (connect_closing api) Start
        (connect_start (session_of_stream (ms_plain_of k) opts) host service) [Expires, Waited] x \<and>
      t_closed (ts_timed x) \<and> t_wait (ts_timed x) = No_wait \<and> t_op (ts_timed x) \<and>
    ts_run (connect_op ssl_api) (connect_closing api) Start
        (connect_start (session_of_stream (ms_plain_of k) opts) host service)
        [Expires, Waited, Resume (Resolved no_error endpoints), Resume (Connected no_error endpoint)] y \<and>
      ts_outs y = [Yield (Resolve host service), Yield (Tcp_connect endpoints), Return no_error] \<and>
      t_calls (ts_timed y) = [no_error])"
proof -
  let ?run = "ts_run (connect_op ssl_api) (connect_closing api) Start
        (connect_start (session_of_stream (ms_plain_of k) opts) host service)"
  let ?exec = "ts_exec (connect_op ssl_api) (connect_closing api) (async_timer (connect_op ssl_api) Start
        (connect_start (session_of_stream (ms_plain_of k) opts) host service))"
  have "\<exists>x. ?exec [Expires, Waited] = Some x \<and> t_closed (ts_timed x) \<and> t_wait (ts_timed x) = No_wait \<and> t_op (ts_timed x)"
    by (simp add: ts_eval connect_op_def connect_start_def)
  moreover have "\<exists>y. ?exec [Expires, Waited, Resume (Resolved no_error endpoints), Resume (Connected no_error endpoint)] = Some y \<and>
      ts_outs y = [Yield (Resolve host service), Yield (Tcp_connect endpoints), Return no_error] \<and>
      t_calls (ts_timed y) = [no_error]"
    by (simp add: ts_eval connect_op_def connect_start_def connect_tls_def close_connect_def close_session_def
        session_of_stream_def ms_plain_of_def)
  ultimately have "\<exists>x y. ?run [Expires, Waited] x \<and> t_closed (ts_timed x) \<and> t_wait (ts_timed x) = No_wait \<and> t_op (ts_timed x) \<and>
      ?run [Expires, Waited, Resume (Resolved no_error endpoints), Resume (Connected no_error endpoint)] y \<and>
      ts_outs y = [Yield (Resolve host service), Yield (Tcp_connect endpoints), Return no_error] \<and>
      t_calls (ts_timed y) = [no_error]"
    by (metis ts_exec_run)
  with request_aborted show ?thesis
    by blast
qed

theorem connect_outlives_timeout_witness:
  "\<exists>y. ts_run (connect_op openssl_ref) (connect_closing socket_ref) Start
      (connect_start (session_of_stream (ms_plain_of True) default_opts) ''a.b'' ''http'')
      [Expires, Waited, Resume (Resolved no_error [7]), Resume (Connected no_error 7)] y \<and> t_calls (ts_timed y) = [no_error] \<and>
    (\<exists>x. ts_run (on_session async_request) (session_closing socket_ref) Start (At_start, plain_session)
      [Resume (Done no_error 10), Expires, Waited, Resume (Done operation_aborted 0)] x \<and> set (t_calls (ts_timed x)) \<subseteq> {operation_aborted})"
proof -
  obtain x where x: "ts_run (on_session async_request) (session_closing socket_ref) Start (At_start, plain_session)
      [Resume (Done no_error 10), Expires, Waited, Resume (Done operation_aborted 0)] x" "t_closed (ts_timed x)"
    using sample_timeout by blast
  note both = connect_outlives_timeout [of socket_ref plain_session openssl_ref True default_opts "''a.b''" "''http''" "[7]" 7]
  have "set (t_calls (ts_timed x)) \<subseteq> {operation_aborted}"
    using both x by fastforce
  with both x(1) show ?thesis
    by blast
qed

end
