(* ===== verification/Allocate_Unique.thy ===== *)
theory Allocate_Unique
  imports Prelude "HOL-Library.Word"
begin

text \<open>
  \<^verbatim>\<open>include/boost/smart_ptr/allocate_unique.hpp\<close>: the \<open>unique_ptr\<close> factories behind the frames
  of the composed operations. The traits are functions on a datatype of C++ types; sizes are
  64 bit words, so a product of extents wraps as \<open>std::size_t\<close> does. The allocator and the
  helpers of Boost.Core (\<open>alloc_construct\<close>, \<open>alloc_construct_n\<close>, \<open>alloc_destroy\<close>,
  \<open>alloc_destroy_n\<close>, \<open>first_scalar\<close>, \<open>to_address\<close>) are not part of the program: they are the
  record \<open>alloc\<close>, and the locale \<open>alloc_lib\<close> states their documented behaviour on a store
  of blocks. Constructors and the allocator may throw; leaving a scope runs the destructor of
  \<open>sp_alloc_make\<close> on either way out.
\<close>

subsection \<open>Types and their traits\<close>

type_synonym size_t = "64 word"

text \<open>
  Array types have their extent when it is bounded; a qualifier of an array type is the
  qualifier of its elements.
\<close>

datatype cpp_type = Obj string bool | Unbounded cpp_type | Bounded size_t cpp_type

primrec is_array :: "cpp_type \<Rightarrow> bool" where
  "is_array (Obj c cv) = False"
| "is_array (Unbounded t) = True"
| "is_array (Bounded n t) = True"

primrec remove_extent :: "cpp_type \<Rightarrow> cpp_type" where
  "remove_extent (Obj c cv) = Obj c cv"
| "remove_extent (Unbounded t) = t"
| "remove_extent (Bounded n t) = t"

primrec remove_cv :: "cpp_type \<Rightarrow> cpp_type" where
  "remove_cv (Obj c cv) = Obj c False"
| "remove_cv (Unbounded t) = Unbounded (remove_cv t)"
| "remove_cv (Bounded n t) = Bounded n (remove_cv t)"

primrec extent :: "cpp_type \<Rightarrow> size_t" where
  "extent (Obj c cv) = 0"
| "extent (Unbounded t) = 0"
| "extent (Bounded n t) = n"

primrec sp_alloc_size :: "cpp_type \<Rightarrow> size_t" where
  "sp_alloc_size (Obj c cv) = 1"
| "sp_alloc_size (Unbounded t) = sp_alloc_size t"
| "sp_alloc_size (Bounded n t) = n * sp_alloc_size t"

definition sp_alloc_result :: "cpp_type \<Rightarrow> cpp_type" where
  "sp_alloc_result t = (case t of Bounded n u \<Rightarrow> Unbounded u | _ \<Rightarrow> t)"

definition sp_alloc_value :: "cpp_type \<Rightarrow> cpp_type" where
  "sp_alloc_value t = remove_cv (remove_extent t)"

text \<open>The scalars in a value of a type, without wrap-around.\<close>

primrec scalars :: "cpp_type \<Rightarrow> nat" where
  "scalars (Obj c cv) = 1"
| "scalars (Unbounded t) = scalars t"
| "scalars (Bounded n t) = unat n * scalars t"

subsection \<open>Allocators\<close>

datatype exn = Bad_alloc | Ctor_throws

text \<open>A null pointer is \<open>None\<close>; what the constructor of an element is given.\<close>

datatype 'v init = Value_init | Forwarded 'v | Moved 'v

record ('h, 'p, 'v) alloc =
  value_type :: cpp_type
  al_allocate :: "cpp_type \<Rightarrow> size_t \<Rightarrow> 'h \<Rightarrow> (exn + 'p option) \<times> 'h"
  al_deallocate :: "cpp_type \<Rightarrow> 'p option \<Rightarrow> size_t \<Rightarrow> 'h \<Rightarrow> 'h"
  alloc_construct :: "'p option \<Rightarrow> 'v init \<Rightarrow> 'h \<Rightarrow> (exn + unit) \<times> 'h"
  alloc_construct_n :: "'p option \<Rightarrow> size_t \<Rightarrow> 'h \<Rightarrow> (exn + unit) \<times> 'h"
  alloc_construct_n_from :: "'p option \<Rightarrow> size_t \<Rightarrow> 'v list \<Rightarrow> size_t \<Rightarrow> 'h \<Rightarrow> (exn + unit) \<times> 'h"
  alloc_destroy :: "'p option \<Rightarrow> 'h \<Rightarrow> 'h"
  alloc_destroy_n :: "'p option \<Rightarrow> size_t \<Rightarrow> 'h \<Rightarrow> 'h"
  first_scalar :: "'p option \<Rightarrow> 'p option"
  to_address :: "'p option \<Rightarrow> 'p option"

definition sp_alloc_to :: "('h, 'p, 'v) alloc \<Rightarrow> cpp_type \<Rightarrow> ('h, 'p, 'v) alloc" where
  "sp_alloc_to a t = a\<lparr>value_type := t\<rparr>"

subsection \<open>\<open>sp_alloc_ptr\<close>\<close>

text \<open>
  The three specialisations. The size of an unbounded array is a member, which the
  default constructor and the one from \<open>nullptr\<close> leave indeterminate (\<open>None\<close>).
\<close>

datatype 'p sp_alloc_ptr =
    Sp_obj "'p option"
  | Sp_array "'p option" "size_t option"
  | Sp_bounded size_t "'p option"

definition sp_alloc_ptr_null :: "cpp_type \<Rightarrow> 'p sp_alloc_ptr" where
  "sp_alloc_ptr_null t =
     (case t of Obj c cv \<Rightarrow> Sp_obj None | Unbounded u \<Rightarrow> Sp_array None None | Bounded n u \<Rightarrow> Sp_bounded n None)"

definition sp_alloc_ptr_make :: "cpp_type \<Rightarrow> size_t \<Rightarrow> 'p option \<Rightarrow> 'p sp_alloc_ptr" where
  "sp_alloc_ptr_make t n p =
     (case t of Obj c cv \<Rightarrow> Sp_obj p | Unbounded u \<Rightarrow> Sp_array p (Some n) | Bounded m u \<Rightarrow> Sp_bounded m p)"

primrec sp_ptr :: "'p sp_alloc_ptr \<Rightarrow> 'p option" where
  "sp_ptr (Sp_obj p) = p"
| "sp_ptr (Sp_array p n) = p"
| "sp_ptr (Sp_bounded n p) = p"

primrec sp_size :: "'p sp_alloc_ptr \<Rightarrow> size_t option" where
  "sp_size (Sp_obj p) = Some 1"
| "sp_size (Sp_array p n) = n"
| "sp_size (Sp_bounded n p) = Some n"

definition sp_bool :: "'p sp_alloc_ptr \<Rightarrow> bool" where
  "sp_bool x = (sp_ptr x \<noteq> None)"

definition sp_eq :: "'p sp_alloc_ptr \<Rightarrow> 'p sp_alloc_ptr \<Rightarrow> bool" where
  "sp_eq x y = (sp_ptr x = sp_ptr y)"

definition sp_ne :: "'p sp_alloc_ptr \<Rightarrow> 'p sp_alloc_ptr \<Rightarrow> bool" where
  "sp_ne x y = (\<not> sp_eq x y)"

definition sp_eq_null :: "'p sp_alloc_ptr \<Rightarrow> bool" where
  "sp_eq_null x = (sp_ptr x = None)"

definition sp_ne_null :: "'p sp_alloc_ptr \<Rightarrow> bool" where
  "sp_ne_null x = (sp_ptr x \<noteq> None)"

subsection \<open>The deleter and the owner\<close>

definition sp_alloc_clear :: "('h, 'p, 'v) alloc \<Rightarrow> 'p option \<Rightarrow> size_t \<Rightarrow> bool \<Rightarrow> 'h \<Rightarrow> 'h" where
  "sp_alloc_clear a p n arr h =
     (if arr then alloc_destroy_n a (first_scalar a (to_address a p)) (n * sp_alloc_size (value_type a)) h
      else alloc_destroy a (to_address a p) h)"

record ('h, 'p, 'v) alloc_deleter =
  del_type :: cpp_type
  del_alloc :: "('h, 'p, 'v) alloc"

text \<open>\<open>operator()\<close>; \<open>None\<close>: the size is read while it is indeterminate.\<close>

definition alloc_delete :: "('h, 'p, 'v) alloc_deleter \<Rightarrow> 'p sp_alloc_ptr \<Rightarrow> 'h \<Rightarrow> 'h option" where
  "alloc_delete d p h =
     (case sp_size p of
        None \<Rightarrow> None
      | Some n \<Rightarrow>
          (let a = del_alloc d;
               h = sp_alloc_clear a (sp_ptr p) n (is_array (del_type d)) h
           in Some (al_deallocate a (value_type a) (sp_ptr p) n h)))"

text \<open>\<open>std::unique_ptr\<close>, as the element type it is declared with, its pointer and its deleter.\<close>

record ('h, 'p, 'v) unique_ptr =
  up_type :: cpp_type
  up_ptr :: "'p sp_alloc_ptr"
  up_deleter :: "('h, 'p, 'v) alloc_deleter"

definition unique_ptr_destroy :: "('h, 'p, 'v) unique_ptr \<Rightarrow> 'h \<Rightarrow> 'h option" where
  "unique_ptr_destroy u h = (if sp_ne_null (up_ptr u) then alloc_delete (up_deleter u) (up_ptr u) h else Some h)"

definition unique_ptr_reset :: "('h, 'p, 'v) unique_ptr \<Rightarrow> 'h \<Rightarrow> (('h, 'p, 'v) unique_ptr \<times> 'h) option" where
  "unique_ptr_reset u h =
     (let v = u\<lparr>up_ptr := sp_alloc_ptr_null (del_type (up_deleter u))\<rparr>
      in map_option (Pair v) (unique_ptr_destroy u h))"

subsection \<open>\<open>sp_alloc_make\<close>\<close>

record ('h, 'p, 'v) sp_alloc_make =
  mk_type :: cpp_type
  mk_a :: "('h, 'p, 'v) alloc"
  mk_n :: size_t
  mk_p :: "'p option"

definition sp_alloc_make_init ::
  "cpp_type \<Rightarrow> ('h, 'p, 'v) alloc \<Rightarrow> size_t \<Rightarrow> 'h \<Rightarrow> (exn + ('h, 'p, 'v) sp_alloc_make) \<times> 'h" where
  "sp_alloc_make_init t a n h =
     (let a = sp_alloc_to a (sp_alloc_value t)
      in case al_allocate a (value_type a) n h of
           (Inl e, h) \<Rightarrow> (Inl e, h)
         | (Inr p, h) \<Rightarrow> (Inr \<lparr>mk_type = t, mk_a = a, mk_n = n, mk_p = p\<rparr>, h))"

definition sp_alloc_make_destroy :: "('h, 'p, 'v) sp_alloc_make \<Rightarrow> 'h \<Rightarrow> 'h" where
  "sp_alloc_make_destroy c h =
     (if mk_p c \<noteq> None then al_deallocate (mk_a c) (value_type (mk_a c)) (mk_p c) (mk_n c) h else h)"

definition sp_alloc_make_get :: "('h, 'p, 'v) sp_alloc_make \<Rightarrow> 'p option" where
  "sp_alloc_make_get c = to_address (mk_a c) (mk_p c)"

definition sp_alloc_make_release ::
  "('h, 'p, 'v) sp_alloc_make \<Rightarrow> ('h, 'p, 'v) unique_ptr \<times> ('h, 'p, 'v) sp_alloc_make" where
  "sp_alloc_make_release c =
     (let p = mk_p c;
          t = mk_type c;
          c = c\<lparr>mk_p := None\<rparr>
      in (\<lparr>up_type = sp_alloc_result t, up_ptr = sp_alloc_ptr_make t (mk_n c) p,
           up_deleter = \<lparr>del_type = t, del_alloc = mk_a c\<rparr>\<rparr>, c))"

subsection \<open>The factories\<close>

text \<open>
  What every factory does with its \<open>sp_alloc_make\<close>: construct the elements, release the
  pointer to the owner it returns, and leave the scope, which also an exception of the
  constructors does.
\<close>

type_synonym ('h, 'p, 'v) made = "(exn + ('h, 'p, 'v) unique_ptr) \<times> 'h"

definition make_scope ::
  "cpp_type \<Rightarrow> ('h, 'p, 'v) alloc \<Rightarrow> size_t \<Rightarrow>
   (('h, 'p, 'v) sp_alloc_make \<Rightarrow> 'h \<Rightarrow> (exn + unit) \<times> 'h) \<Rightarrow> 'h \<Rightarrow> ('h, 'p, 'v) made" where
  "make_scope t a n construct h =
     (case sp_alloc_make_init t a n h of
        (Inl e, h) \<Rightarrow> (Inl e, h)
      | (Inr c, h) \<Rightarrow>
          (case construct c h of
             (Inl e, h) \<Rightarrow> (Inl e, sp_alloc_make_destroy c h)
           | (Inr _, h) \<Rightarrow>
               (case sp_alloc_make_release c of (u, c) \<Rightarrow> (Inr u, sp_alloc_make_destroy c h))))"

definition allocate_unique_object :: "cpp_type \<Rightarrow> ('h, 'p, 'v) alloc \<Rightarrow> 'h \<Rightarrow> ('h, 'p, 'v) made" where
  "allocate_unique_object t a =
     make_scope t a 1 (\<lambda>c. alloc_construct (mk_a c) (sp_alloc_make_get c) Value_init)"

definition allocate_unique_args :: "cpp_type \<Rightarrow> ('h, 'p, 'v) alloc \<Rightarrow> 'v \<Rightarrow> 'h \<Rightarrow> ('h, 'p, 'v) made" where
  "allocate_unique_args t a args =
     make_scope t a 1 (\<lambda>c. alloc_construct (mk_a c) (sp_alloc_make_get c) (Forwarded args))"

definition allocate_unique_move :: "cpp_type \<Rightarrow> ('h, 'p, 'v) alloc \<Rightarrow> 'v \<Rightarrow> 'h \<Rightarrow> ('h, 'p, 'v) made" where
  "allocate_unique_move t a v =
     make_scope t a 1 (\<lambda>c. alloc_construct (mk_a c) (sp_alloc_make_get c) (Moved v))"

definition allocate_unique_array :: "cpp_type \<Rightarrow> ('h, 'p, 'v) alloc \<Rightarrow> size_t \<Rightarrow> 'h \<Rightarrow> ('h, 'p, 'v) made" where
  "allocate_unique_array t a sz =
     make_scope t a sz
       (\<lambda>c. alloc_construct_n (mk_a c) (first_scalar (mk_a c) (sp_alloc_make_get c)) (sz * sp_alloc_size t))"

definition allocate_unique_bounded :: "cpp_type \<Rightarrow> ('h, 'p, 'v) alloc \<Rightarrow> 'h \<Rightarrow> ('h, 'p, 'v) made" where
  "allocate_unique_bounded t a =
     make_scope t a (extent t)
       (\<lambda>c. alloc_construct_n (mk_a c) (first_scalar (mk_a c) (sp_alloc_make_get c)) (sp_alloc_size t))"

definition allocate_unique_array_value ::
  "cpp_type \<Rightarrow> ('h, 'p, 'v) alloc \<Rightarrow> size_t \<Rightarrow> 'v list \<Rightarrow> 'h \<Rightarrow> ('h, 'p, 'v) made" where
  "allocate_unique_array_value t a sz value =
     make_scope t a sz
       (\<lambda>c. alloc_construct_n_from (mk_a c) (first_scalar (mk_a c) (sp_alloc_make_get c))
              (sz * sp_alloc_size t) value (sp_alloc_size (remove_extent t)))"

definition allocate_unique_bounded_value ::
  "cpp_type \<Rightarrow> ('h, 'p, 'v) alloc \<Rightarrow> 'v list \<Rightarrow> 'h \<Rightarrow> ('h, 'p, 'v) made" where
  "allocate_unique_bounded_value t a value =
     make_scope t a (extent t)
       (\<lambda>c. alloc_construct_n_from (mk_a c) (first_scalar (mk_a c) (sp_alloc_make_get c))
              (sp_alloc_size t) value (sp_alloc_size (remove_extent t)))"

text \<open>The overload set: the arguments after the allocator, and what \<open>enable_if_\<close> leaves for the type.\<close>

datatype 'v make_args = No_args | Ctor_args 'v | Rvalue 'v | Size size_t | Size_value size_t "'v list" | Value "'v list"

definition allocate_unique ::
  "cpp_type \<Rightarrow> ('h, 'p, 'v) alloc \<Rightarrow> 'v make_args \<Rightarrow> ('h \<Rightarrow> ('h, 'p, 'v) made) option" where
  "allocate_unique t a args =
     (case (t, args) of
        (Obj c cv, No_args) \<Rightarrow> Some (allocate_unique_object t a)
      | (Obj c cv, Ctor_args v) \<Rightarrow> Some (allocate_unique_args t a v)
      | (Obj c cv, Rvalue v) \<Rightarrow> Some (allocate_unique_move t a v)
      | (Unbounded u, Size n) \<Rightarrow> Some (allocate_unique_array t a n)
      | (Bounded m u, No_args) \<Rightarrow> Some (allocate_unique_bounded t a)
      | (Unbounded u, Size_value n vs) \<Rightarrow> Some (allocate_unique_array_value t a n vs)
      | (Bounded m u, Value vs) \<Rightarrow> Some (allocate_unique_bounded_value t a vs)
      | _ \<Rightarrow> None)"

text \<open>The \<open>noinit\<close> factories call the same ones with the adaptor of Boost.Core on the allocator.\<close>

definition allocate_unique_noinit ::
  "(('h, 'p, 'v) alloc \<Rightarrow> ('h, 'p, 'v) alloc) \<Rightarrow> cpp_type \<Rightarrow> ('h, 'p, 'v) alloc \<Rightarrow> 'v make_args \<Rightarrow>
   ('h \<Rightarrow> ('h, 'p, 'v) made) option" where
  "allocate_unique_noinit noinit_adaptor t a args =
     (case (t, args) of
        (Obj c cv, No_args) \<Rightarrow> allocate_unique t (noinit_adaptor a) No_args
      | (Unbounded u, Size n) \<Rightarrow> allocate_unique t (noinit_adaptor a) (Size n)
      | (Bounded m u, No_args) \<Rightarrow> allocate_unique t (noinit_adaptor a) No_args
      | _ \<Rightarrow> None)"

subsection \<open>What the library promises\<close>

text \<open>
  A store of blocks: the type and the number of the elements a block was allocated for, and
  its scalars. \<open>dflt\<close> is what value-initialisation leaves in a scalar (\<open>None\<close> when it is left
  indeterminate, as with the adaptor of the \<open>noinit\<close> factories).
\<close>

datatype 'v cell = Raw | Live "'v option"

type_synonym 'v block = "cpp_type \<times> size_t \<times> 'v cell list"

primrec init_value :: "'v option \<Rightarrow> 'v init \<Rightarrow> 'v option" where
  "init_value dflt Value_init = dflt"
| "init_value dflt (Forwarded v) = Some v"
| "init_value dflt (Moved v) = Some v"

text \<open>
  An operation on the block at \<open>q\<close> either throws and leaves the store, or replaces the scalars. An
  allocation gives a block also for no elements, as the standard allocator does; the requirements
  on allocators leave the pointer open in that case.
\<close>

definition all_or_nothing ::
  "('h \<Rightarrow> 'p \<Rightarrow> 'v block option) \<Rightarrow> 'p \<Rightarrow> 'v cell list \<Rightarrow> 'h \<Rightarrow> (exn + unit) \<times> 'h \<Rightarrow> bool" where
  "all_or_nothing blocks q cs h out =
     (case out of
        (Inl e, h') \<Rightarrow> blocks h' = blocks h
      | (Inr _, h') \<Rightarrow> (case blocks h q of Some (t, n, _) \<Rightarrow> blocks h' = (blocks h)(q \<mapsto> (t, n, cs)) | None \<Rightarrow> False))"

locale alloc_lib =
  fixes a :: "('h, 'p, 'v) alloc"
    and blocks :: "'h \<Rightarrow> 'p \<Rightarrow> 'v block option"
    and dflt :: "'v option"
  assumes allocate_gives: "al_allocate a t n h = (Inr p, h') \<Longrightarrow>
          \<exists>q. p = Some q \<and> blocks h q = None \<and> unat n * scalars t < 2 ^ 64 \<and>
              blocks h' = (blocks h)(q \<mapsto> (t, n, replicate (unat n * scalars t) Raw))"
    and allocate_throws: "al_allocate a t n h = (Inl e, h') \<Longrightarrow> blocks h' = blocks h"
    and deallocate: "blocks h q = Some (t, n, replicate j Raw) \<Longrightarrow>
          blocks (al_deallocate a t (Some q) n h) = (blocks h)(q := None)"
    and construct: "blocks h q = Some (t, n, [Raw]) \<Longrightarrow>
          all_or_nothing blocks q [Live (init_value dflt i)] h (alloc_construct a (Some q) i h)"
    and construct_n: "blocks h q = Some (t, n, replicate (unat k) Raw) \<Longrightarrow>
          all_or_nothing blocks q (replicate (unat k) (Live dflt)) h (alloc_construct_n a (Some q) k h)"
    and construct_n_from: "blocks h q = Some (t, n, replicate (unat k) Raw) \<Longrightarrow> length vs = unat m \<Longrightarrow>
          all_or_nothing blocks q (map (\<lambda>i. Live (Some (vs ! (i mod length vs)))) [0..<unat k]) h
            (alloc_construct_n_from a (Some q) k vs m h)"
    and destroy: "blocks h q = Some (t, n, [Live v]) \<Longrightarrow>
          blocks (alloc_destroy a (Some q) h) = (blocks h)(q \<mapsto> (t, n, [Raw]))"
    and destroy_n: "blocks h q = Some (t, n, map Live ws) \<Longrightarrow> length ws = unat k \<Longrightarrow>
          blocks (alloc_destroy_n a (Some q) k h) = (blocks h)(q \<mapsto> (t, n, replicate (unat k) Raw))"
    and first_scalar: "first_scalar a (Some q) = Some q"
    and to_address: "to_address a (Some q) = Some q"

end
