(* ===== verification/Allocate_Unique_Properties.thy ===== *)
theory Allocate_Unique_Properties
  imports Allocate_Unique
begin

text \<open>
  The factories of \<open>Allocate_Unique\<close> are exception safe and their owners give back what was
  made. Inside \<open>alloc_lib\<close> one lemma on the scope of \<open>sp_alloc_make\<close> carries all overloads; a
  heap with a budget of constructor calls interprets the locale.
\<close>

subsection \<open>Sizes\<close>

lemma scalars_remove_cv [simp]: "scalars (remove_cv t) = scalars t" "sp_alloc_size (remove_cv t) = sp_alloc_size t"
  by (induction t) simp_all

lemma unat_times: "unat (m * n :: size_t) = (unat m * unat n) mod 2 ^ 64"
  using unat_word_ariths(2) [of m n] by simp

lemma sp_alloc_size_mod: "unat (sp_alloc_size t) = scalars t mod 2 ^ 64"
proof (induction t)
  case (Bounded n t)
  then show ?case
    by (simp only: sp_alloc_size.simps scalars.simps unat_times mod_mult_right_eq)
qed simp_all

text \<open>The number of scalars to construct, computed with wrap-around, is the size of the allocated block.\<close>

lemma size_product:
  assumes "unat n * scalars t < 2 ^ 64"
  shows "unat (n * sp_alloc_size t) = unat n * scalars t"
proof -
  have "unat (n * sp_alloc_size t) = (unat n * scalars t) mod 2 ^ 64"
    by (simp only: unat_times sp_alloc_size_mod mod_mult_right_eq)
  with assms show ?thesis
    by simp
qed

lemma sp_alloc_value_sizes:
  "is_array t \<Longrightarrow> sp_alloc_size (sp_alloc_value t) = sp_alloc_size (remove_extent t)"
  "is_array t \<Longrightarrow> scalars (sp_alloc_value t) = scalars (remove_extent t)"
  by (simp_all add: sp_alloc_value_def)

lemma concat_replicate_nth:
  "concat (replicate n xs) = map (\<lambda>i. xs ! (i mod length xs)) [0..<n * length xs]"
proof (induction n)
  case (Suc n)
  have "map (\<lambda>i. xs ! (i mod length xs)) [0..<length xs] = xs"
    by (rule nth_equalityI) simp_all
  moreover have "map (\<lambda>i. xs ! (i mod length xs)) [length xs..<length xs + n * length xs] =
      map (\<lambda>i. xs ! (i mod length xs)) [0..<n * length xs]"
    by (rule nth_equalityI) simp_all
  moreover have "[0..<Suc n * length xs] = [0..<length xs] @ [length xs..<length xs + n * length xs]"
    by (simp add: upt_add_eq_append [of 0 "length xs"])
  ultimately show ?case
    using Suc by (simp only: replicate_Suc concat.simps map_append)
qed simp

lemma concat_replicate_map:
  "map Live (concat (replicate n (map Some xs))) = map (\<lambda>i. Live (Some (xs ! (i mod length xs)))) [0..<n * length xs]"
proof -
  have "map Live (concat (replicate n (map Some xs))) = map (Live \<circ> Some) (concat (replicate n xs))"
    by (simp add: map_concat map_replicate)
  then show ?thesis
    by (simp add: concat_replicate_nth)
qed

subsection \<open>What a factory makes\<close>

text \<open>
  The elements a call asks for, in the units of the allocator, and the scalars they hold: the
  initial value of an array is repeated for every element.
\<close>

fun made_n :: "cpp_type \<Rightarrow> 'v make_args \<Rightarrow> size_t" where
  "made_n t (Size n) = n"
| "made_n t (Size_value n vs) = n"
| "made_n t args = (if is_array t then extent t else 1)"

fun made_values :: "'v option \<Rightarrow> cpp_type \<Rightarrow> 'v make_args \<Rightarrow> 'v option list" where
  "made_values dflt t (Ctor_args v) = [Some v]"
| "made_values dflt t (Rvalue v) = [Some v]"
| "made_values dflt t (Size_value n vs) = concat (replicate (unat n) (map Some vs))"
| "made_values dflt t (Value vs) = concat (replicate (unat (extent t)) (map Some vs))"
| "made_values dflt t args = replicate (unat (made_n t args) * scalars (remove_extent t)) dflt"

text \<open>A value of the element type has as many scalars as its type.\<close>

fun args_ok :: "cpp_type \<Rightarrow> 'v make_args \<Rightarrow> bool" where
  "args_ok t (Size_value n vs) = (length vs = scalars (remove_extent t) \<and> scalars (remove_extent t) < 2 ^ 64)"
| "args_ok t (Value vs) = (length vs = scalars (remove_extent t) \<and> scalars (remove_extent t) < 2 ^ 64)"
| "args_ok t args = True"

definition owner :: "cpp_type \<Rightarrow> ('h, 'p, 'v) alloc \<Rightarrow> size_t \<Rightarrow> 'p \<Rightarrow> ('h, 'p, 'v) unique_ptr" where
  "owner t a n q = \<lparr>up_type = sp_alloc_result t, up_ptr = sp_alloc_ptr_make t n (Some q),
     up_deleter = \<lparr>del_type = t, del_alloc = sp_alloc_to a (sp_alloc_value t)\<rparr>\<rparr>"

lemma sp_alloc_to_sel [simp]:
  "value_type (sp_alloc_to a t) = t" "al_allocate (sp_alloc_to a t) = al_allocate a"
  "al_deallocate (sp_alloc_to a t) = al_deallocate a" "alloc_construct (sp_alloc_to a t) = alloc_construct a"
  "alloc_construct_n (sp_alloc_to a t) = alloc_construct_n a"
  "alloc_construct_n_from (sp_alloc_to a t) = alloc_construct_n_from a"
  "alloc_destroy (sp_alloc_to a t) = alloc_destroy a" "alloc_destroy_n (sp_alloc_to a t) = alloc_destroy_n a"
  "first_scalar (sp_alloc_to a t) = first_scalar a" "to_address (sp_alloc_to a t) = to_address a"
  by (simp_all add: sp_alloc_to_def)

lemma sp_alloc_ptr_make_ptr [simp]: "sp_ptr (sp_alloc_ptr_make t n p) = p"
  by (simp add: sp_alloc_ptr_make_def split: cpp_type.split)

definition outcome ::
  "('h \<Rightarrow> 'p \<Rightarrow> 'v block option) \<Rightarrow> cpp_type \<Rightarrow> ('h, 'p, 'v) alloc \<Rightarrow> size_t \<Rightarrow> 'v option list \<Rightarrow> 'h \<Rightarrow>
   ('h, 'p, 'v) made \<Rightarrow> bool" where
  "outcome blocks t a n vs h out =
     (case out of
        (Inl e, h') \<Rightarrow> blocks h' = blocks h
      | (Inr u, h') \<Rightarrow> \<exists>q. blocks h q = None \<and> u = owner t a n q \<and> unat n * scalars (sp_alloc_value t) < 2 ^ 64 \<and>
          blocks h' = (blocks h)(q \<mapsto> (sp_alloc_value t, n, map Live vs)))"

context alloc_lib
begin

text \<open>The scope of \<open>sp_alloc_make\<close>, for any way of constructing the elements.\<close>

lemma make_scope_outcome:
  assumes construct: "\<And>c h q. mk_a c = sp_alloc_to a (sp_alloc_value t) \<Longrightarrow> mk_p c = Some q \<Longrightarrow>
      unat n * scalars (sp_alloc_value t) < 2 ^ 64 \<Longrightarrow>
      blocks h q = Some (sp_alloc_value t, n, replicate (unat n * scalars (sp_alloc_value t)) Raw) \<Longrightarrow>
      all_or_nothing blocks q (map Live vs) h (body c h)"
  shows "outcome blocks t a n vs h (make_scope t a n body h)"
proof (cases "al_allocate a (sp_alloc_value t) n h")
  case (Pair r h1)
  show ?thesis
  proof (cases r)
    case (Inl e)
    with Pair allocate_throws show ?thesis
      by (simp add: outcome_def make_scope_def sp_alloc_make_init_def)
  next
    case (Inr p)
    with Pair allocate_gives obtain q where q: "p = Some q" "blocks h q = None"
      "unat n * scalars (sp_alloc_value t) < 2 ^ 64"
      "blocks h1 = (blocks h)(q \<mapsto> (sp_alloc_value t, n, replicate (unat n * scalars (sp_alloc_value t)) Raw))"
      by blast
    define c where "c = \<lparr>mk_type = t, mk_a = sp_alloc_to a (sp_alloc_value t), mk_n = n, mk_p = Some q\<rparr>"
    have init: "sp_alloc_make_init t a n h = (Inr c, h1)"
      using Pair Inr q(1) by (simp add: sp_alloc_make_init_def c_def)
    obtain r2 h2 where b: "body c h1 = (r2, h2)"
      by (cases "body c h1")
    with construct [of c q h1] q have aon: "all_or_nothing blocks q (map Live vs) h1 (r2, h2)"
      by (simp add: c_def)
    show ?thesis
    proof (cases r2)
      case (Inl e)
      with aon have "blocks h2 = blocks h1"
        by (simp add: all_or_nothing_def)
      then have "blocks (sp_alloc_make_destroy c h2) = blocks h"
        using q deallocate [of h2 q] by (auto simp: sp_alloc_make_destroy_def c_def)
      with Inl b init show ?thesis
        by (simp add: outcome_def make_scope_def)
    next
      case (Inr x)
      with aon q have "blocks h2 = (blocks h)(q \<mapsto> (sp_alloc_value t, n, map Live vs))"
        by (simp add: all_or_nothing_def)
      with Inr b init q show ?thesis
        by (auto simp: outcome_def make_scope_def sp_alloc_make_release_def sp_alloc_make_destroy_def c_def owner_def Let_def)
    qed
  qed
qed

lemma outcome_object:
  assumes "\<not> is_array t"
    and "\<And>c. mk_a c = sp_alloc_to a (sp_alloc_value t) \<Longrightarrow>
          body c = alloc_construct a (sp_alloc_make_get c) i"
  shows "outcome blocks t a 1 [init_value dflt i] h (make_scope t a 1 body h)"
proof (rule make_scope_outcome)
  fix c :: "('h, 'p, 'v) sp_alloc_make" and h q
  assume c: "mk_a c = sp_alloc_to a (sp_alloc_value t)" "mk_p c = Some q"
    and "blocks h q = Some (sp_alloc_value t, 1, replicate (unat (1 :: size_t) * scalars (sp_alloc_value t)) Raw)"
  moreover have "scalars (sp_alloc_value t) = 1"
    using assms(1) by (cases t) (simp_all add: sp_alloc_value_def)
  ultimately have "blocks h q = Some (sp_alloc_value t, 1, [Raw])"
    by simp
  from construct [OF this, of i] c assms(2) [OF c(1)]
  show "all_or_nothing blocks q (map Live [init_value dflt i]) h (body c h)"
    by (simp add: sp_alloc_make_get_def to_address)
qed

lemma outcome_array:
  assumes "is_array t" "k = n * sp_alloc_size (remove_extent t)"
    and "\<And>c. mk_a c = sp_alloc_to a (sp_alloc_value t) \<Longrightarrow>
          body c = alloc_construct_n a (first_scalar a (sp_alloc_make_get c)) k"
  shows "outcome blocks t a n (replicate (unat n * scalars (remove_extent t)) dflt) h (make_scope t a n body h)"
proof (rule make_scope_outcome)
  fix c :: "('h, 'p, 'v) sp_alloc_make" and h q
  assume c: "mk_a c = sp_alloc_to a (sp_alloc_value t)" "mk_p c = Some q"
    and lt: "unat n * scalars (sp_alloc_value t) < 2 ^ 64"
    and b: "blocks h q = Some (sp_alloc_value t, n, replicate (unat n * scalars (sp_alloc_value t)) Raw)"
  have k: "unat k = unat n * scalars (sp_alloc_value t)"
    using size_product [OF lt] assms(1,2) by (simp add: sp_alloc_value_sizes)
  from construct_n [OF b [folded k]] c assms(3) [OF c(1)] assms(1) k
  show "all_or_nothing blocks q (map Live (replicate (unat n * scalars (remove_extent t)) dflt)) h (body c h)"
    by (simp add: sp_alloc_make_get_def to_address first_scalar sp_alloc_value_sizes)
qed

lemma outcome_array_value:
  assumes "is_array t" "k = n * sp_alloc_size (remove_extent t)" "m = sp_alloc_size (remove_extent t)"
    and "length vs = scalars (remove_extent t)" "scalars (remove_extent t) < 2 ^ 64"
    and "\<And>c. mk_a c = sp_alloc_to a (sp_alloc_value t) \<Longrightarrow>
          body c = alloc_construct_n_from a (first_scalar a (sp_alloc_make_get c)) k vs m"
  shows "outcome blocks t a n (concat (replicate (unat n) (map Some vs))) h (make_scope t a n body h)"
proof (rule make_scope_outcome)
  fix c :: "('h, 'p, 'v) sp_alloc_make" and h q
  assume c: "mk_a c = sp_alloc_to a (sp_alloc_value t)" "mk_p c = Some q"
    and lt: "unat n * scalars (sp_alloc_value t) < 2 ^ 64"
    and b: "blocks h q = Some (sp_alloc_value t, n, replicate (unat n * scalars (sp_alloc_value t)) Raw)"
  have k: "unat k = unat n * scalars (sp_alloc_value t)"
    using size_product [OF lt] assms(1,2) by (simp add: sp_alloc_value_sizes)
  have m: "length vs = unat m"
    using assms(3-5) by (simp add: sp_alloc_size_mod)
  have "map (\<lambda>i. Live (Some (vs ! (i mod length vs)))) [0..<unat k] = map Live (concat (replicate (unat n) (map Some vs)))"
    using k assms(1,4) by (simp add: concat_replicate_map sp_alloc_value_sizes)
  with construct_n_from [OF b [folded k] m] c assms(6) [OF c(1)]
  show "all_or_nothing blocks q (map Live (concat (replicate (unat n) (map Some vs)))) h (body c h)"
    by (simp add: sp_alloc_make_get_def to_address first_scalar)
qed

end

context alloc_lib
begin

lemma object_outcome:
  assumes "\<not> is_array t"
  shows "outcome blocks t a 1 [dflt] h (allocate_unique_object t a h)"
    and "outcome blocks t a 1 [Some v] h (allocate_unique_args t a v h)"
    and "outcome blocks t a 1 [Some v] h (allocate_unique_move t a v h)"
  unfolding allocate_unique_object_def allocate_unique_args_def allocate_unique_move_def
  using outcome_object [OF assms, where i = Value_init] outcome_object [OF assms, where i = "Forwarded v"]
    outcome_object [OF assms, where i = "Moved v"] by simp_all

lemma array_outcome:
  "outcome blocks (Unbounded u) a n (replicate (unat n * scalars u) dflt) h (allocate_unique_array (Unbounded u) a n h)"
  "outcome blocks (Bounded m u) a m (replicate (unat m * scalars u) dflt) h (allocate_unique_bounded (Bounded m u) a h)"
  unfolding allocate_unique_array_def allocate_unique_bounded_def
  using outcome_array [where t = "Unbounded u" and n = n] outcome_array [where t = "Bounded m u" and n = m]
  by simp_all

lemma array_value_outcome:
  assumes "length vs = scalars u" "scalars u < 2 ^ 64"
  shows "outcome blocks (Unbounded u) a n (concat (replicate (unat n) (map Some vs))) h
      (allocate_unique_array_value (Unbounded u) a n vs h)"
    and "outcome blocks (Bounded m u) a m (concat (replicate (unat m) (map Some vs))) h
      (allocate_unique_bounded_value (Bounded m u) a vs h)"
  unfolding allocate_unique_array_value_def allocate_unique_bounded_value_def
  using assms outcome_array_value [where t = "Unbounded u" and n = n and vs = vs]
    outcome_array_value [where t = "Bounded m u" and n = m and vs = vs]
  by simp_all

lemma allocate_unique_outcome:
  assumes "allocate_unique t a args = Some f" "args_ok t args"
  shows "outcome blocks t a (made_n t args) (made_values dflt t args) h (f h)"
  using assms object_outcome array_outcome array_value_outcome
  by (cases t; cases args) (auto simp: allocate_unique_def)

text \<open>The destructor of the owner gives the block back, whatever else was done to the store.\<close>

lemma destroy_owner:
  assumes size: "\<not> is_array t \<Longrightarrow> n = 1 \<and> length vs = 1" "is_array t \<Longrightarrow> length vs = unat n * scalars (sp_alloc_value t)"
    and ext: "\<And>m u. t = Bounded m u \<Longrightarrow> n = m"
    and lt: "unat n * scalars (sp_alloc_value t) < 2 ^ 64"
    and b: "blocks h q = Some (sp_alloc_value t, n, map Live vs)"
  shows "\<exists>h'. unique_ptr_destroy (owner t a n q) h = Some h' \<and> blocks h' = (blocks h)(q := None)"
proof -
  define h1 where "h1 = sp_alloc_clear (sp_alloc_to a (sp_alloc_value t)) (Some q) n (is_array t) h"
  obtain j where j: "blocks h1 = (blocks h)(q \<mapsto> (sp_alloc_value t, n, replicate j Raw))"
  proof (cases "is_array t")
    case True
    have "length vs = unat (n * sp_alloc_size (sp_alloc_value t))"
      using size(2) [OF True] lt by (simp add: size_product)
    from destroy_n [OF b this] True that show ?thesis
      by (simp add: h1_def sp_alloc_clear_def first_scalar to_address)
  next
    case False
    then obtain v where "vs = [v]"
      using size(1) by (auto simp: length_Suc_conv)
    with destroy [of h q] b False that [of 1] show ?thesis
      by (simp add: h1_def sp_alloc_clear_def to_address)
  qed
  have "sp_size (sp_alloc_ptr_make t n (Some q)) = Some n"
    using size(1) ext by (cases t) (simp_all add: sp_alloc_ptr_make_def)
  moreover have "blocks (al_deallocate a (sp_alloc_value t) (Some q) n h1) = (blocks h)(q := None)"
    using deallocate [of h1 q] j by simp
  ultimately show ?thesis
    by (simp add: unique_ptr_destroy_def owner_def sp_ne_null_def alloc_delete_def h1_def Let_def)
qed

lemma made_sizes:
  assumes "allocate_unique t a args = Some f" "args_ok t args"
  shows "\<not> is_array t \<Longrightarrow> made_n t args = 1 \<and> length (made_values dflt t args) = 1"
    and "is_array t \<Longrightarrow> length (made_values dflt t args) = unat (made_n t args) * scalars (sp_alloc_value t)"
    and "\<And>m u. t = Bounded m u \<Longrightarrow> made_n t args = m"
  using assms
  by (cases t; cases args; simp add: allocate_unique_def sp_alloc_value_sizes length_concat sum_list_replicate)+

lemma allocate_unique_owns:
  assumes "allocate_unique t a args = Some f" "args_ok t args" "f h = (Inr u, h')"
  shows "\<exists>q. blocks h q = None \<and>
      blocks h' = (blocks h)(q \<mapsto> (sp_alloc_value t, made_n t args, map Live (made_values dflt t args))) \<and>
      (\<exists>h''. unique_ptr_destroy u h' = Some h'' \<and> blocks h'' = blocks h)"
proof -
  obtain q where q: "blocks h q = None" "u = owner t a (made_n t args) q"
      "unat (made_n t args) * scalars (sp_alloc_value t) < 2 ^ 64"
      "blocks h' = (blocks h)(q \<mapsto> (sp_alloc_value t, made_n t args, map Live (made_values dflt t args)))"
    using allocate_unique_outcome [OF assms(1,2), of h] assms(3) by (auto simp: outcome_def)
  with destroy_owner [where h = h' and q = q and n = "made_n t args" and t = t, OF made_sizes [OF assms(1,2)]] show ?thesis
    by (auto simp: fun_upd_idem)
qed

end

subsection \<open>A reference allocator\<close>

text \<open>
  Blocks in a map, with a counter for fresh addresses, a budget of constructor calls that
  succeed, and a record of a call whose precondition does not hold.
\<close>

record 'v heap =
  hp_blocks :: "nat \<Rightarrow> 'v block option"
  hp_next :: nat
  hp_budget :: nat
  hp_bad :: bool

definition ref_allocate :: "cpp_type \<Rightarrow> size_t \<Rightarrow> 'v heap \<Rightarrow> (exn + nat option) \<times> 'v heap" where
  "ref_allocate t n h =
     (if unat n * scalars t < 2 ^ 64 \<and> hp_blocks h (hp_next h) = None
      then (Inr (Some (hp_next h)),
            h\<lparr>hp_blocks := (hp_blocks h)(hp_next h \<mapsto> (t, n, replicate (unat n * scalars t) Raw)),
              hp_next := Suc (hp_next h)\<rparr>)
      else (Inl Bad_alloc, h))"

definition ref_deallocate :: "cpp_type \<Rightarrow> nat option \<Rightarrow> size_t \<Rightarrow> 'v heap \<Rightarrow> 'v heap" where
  "ref_deallocate t p n h =
     (case Option.bind p (hp_blocks h) of
        Some (t', n', cs) \<Rightarrow>
          (if t' = t \<and> n' = n \<and> list_all (\<lambda>c. c = Raw) cs then h\<lparr>hp_blocks := (hp_blocks h)(the p := None)\<rparr>
           else h\<lparr>hp_bad := True\<rparr>)
      | None \<Rightarrow> h\<lparr>hp_bad := True\<rparr>)"

text \<open>Constructing some first scalars of a block, which takes as much of the budget.\<close>

definition ref_fill :: "nat option \<Rightarrow> 'v option list \<Rightarrow> 'v heap \<Rightarrow> (exn + unit) \<times> 'v heap" where
  "ref_fill p vs h =
     (if hp_budget h < length vs then (Inl Ctor_throws, h\<lparr>hp_budget := 0\<rparr>)
      else
        (let h = h\<lparr>hp_budget := hp_budget h - length vs\<rparr>
         in case Option.bind p (hp_blocks h) of
              Some (t, n, cs) \<Rightarrow>
                (Inr (), h\<lparr>hp_blocks := (hp_blocks h)(the p \<mapsto> (t, n, map Live vs @ drop (length vs) cs))\<rparr>)
            | None \<Rightarrow> (Inr (), h\<lparr>hp_bad := (vs \<noteq> [])\<rparr>)))"

definition ref_clear :: "nat option \<Rightarrow> nat \<Rightarrow> 'v heap \<Rightarrow> 'v heap" where
  "ref_clear p k h =
     (case Option.bind p (hp_blocks h) of
        Some (t, n, cs) \<Rightarrow> h\<lparr>hp_blocks := (hp_blocks h)(the p \<mapsto> (t, n, replicate k Raw @ drop k cs)),
                             hp_bad := (hp_bad h \<or> length cs < k \<or> Raw \<in> set (take k cs))\<rparr>
      | None \<Rightarrow> h\<lparr>hp_bad := True\<rparr>)"

definition heap_alloc :: "'v option \<Rightarrow> ('v heap, nat, 'v) alloc" where
  "heap_alloc dflt = \<lparr>value_type = Obj ''char'' False, al_allocate = ref_allocate, al_deallocate = ref_deallocate,
     alloc_construct = (\<lambda>p i. ref_fill p [init_value dflt i]),
     alloc_construct_n = (\<lambda>p k. ref_fill p (replicate (unat k) dflt)),
     alloc_construct_n_from = (\<lambda>p k vs m. ref_fill p (map (\<lambda>i. Some (vs ! (i mod unat m))) [0..<unat k])),
     alloc_destroy = (\<lambda>p. ref_clear p 1), alloc_destroy_n = (\<lambda>p k. ref_clear p (unat k)),
     first_scalar = id, to_address = id\<rparr>"

lemma ref_fill_all_or_nothing:
  "hp_blocks h q = Some (t, n, cs) \<Longrightarrow> length cs = length vs \<Longrightarrow>
   all_or_nothing hp_blocks q (map Live vs) h (ref_fill (Some q) vs h)"
  by (simp add: all_or_nothing_def ref_fill_def Let_def)

interpretation heap_alloc: alloc_lib "heap_alloc dflt" hp_blocks dflt
proof
  fix h q t n k
  show "all_or_nothing hp_blocks q (replicate (unat k) (Live dflt)) h
      (alloc_construct_n (heap_alloc dflt) (Some q) k h)"
    if "hp_blocks h q = Some (t, n, replicate (unat k) Raw)"
    using ref_fill_all_or_nothing [OF that, of "replicate (unat k) dflt"] by (simp add: heap_alloc_def)
  show "all_or_nothing hp_blocks q (map (\<lambda>i. Live (Some (vs ! (i mod length vs)))) [0..<unat k]) h
      (alloc_construct_n_from (heap_alloc dflt) (Some q) k vs m h)"
    if "hp_blocks h q = Some (t, n, replicate (unat k) Raw)" "length vs = unat m" for vs m
    using ref_fill_all_or_nothing [OF that(1), of "map (\<lambda>i. Some (vs ! (i mod unat m))) [0..<unat k]"] that(2)
    by (simp add: heap_alloc_def comp_def)
  show "all_or_nothing hp_blocks q [Live (init_value dflt i)] h (alloc_construct (heap_alloc dflt) (Some q) i h)"
    if "hp_blocks h q = Some (t, n, [Raw])" for i
    using ref_fill_all_or_nothing [OF that, of "[init_value dflt i]"] by (simp add: heap_alloc_def)
qed (auto simp: heap_alloc_def ref_allocate_def ref_deallocate_def ref_clear_def list_all_iff split: if_splits)

subsection \<open>Typing of the owner\<close>

text \<open>
  The specialisation of the pointer and the types of the owner and its deleter that go with
  an allocated type; a null pointer to an unbounded array may have an indeterminate size.
\<close>

fun ptr_typed :: "cpp_type \<Rightarrow> 'p sp_alloc_ptr \<Rightarrow> bool" where
  "ptr_typed (Obj c cv) (Sp_obj p) = True"
| "ptr_typed (Unbounded u) (Sp_array p n) = (p \<noteq> None \<longrightarrow> n \<noteq> None)"
| "ptr_typed (Bounded n u) (Sp_bounded m p) = (m = n)"
| "ptr_typed t x = False"

text \<open>The same type with no qualifier on its elements.\<close>

inductive unqualified :: "cpp_type \<Rightarrow> cpp_type \<Rightarrow> bool" where
  object: "unqualified (Obj c cv) (Obj c False)"
| unbounded: "unqualified t u \<Longrightarrow> unqualified (Unbounded t) (Unbounded u)"
| bounded: "unqualified t u \<Longrightarrow> unqualified (Bounded n t) (Bounded n u)"

lemma remove_cv_unqualified: "unqualified t (remove_cv t)"
  by (induction t) (auto intro: unqualified.intros)

text \<open>
  The types of an owner, as a caller sees them: an object is owned as such, an array with or without
  a bound as an array without one, and the allocator of the deleter is the one for the
  unqualified element, an element of an array being what its outermost dimension consists of.
\<close>

fun owner_types :: "cpp_type \<Rightarrow> cpp_type \<Rightarrow> cpp_type \<Rightarrow> bool" where
  "owner_types (Obj c cv) owned elem \<longleftrightarrow> owned = Obj c cv \<and> elem = Obj c False"
| "owner_types (Unbounded t) owned elem \<longleftrightarrow> owned = Unbounded t \<and> unqualified t elem"
| "owner_types (Bounded n t) owned elem \<longleftrightarrow> owned = Unbounded t \<and> unqualified t elem"

definition owner_typed :: "cpp_type \<Rightarrow> ('h, 'p, 'v) unique_ptr \<Rightarrow> bool" where
  "owner_typed t u \<longleftrightarrow> owner_types t (up_type u) (value_type (del_alloc (up_deleter u))) \<and>
     ptr_typed t (up_ptr u) \<and> del_type (up_deleter u) = t"

lemma owner_types_traits: "owner_types t (sp_alloc_result t) (sp_alloc_value t)"
  by (cases t) (simp_all add: sp_alloc_result_def sp_alloc_value_def remove_cv_unqualified)

lemma ptr_typed_make [simp]: "ptr_typed t (sp_alloc_ptr_make t n p)" "ptr_typed t (sp_alloc_ptr_null t)"
  by (cases t; simp add: sp_alloc_ptr_make_def sp_alloc_ptr_null_def)+

text \<open>The comparisons look at the pointer only, and those with \<open>nullptr\<close> agree with the ones with a null pointer.\<close>

lemma sp_comparisons:
  "sp_eq x (sp_alloc_ptr_null t) \<longleftrightarrow> sp_eq_null x" "sp_ne x (sp_alloc_ptr_null t) \<longleftrightarrow> sp_ne_null x"
  "sp_bool x \<longleftrightarrow> \<not> sp_eq_null x" "sp_eq (sp_alloc_ptr_make t n p) (sp_alloc_ptr_make u m q) \<longleftrightarrow> p = q"
  by (cases t; simp add: sp_eq_def sp_ne_def sp_eq_null_def sp_ne_null_def sp_bool_def sp_alloc_ptr_null_def)+

lemma ptr_typed_size: "ptr_typed t x \<Longrightarrow> sp_ne_null x \<Longrightarrow> sp_size x \<noteq> None"
  by (cases t; cases x) (auto simp: sp_ne_null_def)

lemma make_scope_typed: "make_scope t a n body h = (Inr u, h') \<Longrightarrow> owner_typed t u"
  by (auto simp: make_scope_def sp_alloc_make_init_def sp_alloc_make_release_def owner_typed_def owner_types_traits
      sp_alloc_to_def Let_def split: prod.splits sum.splits)

lemma allocate_unique_typed: "allocate_unique t a args = Some f \<Longrightarrow> f h = (Inr u, h') \<Longrightarrow> owner_typed t u"
  using make_scope_typed
  by (cases t; cases args)
    (auto simp: allocate_unique_def allocate_unique_object_def allocate_unique_args_def allocate_unique_move_def
      allocate_unique_array_def allocate_unique_bounded_def allocate_unique_array_value_def
      allocate_unique_bounded_value_def)

lemma reset_typed:
  assumes "owner_typed t u"
  shows "\<exists>v h'. unique_ptr_reset u h = Some (v, h') \<and> owner_typed t v \<and> sp_eq_null (up_ptr v) \<and>
    unique_ptr_destroy v h' = Some h'"
proof -
  have "unique_ptr_destroy u h \<noteq> None"
    using assms ptr_typed_size [of t "up_ptr u"]
    by (auto simp: unique_ptr_destroy_def alloc_delete_def owner_typed_def Let_def)
  then obtain h' where "unique_ptr_destroy u h = Some h'"
    by blast
  moreover have "sp_ptr (sp_alloc_ptr_null t) = None"
    by (cases t) (simp_all add: sp_alloc_ptr_null_def)
  ultimately show ?thesis
    using assms by (auto simp: unique_ptr_reset_def owner_typed_def unique_ptr_destroy_def sp_ne_null_def sp_eq_null_def Let_def)
qed

lemma noinit_overloads:
  "allocate_unique_noinit na t a args = Some f \<Longrightarrow> allocate_unique t (na a) args = Some f \<and> args_ok t args"
  by (cases t; cases args) (simp_all add: allocate_unique_noinit_def)

text \<open>With an adaptor that leaves scalars uninitialised, every scalar a \<open>noinit\<close> factory makes is.\<close>

lemma noinit_values:
  assumes "allocate_unique_noinit na t a args = Some f"
  shows "set (made_values None t args) \<subseteq> {None}"
  using assms by (cases t; cases args) (auto simp: allocate_unique_noinit_def)

subsection \<open>Properties\<close>

text \<open>Two rows of three elements, in an empty store with a budget of constructor calls.\<close>

definition matrix :: cpp_type where
  "matrix = Bounded 2 (Bounded 3 (Obj ''int'' False))"

definition empty_heap :: "nat \<Rightarrow> nat heap" where
  "empty_heap k = \<lparr>hp_blocks = Map.empty, hp_next = 0, hp_budget = k, hp_bad = False\<rparr>"

lemmas eval_alloc = allocate_unique_def matrix_def empty_heap_def allocate_unique_bounded_def
  allocate_unique_bounded_value_def make_scope_def sp_alloc_make_init_def sp_alloc_value_def
  ref_allocate_def ref_deallocate_def ref_fill_def ref_clear_def heap_alloc_def sp_alloc_make_destroy_def
  sp_alloc_make_release_def sp_alloc_make_get_def sp_alloc_to_def Let_def

lemma matrix_throws:
  "\<exists>h'. allocate_unique_bounded matrix (heap_alloc (Some 0)) (empty_heap 5) = (Inl Ctor_throws, h')"
  by (simp add: eval_alloc)

lemma matrix_returns:
  "\<exists>u h'. allocate_unique_bounded_value matrix (heap_alloc (Some 0)) [7, 8, 9] (empty_heap 6) = (Inr u, h')"
  by (simp add: eval_alloc)

lemma matrix_overloads:
  "allocate_unique matrix a No_args = Some (allocate_unique_bounded matrix a)" "args_ok matrix No_args"
  "allocate_unique matrix a (Value vs) = Some (allocate_unique_bounded_value matrix a vs)"
  "args_ok matrix (Value [7, 8, 9])"
  by (simp_all add: allocate_unique_def matrix_def)

text \<open>
  C14: a factory either throws, because the allocator or a constructor does, and leaves the store
  as it was, with no block leaked; or it has made one fresh block of exactly the elements asked
  for, all initialised (an array element by element from the value given), and the destructor of the
  owner destroys each of them once and gives the block back, so that the store is the one before
  the call. This holds for every overload and every nested array type: the sizes, computed with
  wrap-around when constructing and when destroying, agree.
\<close>

theorem allocate_unique_safe:
  assumes "alloc_lib a blocks dflt" "allocate_unique t a args = Some f" "args_ok t args"
  shows "case f h of
      (Inl e, h') \<Rightarrow> blocks h' = blocks h
    | (Inr u, h') \<Rightarrow> \<exists>q. blocks h q = None \<and>
        blocks h' = (blocks h)(q \<mapsto> (sp_alloc_value t, made_n t args, map Live (made_values dflt t args))) \<and>
        (\<exists>h''. unique_ptr_destroy u h' = Some h'' \<and> blocks h'' = blocks h)"
proof (cases "f h")
  case (Pair r h')
  then show ?thesis
    using alloc_lib.allocate_unique_outcome [OF assms, of h] alloc_lib.allocate_unique_owns [OF assms, of h]
    by (cases r) (auto simp: outcome_def)
qed

theorem allocate_unique_safe_witness:
  "\<exists>h0 u h' h'' q. allocate_unique_bounded matrix (heap_alloc (Some 0)) (empty_heap 5) = (Inl Ctor_throws, h0) \<and>
     hp_blocks h0 = Map.empty \<and>
     allocate_unique_bounded_value matrix (heap_alloc (Some 0)) [7, 8, 9] (empty_heap 6) = (Inr u, h') \<and>
     hp_blocks h' = [q \<mapsto> (Bounded 3 (Obj ''int'' False), 2, map (Live \<circ> Some) [7, 8, 9, 7, 8, 9])] \<and>
     unique_ptr_destroy u h' = Some h'' \<and> hp_blocks h'' = Map.empty"
proof -
  obtain h0 where h0: "allocate_unique_bounded matrix (heap_alloc (Some 0)) (empty_heap 5) = (Inl Ctor_throws, h0)"
    using matrix_throws by blast
  obtain u h' where h: "allocate_unique_bounded_value matrix (heap_alloc (Some 0)) [7, 8, 9] (empty_heap 6) = (Inr u, h')"
    using matrix_returns by blast
  have "made_values (Some 0) matrix (Value [7, 8, 9]) = map Some [7, 8, 9, 7, 8, 9 :: nat]"
    by (simp add: matrix_def) (simp add: numeral_2_eq_2)
  moreover have "made_n matrix (Value [7, 8, 9 :: nat]) = 2" "sp_alloc_value matrix = Bounded 3 (Obj ''int'' False)"
    "hp_blocks (empty_heap n) = Map.empty" for n
    by (simp_all add: matrix_def sp_alloc_value_def empty_heap_def)
  moreover have "hp_blocks h0 = hp_blocks (empty_heap 5)"
    using allocate_unique_safe [OF heap_alloc.alloc_lib_axioms [of "Some 0"] matrix_overloads(1,2), of "empty_heap 5"] h0
    by simp
  moreover obtain q h'' where "hp_blocks h' = (hp_blocks (empty_heap 6))
      (q \<mapsto> (sp_alloc_value matrix, made_n matrix (Value [7, 8, 9]), map Live (made_values (Some 0) matrix (Value [7, 8, 9]))))"
    "unique_ptr_destroy u h' = Some h''" "hp_blocks h'' = hp_blocks (empty_heap 6)"
    using allocate_unique_safe [OF heap_alloc.alloc_lib_axioms [of "Some 0"] matrix_overloads(3,4), of "empty_heap 6"] h
    by auto
  ultimately show ?thesis
    using h h0 by (intro exI [of _ h0] exI [of _ u] exI [of _ h'] exI [of _ h''] exI [of _ q]) simp
qed

text \<open>
  C29: the owner a factory returns is well typed: its element type is the documented one (an
  unbounded array for a bounded one), its pointer is the specialisation for the allocated type
  with a size that is set, and its deleter has the allocator of the element type; resetting it
  keeps it well typed and never reads a size that was not set, and neither does its destructor then.
\<close>

theorem allocate_unique_well_typed:
  assumes "allocate_unique t a args = Some f" "f h = (Inr u, h')"
  shows "owner_typed t u \<and> (\<exists>v h2. unique_ptr_reset u h1 = Some (v, h2) \<and> owner_typed t v \<and>
    sp_eq_null (up_ptr v) \<and> unique_ptr_destroy v h2 = Some h2)"
  using allocate_unique_typed [OF assms] reset_typed [OF allocate_unique_typed [OF assms], of h1] by (rule conjI)

theorem allocate_unique_well_typed_witness:
  "\<exists>u h'. allocate_unique_bounded_value matrix (heap_alloc (Some 0)) [7, 8, 9] (empty_heap 6) = (Inr u, h') \<and>
     owner_typed matrix u \<and> up_type u = Unbounded (Bounded 3 (Obj ''int'' False))"
proof -
  obtain u h' where h: "allocate_unique_bounded_value matrix (heap_alloc (Some 0)) [7, 8, 9] (empty_heap 6) = (Inr u, h')"
    using matrix_returns by blast
  have "owner_typed matrix u"
    using allocate_unique_well_typed [OF matrix_overloads(3) h, of h'] by (rule conjunct1)
  with h show ?thesis
    by (auto simp: owner_typed_def matrix_def)
qed

end
