(* ===== verification/Example_Server.thy ===== *)
theory Example_Server
  imports Listener Relay
begin

text \<open>
  \<^verbatim>\<open>examples/server/main.cpp\<close> and \<^verbatim>\<open>examples/https_server/main.cpp\<close>: the request handler of
  the two servers, and the session of \<open>Listener\<close> with a handler in it. \<open>server_op\<close> runs the
  handler as one operation; here the handler is a coroutine of its own, started when
  \<open>server_op\<close> starts it and resuming \<open>server_op\<close> with what it completes with.
\<close>

subsection \<open>The request handler\<close>

record hello =
  he_status :: nat
  he_version :: nat
  he_body :: string
  he_payload :: bool            \<comment> \<open>\<open>prepare_payload()\<close> was called\<close>

definition hello_new :: hello where
  "hello_new = \<lparr>he_status = 200, he_version = 11, he_body = [], he_payload = False\<rparr>"

definition hello_prepared :: "hello \<Rightarrow> hello" where
  "hello_prepared r = r\<lparr>he_status := 200, he_version := 11, he_body := ''<html><p>Hello, world!</p></html>'', he_payload := True\<rparr>"

datatype handler_pc = Rh_start | Rh_reading | Rh_writing

record handler_frame =
  rh_pc :: handler_pc
  rh_request :: message
  rh_response :: hello
  rh_cout :: string

datatype handler_op = Rh_read | Rh_write hello

datatype handler_ev = Rh_begin | Rh_request error_code message | Rh_written error_code

definition request_handler_new :: handler_frame where
  "request_handler_new = \<lparr>rh_pc = Rh_start, rh_request = empty_message, rh_response = hello_new, rh_cout = []\<rparr>"

text \<open>The head of the loop.\<close>

definition handler_next :: "handler_frame \<Rightarrow> handler_frame \<times> (handler_op, error_code \<times> nat) out" where
  "handler_next f = (f\<lparr>rh_response := hello_new, rh_request := empty_message, rh_pc := Rh_reading\<rparr>, Yield Rh_read)"

text \<open>
  The coroutine; what the server without encryption prints (\<open>verbose\<close>) goes to \<open>rh_cout\<close>, and how
  Beast and Boost print a message or an error code are the arguments \<open>show_msg\<close> and \<open>show_ec\<close>.
\<close>

definition handler_say :: "bool \<Rightarrow> string \<Rightarrow> handler_frame \<Rightarrow> handler_frame" where
  "handler_say verbose text f = (if verbose then f\<lparr>rh_cout := rh_cout f @ text\<rparr> else f)"

definition request_handler ::
  "bool \<Rightarrow> (message \<Rightarrow> string) \<Rightarrow> (error_code \<Rightarrow> string) \<Rightarrow> (message \<Rightarrow> bool) \<Rightarrow> handler_frame \<Rightarrow> handler_ev \<Rightarrow>
   handler_frame \<times> (handler_op, error_code \<times> nat) out" where
  "request_handler verbose show_msg show_ec keeps f ev =
     (case (rh_pc f, ev) of
        (Rh_start, Rh_begin) \<Rightarrow> handler_next f
      | (Rh_reading, Rh_request ec request) \<Rightarrow>
          let f = f\<lparr>rh_request := request\<rparr>
          in if ec_failed ec
             then (handler_say verbose (''Encountered error when reading in the request!'' @ CHR 0x0A # show_ec ec @ [CHR 0x0A]) f,
                   Return (no_error, 0))
             else
               (let f = handler_say verbose (''Received message!'' @ CHR 0x0A # show_msg (rh_request f) @ [CHR 0x0A]) f;
                    f = f\<lparr>rh_response := hello_prepared (rh_response f), rh_pc := Rh_writing\<rparr>
                in (f, Yield (Rh_write (rh_response f))))
      | (Rh_writing, Rh_written ec) \<Rightarrow>
          if ec_failed ec
          then (handler_say verbose (''Encountered error when writing the response!'' @ CHR 0x0A # show_ec ec @ [CHR 0x0A]) f,
                Return (no_error, 0))
          else if \<not> keeps (rh_request f) then (f, Return (no_error, 0))
          else handler_next f
      | _ \<Rightarrow> (f, Mismatch))"

text \<open>The handler of the encrypted server prints nothing.\<close>

definition https_request_handler ::
  "(message \<Rightarrow> bool) \<Rightarrow> handler_frame \<Rightarrow> handler_ev \<Rightarrow> handler_frame \<times> (handler_op, error_code \<times> nat) out" where
  "https_request_handler = request_handler False (\<lambda>m. []) (\<lambda>ec. [])"

subsection \<open>A session with its handler\<close>

datatype ('op) served_op = Sd_server server_opn | Sd_user 'op

datatype ('ev) served_ev = Sd_begin | Sd_done error_code nat | Sd_handler 'ev

record ('k, 'h) served =
  sd_server :: "'k server_frame"
  sd_handler :: "'h option"

definition served_new :: "'k session \<Rightarrow> ('k, 'h) served" where
  "served_new s = \<lparr>sd_server = server_frame_new s, sd_handler = None\<rparr>"

text \<open>The handler is resumed, and \<open>server_op\<close> with it when it completes.\<close>

definition served_handler ::
  "('h \<Rightarrow> 'ev \<Rightarrow> 'h \<times> ('op, error_code \<times> nat) out) \<Rightarrow> ('k, 'h) served \<Rightarrow> 'h \<Rightarrow> 'ev \<Rightarrow>
   ('k, 'h) served \<times> ('op served_op, unit) out" where
  "served_handler handler x h ev =
     (case handler h ev of
        (h, Yield op) \<Rightarrow> (x\<lparr>sd_handler := Some h\<rparr>, Yield (Sd_user op))
      | (h, Return (ec, n)) \<Rightarrow>
          (case server_op_resume (sd_server x) (Sv_done ec n) of
             (f, Yield op) \<Rightarrow> (x\<lparr>sd_server := f, sd_handler := None\<rparr>, Yield (Sd_server op))
           | (f, _) \<Rightarrow> (x\<lparr>sd_server := f, sd_handler := None\<rparr>, Mismatch))
      | (h, Throw ec) \<Rightarrow> (x, Throw ec)
      | (h, Terminate) \<Rightarrow> (x, Terminate)
      | (h, Mismatch) \<Rightarrow> (x, Mismatch))"

definition served_resume ::
  "('h \<Rightarrow> 'ev \<Rightarrow> 'h \<times> ('op, error_code \<times> nat) out) \<Rightarrow> 'h \<Rightarrow> 'ev \<Rightarrow> ('k, 'h) served \<Rightarrow> 'ev served_ev \<Rightarrow>
   ('k, 'h) served \<times> ('op served_op, unit) out" where
  "served_resume handler new start x ev =
     (case (sd_handler x, ev) of
        (Some h, Sd_handler e) \<Rightarrow> served_handler handler x h e
      | (None, Sd_handler e) \<Rightarrow> (x, Mismatch)
      | (Some h, _) \<Rightarrow> (x, Mismatch)
      | (None, _) \<Rightarrow>
          (case server_op_resume (sd_server x) (case ev of Sd_done ec n \<Rightarrow> Sv_done ec n | _ \<Rightarrow> Sv_begin) of
             (f, Yield Sv_handler) \<Rightarrow> served_handler handler (x\<lparr>sd_server := f\<rparr>) new start
           | (f, Yield op) \<Rightarrow> (x\<lparr>sd_server := f\<rparr>, Yield (Sd_server op))
           | (f, Return u) \<Rightarrow> (x\<lparr>sd_server := f\<rparr>, Return u)
           | (f, _) \<Rightarrow> (x\<lparr>sd_server := f\<rparr>, Mismatch)))"

subsection \<open>Serving a session\<close>

text \<open>The outputs of a session from the start of its handler on, for any handler that completes.\<close>

lemma served_handler_run:
  assumes "snd (coro_run handler h (e # es)) = map Yield ops @ [Return r]" "length es = length ops"
    and "sf_pc (sd_server x) = Sv_handled"
  shows "coro_from (served_resume handler new start) (served_handler handler x h e)
      (map Sd_handler es @ [Sd_done ec n]) =
    map (\<lambda>op. Yield (Sd_user op)) ops @ [Yield (Sd_server Sv_shutdown), Return ()]"
  using assms
proof (induction ops arbitrary: h e es x)
  case Nil
  obtain h' out where h: "handler h e = (h', out)"
    by (cases "handler h e")
  with Nil(1,2) have "coro_from handler (h', out) [] = [Return r]"
    by (simp add: coro_run_from del: coro_run.simps(2))
  then have "out = Return r"
    by (cases out) (simp_all add: coro_from_def)
  with Nil(2,3) h show ?case
    by (cases r) (simp add: served_handler_def served_resume_def server_op_resume_def server_shutdown_def)
next
  case (Cons op ops)
  obtain e' es' where es: "es = e' # es'" "length es' = length ops"
    using Cons.prems(2) by (cases es) auto
  obtain h' out where h: "handler h e = (h', out)"
    by (cases "handler h e")
  with Cons.prems(1) es have step: "coro_from handler (h', out) (e' # es') = Yield op # map Yield ops @ [Return r]"
    by (simp add: coro_run_from del: coro_run.simps(2))
  then have out: "out = Yield op"
    by (cases out) (simp_all add: coro_from_def)
  with step have rest: "snd (coro_run handler h' (e' # es')) = map Yield ops @ [Return r]"
    by (simp del: coro_run.simps(2))
  have "served_handler handler x h e = (x\<lparr>sd_handler := Some h'\<rparr>, Yield (Sd_user op))"
    by (simp add: served_handler_def h out)
  moreover have "served_resume handler new start (x\<lparr>sd_handler := Some h'\<rparr>) (Sd_handler e') =
      served_handler handler (x\<lparr>sd_handler := Some h'\<rparr>) h' e'"
    by (simp add: served_resume_def)
  ultimately show ?case
    using Cons.IH [OF rest es(2), of "x\<lparr>sd_handler := Some h'\<rparr>"] Cons.prems(3) es(1)
    by (simp add: coro_run_from del: coro_run.simps(2))
qed

lemma served_start:
  assumes "\<not> ms_is_ssl (se_stream s)"
  shows "served_resume handler new start (served_new s) Sd_begin =
    served_handler handler (served_new s\<lparr>sd_server := (server_frame_new s)\<lparr>sf_pc := Sv_handled, sf_handler := False\<rparr>\<rparr>) new start"
  using assms by (simp add: served_resume_def served_new_def server_op_resume_def server_run_handler_def server_frame_new_def)

lemma served_start_ssl:
  assumes "ms_is_ssl (se_stream s)" "\<not> ec_failed ec"
  shows "served_resume handler new start (served_new s) Sd_begin =
      (served_new s\<lparr>sd_server := (server_frame_new s)\<lparr>sf_pc := Sv_shaken\<rparr>\<rparr>, Yield (Sd_server Sv_handshake))"
    and "served_resume handler new start (served_new s\<lparr>sd_server := (server_frame_new s)\<lparr>sf_pc := Sv_shaken\<rparr>\<rparr>) (Sd_done ec n) =
      served_handler handler (served_new s\<lparr>sd_server := (server_frame_new s)\<lparr>sf_pc := Sv_handled, sf_handler := False\<rparr>\<rparr>) new start"
  using assms by (simp_all add: served_resume_def served_new_def server_op_resume_def server_run_handler_def server_frame_new_def)

text \<open>A whole session, encrypted or not.\<close>

definition handshake_evs :: "'k session \<Rightarrow> 'ev served_ev list" where
  "handshake_evs s = Sd_begin # (if ms_is_ssl (se_stream s) then [Sd_done no_error 0] else [])"

definition handshake_ops :: "'k session \<Rightarrow> ('op served_op, unit) out list" where
  "handshake_ops s = (if ms_is_ssl (se_stream s) then [Yield (Sd_server Sv_handshake)] else [])"

lemma served_session:
  assumes "snd (coro_run handler new (start # es)) = map Yield ops @ [Return r]" "length es = length ops"
  shows "snd (coro_run (served_resume handler new start) (served_new s)
      (handshake_evs s @ map Sd_handler es @ [Sd_done ec n])) =
    handshake_ops s @ map (\<lambda>op. Yield (Sd_user op)) ops @ [Yield (Sd_server Sv_shutdown), Return ()]"
proof -
  let ?x = "served_new s\<lparr>sd_server := (server_frame_new s)\<lparr>sf_pc := Sv_handled, sf_handler := False\<rparr>\<rparr>"
  have run: "coro_from (served_resume handler new start) (served_handler handler ?x new start)
      (map Sd_handler es @ [Sd_done ec n]) =
    map (\<lambda>op. Yield (Sd_user op)) ops @ [Yield (Sd_server Sv_shutdown), Return ()]"
    by (rule served_handler_run [OF assms]) simp
  show ?thesis
  proof (cases "ms_is_ssl (se_stream s)")
    case True
    with run show ?thesis
      by (simp add: served_start_ssl [where ec = no_error] handshake_evs_def handshake_ops_def coro_run_from del: coro_run.simps(2))
  next
    case False
    with run show ?thesis
      by (simp add: served_start handshake_evs_def handshake_ops_def coro_run_from del: coro_run.simps(2))
  qed
qed

subsection \<open>What the handler does\<close>

definition hello_response :: hello where
  "hello_response = \<lparr>he_status = 200, he_version = 11, he_body = ''<html><p>Hello, world!</p></html>'', he_payload = True\<rparr>"

text \<open>An exchange: how reading the request went, the request, and how writing the response went.\<close>

type_synonym handled = "error_code \<times> message \<times> error_code"

definition goes_on :: "(message \<Rightarrow> bool) \<Rightarrow> handled \<Rightarrow> bool" where
  "goes_on keeps x = (case x of (rec, m, wec) \<Rightarrow> \<not> ec_failed rec \<and> \<not> ec_failed wec \<and> keeps m)"

definition handled_evs :: "handled \<Rightarrow> handler_ev list" where
  "handled_evs x = (case x of (rec, m, wec) \<Rightarrow> Rh_request rec m # (if ec_failed rec then [] else [Rh_written wec]))"

definition handled_ops :: "handled \<Rightarrow> handler_op list" where
  "handled_ops x = (case x of (rec, m, wec) \<Rightarrow> if ec_failed rec then [] else [Rh_write hello_response])"

lemma handler_say_sel [simp]:
  "rh_pc (handler_say v t f) = rh_pc f" "rh_request (handler_say v t f) = rh_request f"
  by (simp_all add: handler_say_def)

lemma hello_prepared_eq [simp]: "hello_prepared r = hello_response"
  by (cases r) (simp add: hello_prepared_def hello_response_def)

lemma handler_read:
  assumes "rh_pc f = Rh_reading" "\<not> ec_failed ec"
  obtains f' where "request_handler v sm se keeps f (Rh_request ec m) = (f', Yield (Rh_write hello_response))"
    "rh_pc f' = Rh_writing" "rh_request f' = m"
  using assms that by (simp add: request_handler_def Let_def)

lemma handler_written:
  assumes "rh_pc f = Rh_writing" "\<not> ec_failed ec" "keeps (rh_request f)"
  obtains f' where "request_handler v sm se keeps f (Rh_written ec) = (f', Yield Rh_read)" "rh_pc f' = Rh_reading"
  using assms that by (simp add: request_handler_def handler_next_def)

lemma handler_exchange:
  assumes "rh_pc f = Rh_reading"
  shows "goes_on keeps x \<Longrightarrow> \<exists>f'. rh_pc f' = Rh_reading \<and>
      (\<forall>es. snd (coro_run (request_handler v sm se keeps) f (handled_evs x @ es)) =
        map Yield (handled_ops x @ [Rh_read]) @ snd (coro_run (request_handler v sm se keeps) f' es))"
    and "\<not> goes_on keeps x \<Longrightarrow>
      snd (coro_run (request_handler v sm se keeps) f (handled_evs x)) = map Yield (handled_ops x) @ [Return (no_error, 0)]"
proof -
  obtain rec m wec where x: "x = (rec, m, wec)"
    by (cases x) auto
  show "\<exists>f'. rh_pc f' = Rh_reading \<and>
      (\<forall>es. snd (coro_run (request_handler v sm se keeps) f (handled_evs x @ es)) =
        map Yield (handled_ops x @ [Rh_read]) @ snd (coro_run (request_handler v sm se keeps) f' es))"
    if "goes_on keeps x"
  proof -
    from that x have ok: "\<not> ec_failed rec" "\<not> ec_failed wec" "keeps m"
      by (simp_all add: goes_on_def)
    obtain f1 where f1: "request_handler v sm se keeps f (Rh_request rec m) = (f1, Yield (Rh_write hello_response))"
      "rh_pc f1 = Rh_writing" "rh_request f1 = m"
      using handler_read [OF assms ok(1)] .
    with ok handler_written [of f1 wec keeps v sm se] obtain f2 where
      "request_handler v sm se keeps f1 (Rh_written wec) = (f2, Yield Rh_read)" "rh_pc f2 = Rh_reading"
      by auto
    with f1(1) ok x show ?thesis
      by (intro exI [of _ f2]) (simp add: handled_evs_def handled_ops_def)
  qed
  show "snd (coro_run (request_handler v sm se keeps) f (handled_evs x)) =
      map Yield (handled_ops x) @ [Return (no_error, 0)]" if "\<not> goes_on keeps x"
    using that assms x
    by (auto simp: goes_on_def handled_evs_def handled_ops_def request_handler_def Let_def)
qed

lemma handler_exchanges:
  assumes "rh_pc f = Rh_reading" "list_all (goes_on keeps) xs" "\<not> goes_on keeps x"
  shows "snd (coro_run (request_handler v sm se keeps) f (concat (map handled_evs xs) @ handled_evs x)) =
    map Yield (concat (map (\<lambda>x. handled_ops x @ [Rh_read]) xs) @ handled_ops x) @ [Return (no_error, 0)]"
  using assms
proof (induction xs arbitrary: f)
  case Nil
  with handler_exchange(2) [OF Nil(1,3)] show ?case
    by simp
next
  case (Cons y ys)
  then obtain f' where f': "rh_pc f' = Rh_reading"
    "\<forall>es. snd (coro_run (request_handler v sm se keeps) f (handled_evs y @ es)) =
        map Yield (handled_ops y @ [Rh_read]) @ snd (coro_run (request_handler v sm se keeps) f' es)"
    using handler_exchange(1) [OF Cons.prems(1), of keeps y v sm se] by auto
  with Cons show ?case
    by simp
qed

lemma handler_lengths:
  "length (concat (map handled_evs xs) @ handled_evs x) =
   length (Rh_read # concat (map (\<lambda>x. handled_ops x @ [Rh_read]) xs) @ handled_ops x)"
proof -
  have "length (handled_evs y) = Suc (length (handled_ops y))" for y
    by (cases y) (simp add: handled_evs_def handled_ops_def)
  then show ?thesis
    by (induction xs) simp_all
qed

lemma server_session_run:
  assumes "list_all (goes_on keeps) xs" "\<not> goes_on keeps x"
  shows "snd (coro_run (served_resume (request_handler verbose show_msg show_ec keeps) request_handler_new Rh_begin)
      (served_new s) (handshake_evs s @ map Sd_handler (concat (map handled_evs xs) @ handled_evs x) @ [Sd_done ec n])) =
    handshake_ops s @ map (\<lambda>op. Yield (Sd_user op))
      (Rh_read # concat (map (\<lambda>x. handled_ops x @ [Rh_read]) xs) @ handled_ops x) @
    [Yield (Sd_server Sv_shutdown), Return ()]"
proof (rule served_session)
  let ?h = "request_handler verbose show_msg show_ec keeps"
  define f where "f = request_handler_new\<lparr>rh_response := hello_new, rh_request := empty_message, rh_pc := Rh_reading\<rparr>"
  have "?h request_handler_new Rh_begin = (f, Yield Rh_read)"
    by (simp add: request_handler_def request_handler_new_def handler_next_def f_def)
  then show "snd (coro_run ?h request_handler_new (Rh_begin # concat (map handled_evs xs) @ handled_evs x)) =
      map Yield (Rh_read # concat (map (\<lambda>x. handled_ops x @ [Rh_read]) xs) @ handled_ops x) @ [Return (no_error, 0)]"
    using handler_exchanges [of f, OF _ assms] by (simp add: coro_run_from f_def del: coro_run.simps(2))
qed (rule handler_lengths)

lemma https_server_session:
  assumes "list_all (goes_on keeps) xs" "\<not> goes_on keeps x"
  shows "snd (coro_run (served_resume (https_request_handler keeps) request_handler_new Rh_begin)
      (served_new (listener_session (Some ctx) k))
      (Sd_begin # Sd_done no_error 0 # map Sd_handler (concat (map handled_evs xs) @ handled_evs x) @ [Sd_done ec n])) =
    Yield (Sd_server Sv_handshake) # map (\<lambda>op. Yield (Sd_user op))
      (Rh_read # concat (map (\<lambda>x. handled_ops x @ [Rh_read]) xs) @ handled_ops x) @
    [Yield (Sd_server Sv_shutdown), Return ()]"
proof -
  have "ms_is_ssl (se_stream (listener_session (Some ctx) k))"
    by (simp add: listener_session_def session_of_stream_def ms_ssl_of_def)
  with server_session_run [OF assms, of False "\<lambda>m. []" "\<lambda>ec. []" "listener_session (Some ctx) k" ec n] show ?thesis
    by (simp add: https_request_handler_def handshake_evs_def handshake_ops_def del: coro_run.simps)
qed

subsection \<open>Properties\<close>

text \<open>
  C22: a session of the example servers, with or without encryption, from the handshake to the
  end: every request that is read is answered once, with status 200 and the page, and the next
  one is read until a request does not keep the connection alive or an error comes; the handler
  never fails, and then the session is shut down.
\<close>

theorem example_server_session:
  assumes "list_all (goes_on keeps) xs" "\<not> goes_on keeps x"
  shows "snd (coro_run (served_resume (request_handler verbose show_msg show_ec keeps) request_handler_new Rh_begin)
      (served_new s) (handshake_evs s @ map Sd_handler (concat (map handled_evs xs) @ handled_evs x) @ [Sd_done ec n])) =
    handshake_ops s @ map (\<lambda>op. Yield (Sd_user op))
      (Rh_read # concat (map (\<lambda>x. handled_ops x @ [Rh_read]) xs) @ handled_ops x) @
    [Yield (Sd_server Sv_shutdown), Return ()]"
  by (rule server_session_run [OF assms])

theorem example_server_session_witness:
  "snd (coro_run (served_resume (request_handler False (\<lambda>m. []) (\<lambda>ec. []) (\<lambda>m. msg_version m = 11)) request_handler_new Rh_begin)
      (served_new (session_of_stream (ms_plain_of True) default_opts))
      [Sd_begin, Sd_handler (Rh_request no_error (empty_message\<lparr>msg_version := 11\<rparr>)), Sd_handler (Rh_written no_error),
       Sd_handler (Rh_request asio_eof empty_message), Sd_done no_error 0]) =
    [Yield (Sd_user Rh_read), Yield (Sd_user (Rh_write hello_response)), Yield (Sd_user Rh_read),
     Yield (Sd_server Sv_shutdown), Return ()]"
  using example_server_session [of "\<lambda>m. msg_version m = 11" "[(no_error, empty_message\<lparr>msg_version := 11\<rparr>, no_error)]"
      "(asio_eof, empty_message, no_error)" False "\<lambda>m. []" "\<lambda>ec. []" "session_of_stream (ms_plain_of True) default_opts" no_error 0]
  by (simp add: goes_on_def handled_evs_def handled_ops_def handshake_evs_def handshake_ops_def
      session_of_stream_def ms_plain_of_def del: coro_run.simps)

end
