(* ===== verification/Example_Load.thy ===== *)
theory Example_Load
  imports Coro
begin

text \<open>
  \<^verbatim>\<open>examples/https_server/main.cpp\<close>: 128 clients that send ten requests each, on threads of
  their own, and share an atomic counter of the responses; the client that counts the last
  response shuts the listener down. A client is a coroutine; its resumption may update the
  shared state. The system interleaves the resumptions of the clients in any order.
\<close>

definition num_client_requests :: nat where "num_client_requests = 10"

definition num_clients :: nat where "num_clients = 128"

datatype client_pc = Cl_start | Cl_connecting | Cl_requesting | Cl_leaving | Cl_over

record load_client =
  cl_pc :: client_pc
  cl_req_count :: nat

record load_shared =
  ls_req_count :: nat           \<comment> \<open>the atomic counter\<close>
  ls_shutdowns :: nat           \<comment> \<open>calls of \<open>listener::shutdown\<close>\<close>

text \<open>A request is a \<open>GET\<close> of the root in HTTP 1.1; whether it keeps the connection alive varies.\<close>

datatype client_op = Cl_connect string string | Cl_request bool | Cl_shutdown

definition load_client_new :: load_client where
  "load_client_new = \<lparr>cl_pc = Cl_start, cl_req_count = 0\<rparr>"

text \<open>The condition of the loop over the requests and its body up to the request.\<close>

definition client_next :: "load_client \<Rightarrow> load_client \<times> (client_op, unit) out" where
  "client_next c =
     (if cl_req_count c < num_client_requests
      then (c\<lparr>cl_pc := Cl_requesting\<rparr>, Yield (Cl_request (cl_req_count c < num_client_requests - 1)))
      else (c\<lparr>cl_pc := Cl_leaving\<rparr>, Yield Cl_shutdown))"

definition count_response :: "load_shared \<Rightarrow> load_shared" where
  "count_response g =
     (let g = g\<lparr>ls_req_count := ls_req_count g + 1\<rparr>
      in if ls_req_count g = num_clients * num_client_requests then g\<lparr>ls_shutdowns := ls_shutdowns g + 1\<rparr> else g)"

text \<open>A failed connection leaves the coroutine at once; a failed request leaves the loop.\<close>

definition client_resume ::
  "load_client \<times> load_shared \<Rightarrow> error_code \<Rightarrow> (load_client \<times> load_shared) \<times> (client_op, unit) out" where
  "client_resume cg ec =
     (case cg of (c, g) \<Rightarrow>
        (case cl_pc c of
           Cl_start \<Rightarrow> ((c\<lparr>cl_pc := Cl_connecting\<rparr>, g), Yield (Cl_connect ''127.0.0.1'' ''1337''))
         | Cl_connecting \<Rightarrow>
             (if ec_failed ec then ((c\<lparr>cl_pc := Cl_over\<rparr>, g), Return ())
              else (case client_next (c\<lparr>cl_req_count := 0\<rparr>) of (c, out) \<Rightarrow> ((c, g), out)))
         | Cl_requesting \<Rightarrow>
             (if ec_failed ec then ((c\<lparr>cl_pc := Cl_leaving\<rparr>, g), Yield Cl_shutdown)
              else (case client_next (c\<lparr>cl_req_count := cl_req_count c + 1\<rparr>) of
                      (c, out) \<Rightarrow> ((c, count_response g), out)))
         | Cl_leaving \<Rightarrow> ((c\<lparr>cl_pc := Cl_over\<rparr>, g), Return ())
         | Cl_over \<Rightarrow> ((c, g), Mismatch)))"

subsection \<open>The system\<close>

record load_system =
  sy_clients :: "load_client list"
  sy_shared :: load_shared

definition load_init :: load_system where
  "load_init = \<lparr>sy_clients = replicate num_clients load_client_new, sy_shared = \<lparr>ls_req_count = 0, ls_shutdowns = 0\<rparr>\<rparr>"

definition load_resume :: "nat \<Rightarrow> error_code \<Rightarrow> load_system \<Rightarrow> load_system" where
  "load_resume i ec y =
     (case client_resume (sy_clients y ! i, sy_shared y) ec of
        ((c, g), _) \<Rightarrow> \<lparr>sy_clients = (sy_clients y)[i := c], sy_shared = g\<rparr>)"

inductive load_run :: "(nat \<times> error_code) list \<Rightarrow> load_system \<Rightarrow> bool" where
  init: "load_run [] load_init"
| step: "load_run evs y \<Longrightarrow> i < length (sy_clients y) \<Longrightarrow> cl_pc (sy_clients y ! i) \<noteq> Cl_over \<Longrightarrow>
    load_run (evs @ [(i, ec)]) (load_resume i ec y)"

subsection \<open>The invariant\<close>

definition client_ok :: "load_client \<Rightarrow> bool" where
  "client_ok c \<longleftrightarrow> cl_req_count c \<le> num_client_requests \<and>
     (cl_pc c \<in> {Cl_start, Cl_connecting} \<longrightarrow> cl_req_count c = 0) \<and>
     (cl_pc c = Cl_requesting \<longrightarrow> cl_req_count c < num_client_requests)"

definition responses :: "load_system \<Rightarrow> nat" where
  "responses y = sum_list (map cl_req_count (sy_clients y))"

definition load_inv :: "load_system \<Rightarrow> bool" where
  "load_inv y \<longleftrightarrow> length (sy_clients y) = num_clients \<and> list_all client_ok (sy_clients y) \<and>
     ls_req_count (sy_shared y) = responses y \<and>
     ls_shutdowns (sy_shared y) = (if responses y = num_clients * num_client_requests then 1 else 0)"

lemma client_next_sel:
  "cl_req_count (fst (client_next c)) = cl_req_count c"
  "cl_req_count c \<le> num_client_requests \<Longrightarrow> client_ok (fst (client_next c))"
  by (auto simp: client_next_def client_ok_def)

lemma client_resume_ok:
  assumes "client_ok c" "client_resume (c, g) ec = ((c', g'), out)" "cl_pc c \<noteq> Cl_over"
  shows "client_ok c' \<and>
    (if cl_pc c = Cl_requesting \<and> \<not> ec_failed ec then cl_req_count c' = cl_req_count c + 1 \<and> g' = count_response g
     else cl_req_count c' = cl_req_count c \<and> g' = g)"
  using assms client_next_sel [of "c\<lparr>cl_req_count := 0\<rparr>"] client_next_sel [of "c\<lparr>cl_req_count := cl_req_count c + 1\<rparr>"]
  by (cases "cl_pc c") (auto simp: client_resume_def client_ok_def split: if_splits prod.splits)

lemma sum_list_update_nat:
  fixes xs :: "nat list"
  shows "i < length xs \<Longrightarrow> sum_list (xs[i := v]) + xs ! i = sum_list xs + v"
proof (induction xs arbitrary: i)
  case (Cons x xs)
  then show ?case
    by (cases i) auto
qed simp

lemma sum_list_bound: "list_all (\<lambda>x. x \<le> b) xs \<Longrightarrow> sum_list xs \<le> length xs * (b :: nat)"
  by (induction xs) auto

lemma sum_list_full: "list_all (\<lambda>x. x \<le> b) xs \<Longrightarrow> sum_list xs = length xs * (b :: nat) \<longleftrightarrow> list_all (\<lambda>x. x = b) xs"
proof (induction xs)
  case (Cons x xs)
  then show ?case
    using sum_list_bound [of b xs] by auto
qed simp

lemma responses_full:
  assumes "load_inv y"
  shows "responses y = num_clients * num_client_requests \<longleftrightarrow> list_all (\<lambda>c. cl_req_count c = num_client_requests) (sy_clients y)"
  using assms sum_list_full [of num_client_requests "map cl_req_count (sy_clients y)"]
  by (auto simp: load_inv_def responses_def client_ok_def list_all_iff)

lemma load_inv_step:
  assumes "load_inv y" "i < length (sy_clients y)" "cl_pc (sy_clients y ! i) \<noteq> Cl_over"
  shows "load_inv (load_resume i ec y)"
proof -
  let ?c = "sy_clients y ! i"
  obtain c g out where r: "client_resume (?c, sy_shared y) ec = ((c, g), out)"
    by (metis prod.exhaust)
  have ok: "client_ok ?c" "list_all client_ok (sy_clients y)"
    using assms(1,2) by (simp_all add: load_inv_def list_all_length)
  note c = client_resume_ok [OF ok(1) r assms(3)]
  have clients: "list_all client_ok ((sy_clients y)[i := c])"
    using ok(2) c by (auto simp: list_all_iff dest!: set_update_subset_insert [THEN subsetD])
  define y' where "y' = load_resume i ec y"
  have y': "sy_clients y' = (sy_clients y)[i := c]" "sy_shared y' = g"
    using r by (simp_all add: y'_def load_resume_def)
  have n: "responses y' + cl_req_count ?c = responses y + cl_req_count c"
    using sum_list_update_nat [of i "map cl_req_count (sy_clients y)" "cl_req_count c"] assms(2)
    by (simp add: responses_def y' map_update)
  have "load_inv y'"
  proof (cases "cl_pc ?c = Cl_requesting \<and> \<not> ec_failed ec")
    case True
    with c n have "responses y' = responses y + 1" "g = count_response (sy_shared y)"
      by simp_all
    moreover have "responses y \<noteq> num_clients * num_client_requests"
      using responses_full [OF assms(1)] ok(1) True assms(2) by (auto simp: client_ok_def list_all_length)
    ultimately show ?thesis
      using assms(1) clients by (simp add: load_inv_def y' count_response_def Let_def)
  next
    case False
    with c n have "responses y' = responses y" "g = sy_shared y"
      by (simp_all split: if_splits)
    then show ?thesis
      using assms(1) clients by (simp add: load_inv_def y')
  qed
  then show ?thesis
    by (simp add: y'_def)
qed

lemma load_inv_run: "load_run evs y \<Longrightarrow> load_inv y"
proof (induction rule: load_run.induct)
  case init
  have "responses load_init = 0"
    by (simp add: responses_def load_init_def load_client_new_def)
  then show ?case
    by (simp add: load_inv_def load_init_def client_ok_def load_client_new_def num_clients_def num_client_requests_def list_all_iff)
qed (rule load_inv_step)

subsection \<open>Properties\<close>

text \<open>
  C23: however the resumptions of the clients interleave, the listener is shut down at most once,
  and it has been exactly when every client has received all its responses: never before, and
  never when a client failed.
\<close>

theorem load_shutdown_exact:
  assumes "load_run evs y"
  shows "ls_shutdowns (sy_shared y) =
      (if list_all (\<lambda>c. cl_req_count c = num_client_requests) (sy_clients y) then 1 else 0) \<and>
    ls_req_count (sy_shared y) \<le> num_clients * num_client_requests"
proof -
  have inv: "load_inv y"
    by (rule load_inv_run [OF assms])
  have "list_all (\<lambda>x. x \<le> num_client_requests) (map cl_req_count (sy_clients y))" "length (sy_clients y) = num_clients"
    using inv by (auto simp: load_inv_def client_ok_def list_all_iff)
  then have "responses y \<le> num_clients * num_client_requests"
    using sum_list_bound [of num_client_requests "map cl_req_count (sy_clients y)"] by (simp add: responses_def)
  with inv responses_full [OF inv] show ?thesis
    by (simp add: load_inv_def)
qed

lemma load_resume_nth:
  assumes "load_run evs y" "i < num_clients" "cl_pc (sy_clients y ! i) \<noteq> Cl_over"
  shows "load_run (evs @ [(i, ec)]) (load_resume i ec y)"
    and "(sy_clients (load_resume i ec y) ! i, sy_shared (load_resume i ec y)) =
      fst (client_resume (sy_clients y ! i, sy_shared y) ec)"
proof -
  have len: "length (sy_clients y) = num_clients"
    using load_inv_run [OF assms(1)] by (simp add: load_inv_def)
  with assms show "load_run (evs @ [(i, ec)]) (load_resume i ec y)"
    by (simp add: load_run.step)
  show "(sy_clients (load_resume i ec y) ! i, sy_shared (load_resume i ec y)) =
      fst (client_resume (sy_clients y ! i, sy_shared y) ec)"
    using len assms(2) by (simp add: load_resume_def split: prod.split)
qed

theorem load_shutdown_exact_witness:
  "\<exists>y. load_run [(5, no_error), (5, no_error), (5, no_error), (5, asio_eof)] y \<and> ls_req_count (sy_shared y) = 1 \<and>
     ls_shutdowns (sy_shared y) = 0"
proof -
  define y1 where "y1 = load_resume 5 no_error load_init"
  define y2 where "y2 = load_resume 5 no_error y1"
  define y3 where "y3 = load_resume 5 no_error y2"
  define y4 where "y4 = load_resume 5 asio_eof y3"
  have five: "5 < num_clients" and init: "sy_clients load_init ! 5 = load_client_new" "sy_shared load_init = \<lparr>ls_req_count = 0, ls_shutdowns = 0\<rparr>"
    by (simp_all add: num_clients_def load_init_def)
  note defs = client_resume_def client_next_def num_client_requests_def num_clients_def count_response_def
  have r1: "load_run [(5, no_error)] y1" "sy_clients y1 ! 5 = \<lparr>cl_pc = Cl_connecting, cl_req_count = 0\<rparr>"
      "sy_shared y1 = \<lparr>ls_req_count = 0, ls_shutdowns = 0\<rparr>"
    using load_resume_nth [OF load_run.init five, of no_error] init by (simp_all add: y1_def load_client_new_def defs)
  have r2: "load_run [(5, no_error), (5, no_error)] y2" "sy_clients y2 ! 5 = \<lparr>cl_pc = Cl_requesting, cl_req_count = 0\<rparr>"
      "sy_shared y2 = \<lparr>ls_req_count = 0, ls_shutdowns = 0\<rparr>"
    using load_resume_nth [OF r1(1) five, of no_error] r1(2,3) by (simp_all add: y2_def defs)
  have r3: "load_run [(5, no_error), (5, no_error), (5, no_error)] y3"
      "sy_clients y3 ! 5 = \<lparr>cl_pc = Cl_requesting, cl_req_count = 1\<rparr>"
      "sy_shared y3 = \<lparr>ls_req_count = 1, ls_shutdowns = 0\<rparr>"
    using load_resume_nth [OF r2(1) five, of no_error] r2(2,3) by (simp_all add: y3_def defs)
  have r4: "load_run [(5, no_error), (5, no_error), (5, no_error), (5, asio_eof)] y4"
      "sy_clients y4 ! 5 = \<lparr>cl_pc = Cl_leaving, cl_req_count = 1\<rparr>" "ls_req_count (sy_shared y4) = 1"
    using load_resume_nth [OF r3(1) five, of asio_eof] r3(2,3) by (simp_all add: y4_def defs)
  have "length (sy_clients y4) = num_clients"
    using load_inv_run [OF r4(1)] by (simp add: load_inv_def)
  with r4(2) five have "\<not> list_all (\<lambda>c. cl_req_count c = num_client_requests) (sy_clients y4)"
    by (auto simp: list_all_length num_client_requests_def intro!: exI [of _ 5])
  with load_shutdown_exact [OF r4(1)] r4 show ?thesis
    by auto
qed

end
