(* ===== verification/Example_Google.thy ===== *)
theory Example_Google
  imports Pct_Properties Tunnel
begin

text \<open>
  \<^verbatim>\<open>examples/listener/main.cpp\<close>: a handler of a listener that turns the body of a \<open>POST\<close>
  into the query of a search: it decodes the body to code points, percent-encodes them, asks
  the search server over an encrypted client session and passes the answer on.
\<close>

subsection \<open>Code points of the body\<close>

text \<open>The range constructor of \<open>std::vector\<close> on the iterators of a view; a range whose end is not reached is \<open>None\<close>.\<close>

partial_function (option) vector_of_range ::
  "('it \<Rightarrow> u32 \<times> 'it) \<Rightarrow> ('it \<Rightarrow> 'it) \<Rightarrow> ('it \<Rightarrow> 'it \<Rightarrow> bool) \<Rightarrow> 'it \<Rightarrow> 'it \<Rightarrow> u32 list \<Rightarrow> u32 list option" where
  [code]: "vector_of_range deref incr differ pos e v =
     (if differ pos e then (case deref pos of (c, pos) \<Rightarrow> vector_of_range deref incr differ (incr pos) e (v @ [c]))
      else Some v)"

definition body_code_points :: "(string \<Rightarrow> u32 \<times> string) \<Rightarrow> string \<Rightarrow> u32 list option" where
  "body_code_points dc view = vector_of_range (cpi_deref dc view) cpi_incr cpi_differ (cpv_begin view) (cpv_end view) []"

definition google_target :: "(u32 \<Rightarrow> string) \<Rightarrow> (char \<Rightarrow> string) \<Rightarrow> u32 list \<Rightarrow> string" where
  "google_target enc hex code_points = encode_query enc hex code_points ''/webhp?''"

subsection \<open>The handler\<close>

datatype google_pc = Gp_start | Gp_read | Gp_refused | Gp_connect | Gp_request | Gp_failed | Gp_failed_down
  | Gp_written | Gp_down

record google_frame =
  gf_pc :: google_pc
  gf_timeout :: nat             \<comment> \<open>of the server's session, in seconds\<close>
  gf_request :: message
  gf_body :: string
  gf_response :: response
  gf_target :: string           \<comment> \<open>of the client's request\<close>
  gf_status :: nat              \<comment> \<open>of the response to the client\<close>
  gf_answer :: string

datatype google_op =
    Gop_read | Gop_write response | Gop_connect string string
  | Gop_request string string             \<comment> \<open>a \<open>GET\<close> with this host field and target\<close>
  | Gop_client_shutdown

datatype google_ev = Gev_begin | Gev_read error_code nat message string | Gev_done error_code nat
  | Gev_response error_code nat string

definition google_new :: google_frame where
  "google_new = \<lparr>gf_pc = Gp_start, gf_timeout = 1, gf_request = empty_message, gf_body = [],
     gf_response = new_response, gf_target = [], gf_status = 200, gf_answer = []\<rparr>"

text \<open>Setting a status and a body and preparing the payload.\<close>

definition google_reply :: "nat \<Rightarrow> string \<Rightarrow> google_frame \<Rightarrow> google_frame" where
  "google_reply status body f =
     f\<lparr>gf_response := (gf_response f)\<lparr>rs_status := status, rs_body := body, rs_payload := True\<rparr>\<rparr>"

definition google_write :: "google_pc \<Rightarrow> google_frame \<Rightarrow> google_frame \<times> (google_op, error_code \<times> nat) out" where
  "google_write pc f = (f\<lparr>gf_pc := pc\<rparr>, Yield (Gop_write (gf_response f)))"

text \<open>After the request has been read. A body whose decoding does not end keeps the handler in its loop.\<close>

definition google_dispatch ::
  "(u32 \<Rightarrow> string) \<Rightarrow> (string \<Rightarrow> u32 \<times> string) \<Rightarrow> (char \<Rightarrow> string) \<Rightarrow> google_frame \<Rightarrow>
   google_frame \<times> (google_op, error_code \<times> nat) out" where
  "google_dispatch enc dc hex f =
     (if msg_method (gf_request f) \<noteq> ''POST''
      then google_write Gp_refused (google_reply 405 (''The server only supports POST requests!'' @ [CHR 0x0A]) f)
      else if length (gf_body f) = 0
      then google_write Gp_refused (google_reply 400 (''The client body must not be empty!'' @ [CHR 0x0A]) f)
      else
        (case body_code_points dc (gf_body f) of
           None \<Rightarrow> (f, Mismatch)
         | Some code_points \<Rightarrow>
             (f\<lparr>gf_target := google_target enc hex code_points, gf_pc := Gp_connect\<rparr>,
              Yield (Gop_connect ''www.google.com'' ''https''))))"

definition google_resume ::
  "(u32 \<Rightarrow> string) \<Rightarrow> (string \<Rightarrow> u32 \<times> string) \<Rightarrow> (char \<Rightarrow> string) \<Rightarrow> google_frame \<Rightarrow> google_ev \<Rightarrow>
   google_frame \<times> (google_op, error_code \<times> nat) out" where
  "google_resume enc dc hex f ev =
     (case (gf_pc f, ev) of
        (Gp_start, Gev_begin) \<Rightarrow> (f\<lparr>gf_timeout := 30, gf_pc := Gp_read\<rparr>, Yield Gop_read)
      | (Gp_read, Gev_read ec n request body) \<Rightarrow>
          let f = f\<lparr>gf_request := request, gf_body := body\<rparr>
          in if ec_failed ec then (f, Return (ec, n)) else google_dispatch enc dc hex f
      | (Gp_refused, Gev_done ec n) \<Rightarrow> (f, Return (ec, n))
      | (Gp_connect, Gev_done ec n) \<Rightarrow>
          (f\<lparr>gf_pc := Gp_request\<rparr>, Yield (Gop_request ''www.google.com'' (gf_target f)))
      | (Gp_request, Gev_response ec status body) \<Rightarrow>
          let f = f\<lparr>gf_status := status, gf_answer := body\<rparr>
          in if ec_failed ec
             then google_write Gp_failed (google_reply 400 (''Error communicating with google!'' @ [CHR 0x0A]) f)
             else if gf_status f \<noteq> 200
             then google_write Gp_written (google_reply 400 (''Error is: '' @ gf_answer f @ [CHR 0x0A]) f)
             else google_write Gp_written (google_reply 200 (gf_answer f) f)
      | (Gp_failed, Gev_done ec n) \<Rightarrow> (f\<lparr>gf_pc := Gp_failed_down\<rparr>, Yield Gop_client_shutdown)
      | (Gp_failed_down, Gev_done ec n) \<Rightarrow> (f, Return (ec, n))
      | (Gp_written, Gev_done ec n) \<Rightarrow> (f\<lparr>gf_pc := Gp_down\<rparr>, Yield Gop_client_shutdown)
      | (Gp_down, Gev_done ec n) \<Rightarrow> (f, Return (no_error, 0))
      | _ \<Rightarrow> (f, Mismatch))"

lemmas google_defs = google_write_def google_reply_def google_dispatch_def google_resume_def google_new_def Let_def

subsection \<open>Decoding\<close>

context utf_codec
begin

lemma vector_loop:
  assumes "list_all valid_cp cs" and "buf = x @ concat (map enc cs)"
  shows "vector_of_range (cpi_deref dec buf) cpi_incr cpi_differ
      \<lparr>cpi_iterator = Some (length x), cpi_end = Some (length buf)\<rparr> (cpv_end buf) v = Some (v @ cs)"
  using assms(1) unfolding assms(2)
proof (induction cs arbitrary: x v)
  case Nil
  then show ?case
    by (simp add: vector_of_range.simps cpi_differ_def cpi_eq_def cpv_end_def make_code_point_iterator_def)
next
  case (Cons c cs)
  let ?y = "concat (map enc cs)" and ?e = "Some (length (x @ enc c @ concat (map enc cs)))"
  have "cpi_differ \<lparr>cpi_iterator = Some (length x), cpi_end = ?e\<rparr> (cpv_end (x @ enc c @ ?y))"
    using Cons.prems enc_nonempty [of c]
    by (simp add: cpi_differ_def cpi_eq_def cpv_end_def make_code_point_iterator_def)
  then show ?case
    using Cons.IH [of "x @ enc c" "v @ [c]"] Cons.prems deref_encoded [of c x ?y]
    by (subst vector_of_range.simps) (simp add: cpi_incr_fields)
qed

lemma body_code_points_encoded: "list_all valid_cp cs \<Longrightarrow> body_code_points dec (concat (map enc cs)) = Some cs"
  using vector_loop [of cs "concat (map enc cs)" "[]" "[]"]
  by (simp add: body_code_points_def cpv_begin_def make_code_point_iterator_def)

end

subsection \<open>Properties\<close>

text \<open>What the client of the handler is answered.\<close>

definition google_answer :: "error_code \<Rightarrow> nat \<Rightarrow> string \<Rightarrow> response" where
  "google_answer ec status body =
     (if ec_failed ec then \<lparr>rs_status = 400, rs_body = ''Error communicating with google!'' @ [CHR 0x0A], rs_payload = True\<rparr>
      else if status \<noteq> 200 then \<lparr>rs_status = 400, rs_body = ''Error is: '' @ body @ [CHR 0x0A], rs_payload = True\<rparr>
      else \<lparr>rs_status = 200, rs_body = body, rs_payload = True\<rparr>)"

lemma google_tail:
  assumes "gf_pc f = Gp_connect" "gf_response f = new_response"
  shows "snd (coro_run (google_resume enc dc hex) f
      [Gev_done cec 0, Gev_response ec status body, Gev_done wec i, Gev_done sec j]) =
    [Yield (Gop_request ''www.google.com'' (gf_target f)), Yield (Gop_write (google_answer ec status body)),
     Yield Gop_client_shutdown, Return (if ec_failed ec then (sec, j) else (no_error, 0))]"
proof -
  let ?f = "f\<lparr>gf_pc := Gp_request\<rparr>"
  have 1: "google_resume enc dc hex f (Gev_done cec 0) = (?f, Yield (Gop_request ''www.google.com'' (gf_target f)))"
    using assms(1) by (simp add: google_resume_def)
  have "snd (google_resume enc dc hex ?f (Gev_response ec status body)) = Yield (Gop_write (google_answer ec status body))"
    "gf_pc (fst (google_resume enc dc hex ?f (Gev_response ec status body))) = (if ec_failed ec then Gp_failed else Gp_written)"
    using assms(2) by (simp_all add: google_resume_def google_write_def google_reply_def google_answer_def new_response_def Let_def)
  then obtain f2 where 2: "google_resume enc dc hex ?f (Gev_response ec status body) = (f2, Yield (Gop_write (google_answer ec status body)))"
    "gf_pc f2 = (if ec_failed ec then Gp_failed else Gp_written)"
    by (cases "google_resume enc dc hex ?f (Gev_response ec status body)") simp
  have 3: "google_resume enc dc hex f2 (Gev_done wec i) =
      (f2\<lparr>gf_pc := (if ec_failed ec then Gp_failed_down else Gp_down)\<rparr>, Yield Gop_client_shutdown)"
    using 2(2) by (simp add: google_resume_def)
  have 4: "google_resume enc dc hex (f2\<lparr>gf_pc := (if ec_failed ec then Gp_failed_down else Gp_down)\<rparr>) (Gev_done sec j) =
      (f2\<lparr>gf_pc := (if ec_failed ec then Gp_failed_down else Gp_down)\<rparr>, Return (if ec_failed ec then (sec, j) else (no_error, 0)))"
    by (simp add: google_resume_def)
  show ?thesis
    using 1 2(1) 3 4 by simp
qed

lemma encode_query_decodes:
  assumes "hex_gen hex" "utf_codec enc dc" "x3_lib ascii run" "no_pct cs"
  shows "pct_decode run (encode_query enc hex cs []) [] = (Inr (), concat (map enc cs))"
proof -
  have "pct_ref (concat (map (piece enc (cps ex)) cs)) = (concat (map enc cs), [])" for ex
    using assms(4) pct_ref_piece [OF assms(2)] by (intro pct_ref_concat) (auto simp: no_pct_def list_all_iff)
  then show ?thesis
    by (simp add: pct_decode_def pct_decode_impl_eq [OF assms(3)] encoders_eq [OF assms(1)] query_excluded_def)
qed

text \<open>
  C36: the search handler on a \<open>POST\<close> whose body is the UTF-8 encoding of some code points without
  a percent sign, at least one: it asks for the percent-encoded body as a query. The grammar matches
  this query completely, so that the text cannot leave the query of the target, and decoding it
  gives the body back. The handler answers its client once, and shuts the
  client session down before it completes. The outcome of the connection plays no part: the
  request is sent all the same.
\<close>

theorem google_query:
  assumes "hex_gen hex" "utf_codec enc dc" "x3_lib ascii run" "no_pct cs" "cs \<noteq> []" "\<not> ec_failed rec" "msg_method m = ''POST''"
  shows "match ascii uri_query (encode_query enc hex cs []) = Some [] \<and>
    pct_decode run (encode_query enc hex cs []) [] = (Inr (), concat (map enc cs)) \<and>
    snd (coro_run (google_resume enc dc hex) google_new
      [Gev_begin, Gev_read rec k m (concat (map enc cs)), Gev_done cec 0, Gev_response ec status body,
       Gev_done wec i, Gev_done sec j]) =
    [Yield Gop_read, Yield (Gop_connect ''www.google.com'' ''https''),
     Yield (Gop_request ''www.google.com'' (''/webhp?'' @ encode_query enc hex cs [])),
     Yield (Gop_write (google_answer ec status body)),
     Yield Gop_client_shutdown, Return (if ec_failed ec then (sec, j) else (no_error, 0))]"
proof -
  let ?r = "google_new\<lparr>gf_timeout := 30, gf_pc := Gp_read\<rparr>"
  define q where "q = encode_query enc hex cs []"
  have "toks is_query_char q"
    using pieces_toks [where P = is_query_char, OF assms(2,4) _ plain_query]
    by (simp add: q_def encoders_eq [OF assms(1)] query_excluded_def)
  then have "match ascii uri_query q = Some []"
    using loop_tok_append [of is_query_char q "[]"] by simp
  have "list_all valid_cp cs"
    using assms(4) by (auto simp: no_pct_def list_all_iff)
  then have cs: "body_code_points dc (concat (map enc cs)) = Some cs"
    by (rule utf_codec.body_code_points_encoded [OF assms(2)])
  have "concat (map enc cs) \<noteq> []"
    using utf_codec.enc_nonempty [OF assms(2)] \<open>list_all valid_cp cs\<close> assms(5) by (cases cs) auto
  then have read: "google_resume enc dc hex ?r (Gev_read rec k m (concat (map enc cs))) =
      (?r\<lparr>gf_request := m, gf_body := concat (map enc cs), gf_target := google_target enc hex cs, gf_pc := Gp_connect\<rparr>,
       Yield (Gop_connect ''www.google.com'' ''https''))"
    using assms(6,7) cs by (simp add: google_resume_def google_dispatch_def google_new_def del: concat_eq_Nil_conv)
  have target: "google_target enc hex cs = ''/webhp?'' @ q"
    by (simp add: google_target_def q_def encoders_eq [OF assms(1)])
  have start: "google_resume enc dc hex google_new Gev_begin = (?r, Yield Gop_read)"
    by (simp add: google_resume_def google_new_def)
  have "snd (coro_run (google_resume enc dc hex) google_new
      [Gev_begin, Gev_read rec k m (concat (map enc cs)), Gev_done cec 0, Gev_response ec status body,
       Gev_done wec i, Gev_done sec j]) =
    [Yield Gop_read, Yield (Gop_connect ''www.google.com'' ''https''),
     Yield (Gop_request ''www.google.com'' (''/webhp?'' @ q)), Yield (Gop_write (google_answer ec status body)),
     Yield Gop_client_shutdown, Return (if ec_failed ec then (sec, j) else (no_error, 0))]"
    by (simp only: coro_run_from start read coro_from_simps)
      (simp add: google_tail google_new_def target coro_run_from [symmetric] del: coro_run.simps)
  then show ?thesis
    using \<open>match ascii uri_query q = Some []\<close> encode_query_decodes [OF assms(1-4)] unfolding q_def by blast
qed

theorem google_query_witness:
  "snd (coro_run (google_resume utf8_template utf8_ref pct_hex) google_new
      [Gev_begin, Gev_read no_error 0 (empty_message\<lparr>msg_method := ''POST''\<rparr>) (concat (map utf8_template (cps ''a b''))),
       Gev_done asio_eof 0, Gev_response no_error 200 ''ok'', Gev_done no_error 0, Gev_done no_error 0]) =
    [Yield Gop_read, Yield (Gop_connect ''www.google.com'' ''https''),
     Yield (Gop_request ''www.google.com'' ''/webhp?a%20b''), Yield (Gop_write (google_answer no_error 200 ''ok'')),
     Yield Gop_client_shutdown, Return (no_error, 0)]"
proof -
  have n: "no_pct (cps ''a b'')" "cps ''a b'' \<noteq> []"
    by (simp_all add: no_pct_def valid_cp_def cps_def cp_def)
  have "encode_query utf8_template pct_hex (cps ''a b'') [] = ''a%20b''"
    by code_simp
  with google_query [OF pct.hex_gen_axioms utf8.utf_codec_axioms ref.x3_lib_axioms n, of no_error "empty_message\<lparr>msg_method := ''POST''\<rparr>"
      0 asio_eof no_error 200 "''ok''" no_error 0 no_error 0]
  show ?thesis
    by (simp del: coro_run.simps)
qed

text \<open>A request that is not a \<open>POST\<close> or has no body is answered without a search.\<close>

lemma google_refuses:
  assumes "\<not> ec_failed rec" "msg_method m \<noteq> ''POST'' \<or> body = []"
  shows "\<exists>r. rs_status r = (if msg_method m \<noteq> ''POST'' then 405 else 400) \<and>
    snd (coro_run (google_resume enc dc hex) google_new [Gev_begin, Gev_read rec k m body, Gev_done ec n]) =
      [Yield Gop_read, Yield (Gop_write r), Return (ec, n)]"
proof -
  let ?r = "google_new\<lparr>gf_timeout := 30, gf_pc := Gp_read\<rparr>"
  have start: "google_resume enc dc hex google_new Gev_begin = (?r, Yield Gop_read)"
    by (simp add: google_resume_def google_new_def)
  obtain f r where f: "google_resume enc dc hex ?r (Gev_read rec k m body) = (f, Yield (Gop_write r))"
    "gf_pc f = Gp_refused" "rs_status r = (if msg_method m \<noteq> ''POST'' then 405 else 400)"
    using assms by (cases "msg_method m = ''POST''")
      (simp_all add: google_resume_def google_dispatch_def google_write_def google_reply_def google_new_def)
  then have "google_resume enc dc hex f (Gev_done ec n) = (f, Return (ec, n))"
    by (simp add: google_resume_def)
  with f start show ?thesis
    by (intro exI [of _ r]) simp
qed

end
