(* ===== verification/Example_Clients.thy ===== *)
theory Example_Clients
  imports Session Http_Fields
begin

text \<open>
  \<^verbatim>\<open>examples/allocators/client.cpp\<close>, \<^verbatim>\<open>examples/user-install/main.cpp\<close> and
  \<^verbatim>\<open>examples/hello_world/main.cpp\<close>: three clients that fetch a page, and the clients inside
  \<^verbatim>\<open>examples/server/main.cpp\<close> and \<^verbatim>\<open>examples/listener/main.cpp\<close>. The first two are
  stackless coroutines; the others are stackful ones, which an error resumes with an exception.
  The operations of the client session are the events; the closing of the socket is done on the
  session itself.
\<close>

record page =
  pg_status :: nat
  pg_body :: string

datatype fetch_op = Fe_connect string string | Fe_request | Fe_shutdown

datatype fetch_ev = Fe_begin | Fe_connected error_code | Fe_response error_code page | Fe_down error_code

datatype fetch_pc = Fe_start | Fe_connecting | Fe_requesting | Fe_closing

subsection \<open>The client with an allocator\<close>

text \<open>It only reports whether the page was valid, in a variable of \<open>main\<close>.\<close>

record alloc_client =
  ac_pc :: fetch_pc
  ac_was_valid :: bool

definition alloc_client_new :: alloc_client where
  "alloc_client_new = \<lparr>ac_pc = Fe_start, ac_was_valid = False\<rparr>"

definition ends_with :: "string \<Rightarrow> string \<Rightarrow> bool" where
  "ends_with s t = (length t \<le> length s \<and> drop (length s - length t) s = t)"

definition page_valid :: "page \<Rightarrow> bool" where
  "page_valid p = (pg_status p = 200 \<and> length (pg_body p) > 0 \<and> ends_with (pg_body p) ''</html>'')"

definition alloc_client_op :: "alloc_client \<Rightarrow> fetch_ev \<Rightarrow> alloc_client \<times> (fetch_op, unit) out" where
  "alloc_client_op c ev =
     (case (ac_pc c, ev) of
        (Fe_start, Fe_begin) \<Rightarrow> (c\<lparr>ac_pc := Fe_connecting\<rparr>, Yield (Fe_connect ''www.google.com'' ''80''))
      | (Fe_connecting, Fe_connected ec) \<Rightarrow>
          if ec_failed ec then (c\<lparr>ac_was_valid := False\<rparr>, Return ())
          else (c\<lparr>ac_pc := Fe_requesting\<rparr>, Yield Fe_request)
      | (Fe_requesting, Fe_response ec response) \<Rightarrow>
          if ec_failed ec then (c\<lparr>ac_was_valid := False\<rparr>, Return ())
          else (c\<lparr>ac_was_valid := page_valid response\<rparr>, Return ())
      | _ \<Rightarrow> (c, Mismatch))"

text \<open>\<open>main\<close>: the exit status and the first line of the output, after \<open>io.run()\<close> has returned.\<close>

definition alloc_client_main :: "fetch_ev list \<Rightarrow> int \<times> string" where
  "alloc_client_main evs =
     (let c = fst (coro_run alloc_client_op alloc_client_new evs)
      in if \<not> ac_was_valid c then (1, ''error could not complete request successfully'')
         else (0, ''Completed request!''))"

subsection \<open>The client of an installation\<close>

text \<open>Closing throws when one of its steps fails.\<close>

definition close_socket :: "'k socket_api \<Rightarrow> 'k session \<Rightarrow> 'k session \<times> (error_code + unit)" where
  "close_socket api s =
     (case sk_shutdown api shutdown_both (ms_plain (se_stream s)) of
        (k, ec) \<Rightarrow>
          let s = s\<lparr>se_stream := ms_map_plain (\<lambda>_. k) (se_stream s)\<rparr>
          in if ec_failed ec then (s, Inl ec)
             else (case sk_close api k of
                     (k, ec) \<Rightarrow>
                       (s\<lparr>se_stream := ms_map_plain (\<lambda>_. k) (se_stream s)\<rparr>,
                        if ec_failed ec then Inl ec else Inr ())))"

record 'k fetcher =
  ft_pc :: fetch_pc
  ft_client :: "'k session"
  ft_fields :: "(string \<times> string) list"
  ft_cout :: string

definition request_op_new :: "'k session \<Rightarrow> 'k fetcher" where
  "request_op_new s = \<lparr>ft_pc = Fe_start, ft_client = s, ft_fields = [], ft_cout = []\<rparr>"

definition request_op ::
  "'k socket_api \<Rightarrow> (string \<Rightarrow> string \<Rightarrow> hfields \<Rightarrow> hfields) \<Rightarrow> (page \<Rightarrow> string) \<Rightarrow> (error_code \<Rightarrow> string) \<Rightarrow>
   'k fetcher \<Rightarrow> fetch_ev \<Rightarrow> 'k fetcher \<times> (fetch_op, unit) out" where
  "request_op api set_field show_page message f ev =
     (let upcall = (\<lambda>ec f.
            if ec_failed ec
            then (f\<lparr>ft_cout := ft_cout f @ ''Error: '' @ message ec @ [CHR 0x0A, CHR 0x0A]\<rparr>, Return ())
            else (f, Return ()))
      in case (ft_pc f, ev) of
           (Fe_start, Fe_begin) \<Rightarrow>
             (f\<lparr>ft_fields := set_field ''Host'' ''www.google.com'' (ft_fields f), ft_pc := Fe_connecting\<rparr>,
              Yield (Fe_connect ''google.com'' ''http''))
         | (Fe_connecting, Fe_connected ec) \<Rightarrow>
             if ec_failed ec then upcall ec f else (f\<lparr>ft_pc := Fe_requesting\<rparr>, Yield Fe_request)
         | (Fe_requesting, Fe_response ec response) \<Rightarrow>
             if ec_failed ec then upcall ec f
             else
               (case close_socket api (ft_client f) of
                  (s, Inl err) \<Rightarrow> (f\<lparr>ft_client := s\<rparr>, Throw err)
                | (s, Inr _) \<Rightarrow>
                    upcall ec (f\<lparr>ft_client := s,
                      ft_cout := ft_cout f @ ''Got a response back from Google!'' @ CHR 0x0A # show_page response @
                        [CHR 0x0A, CHR 0x0A]\<rparr>))
         | _ \<Rightarrow> (f, Mismatch))"

subsection \<open>The stackful client\<close>

text \<open>An operation that fails throws; nothing in the coroutine catches.\<close>

definition hello_world ::
  "'k socket_api \<Rightarrow> (page \<Rightarrow> string) \<Rightarrow> 'k fetcher \<Rightarrow> fetch_ev \<Rightarrow> 'k fetcher \<times> (fetch_op, unit) out" where
  "hello_world api show_page f ev =
     (case (ft_pc f, ev) of
        (Fe_start, Fe_begin) \<Rightarrow> (f\<lparr>ft_pc := Fe_connecting\<rparr>, Yield (Fe_connect ''www.google.com'' ''http''))
      | (Fe_connecting, Fe_connected ec) \<Rightarrow>
          if ec_failed ec then (f, Throw ec) else (f\<lparr>ft_pc := Fe_requesting\<rparr>, Yield Fe_request)
      | (Fe_requesting, Fe_response ec response) \<Rightarrow>
          if ec_failed ec then (f, Throw ec)
          else
            (case close_socket api (ft_client f) of
               (s, Inl err) \<Rightarrow> (f\<lparr>ft_client := s\<rparr>, Throw err)
             | (s, Inr _) \<Rightarrow>
                 (f\<lparr>ft_client := s,
                    ft_cout := ft_cout f @ ''Got a response back from Google!'' @ CHR 0x0A # show_page response @
                      [CHR 0x0A, CHR 0x0A]\<rparr>,
                  Return ()))
      | _ \<Rightarrow> (f, Mismatch))"

text \<open>
  The clients of the two example servers are stackful too. When they complete they have called
  \<open>shutdown\<close> of the listener; the second one uses \<open>async_shutdown\<close> and drops its error.
\<close>

definition server_example_client ::
  "'k socket_api \<Rightarrow> (page \<Rightarrow> string) \<Rightarrow> 'k fetcher \<Rightarrow> fetch_ev \<Rightarrow> 'k fetcher \<times> (fetch_op, unit) out" where
  "server_example_client api show_page f ev =
     (case (ft_pc f, ev) of
        (Fe_start, Fe_begin) \<Rightarrow> (f\<lparr>ft_pc := Fe_connecting\<rparr>, Yield (Fe_connect ''127.0.0.1'' ''1337''))
      | (Fe_connecting, Fe_connected ec) \<Rightarrow>
          if ec_failed ec then (f, Throw ec) else (f\<lparr>ft_pc := Fe_requesting\<rparr>, Yield Fe_request)
      | (Fe_requesting, Fe_response ec response) \<Rightarrow>
          if ec_failed ec then (f, Throw ec)
          else
            (let f = f\<lparr>ft_cout := ft_cout f @ ''Got response back from server!'' @ CHR 0x0A # show_page response @ [CHR 0x0A]\<rparr>
             in case close_socket api (ft_client f) of
                  (s, Inl err) \<Rightarrow> (f\<lparr>ft_client := s\<rparr>, Throw err)
                | (s, Inr _) \<Rightarrow> (f\<lparr>ft_client := s\<rparr>, Return ()))
      | _ \<Rightarrow> (f, Mismatch))"

definition listener_example_client ::
  "(page \<Rightarrow> string) \<Rightarrow> 'k fetcher \<Rightarrow> fetch_ev \<Rightarrow> 'k fetcher \<times> (fetch_op, unit) out" where
  "listener_example_client show_page f ev =
     (case (ft_pc f, ev) of
        (Fe_start, Fe_begin) \<Rightarrow> (f\<lparr>ft_pc := Fe_connecting\<rparr>, Yield (Fe_connect ''127.0.0.1'' ''1337''))
      | (Fe_connecting, Fe_connected ec) \<Rightarrow>
          if ec_failed ec then (f, Throw ec) else (f\<lparr>ft_pc := Fe_requesting\<rparr>, Yield Fe_request)
      | (Fe_requesting, Fe_response ec response) \<Rightarrow>
          if ec_failed ec then (f, Throw ec)
          else (f\<lparr>ft_cout := ft_cout f @ ''Got the response:'' @ CHR 0x0A # show_page response @ [CHR 0x0A], ft_pc := Fe_closing\<rparr>,
                Yield Fe_shutdown)
      | (Fe_closing, Fe_down ec) \<Rightarrow> (f, Return ())
      | _ \<Rightarrow> (f, Mismatch))"

subsection \<open>What the clients do\<close>

text \<open>The exit status tells whether both operations succeeded and the page is a complete one.\<close>

lemma alloc_client_exit:
  "fst (alloc_client_main [Fe_begin, Fe_connected ec, Fe_response ec' p]) =
    (if ec_failed ec \<or> ec_failed ec' \<or> \<not> page_valid p then 1 else 0)"
  by (simp add: alloc_client_main_def alloc_client_op_def alloc_client_new_def Let_def)

lemma ends_with_append: "ends_with s t \<longleftrightarrow> (\<exists>r. s = r @ t)"
  by (auto simp: ends_with_def intro: exI [of _ "take (length s - length t) s"]) (metis append_take_drop_id)

context socket_lib
begin

lemma close_socket_closes: "close_socket api s = (s', Inr u) \<Longrightarrow> \<not> sk_is_open api (ms_plain (se_stream s'))"
  using close_closes by (auto simp: close_socket_def Let_def split: prod.splits if_splits; cases "se_stream s"; simp; metis fst_conv)

end

text \<open>Whenever the stackful client completes, and does not throw, it has closed its socket.\<close>

sublocale socket_lib < hello_end: coro_final "hello_world api show_page" "\<lambda>f. True"
  "\<lambda>f u. \<not> sk_is_open api (ms_plain (se_stream (ft_client f)))" for show_page
proof
  fix f ev f' r
  assume "hello_world api show_page f ev = (f', Return r)"
  then obtain s u where "close_socket api (ft_client f) = (s, Inr u)" "ft_client f' = s"
    by (auto simp: hello_world_def split: prod.splits fetch_pc.splits fetch_ev.splits if_splits sum.splits)
  then show "\<not> sk_is_open api (ms_plain (se_stream (ft_client f')))"
    using close_socket_closes by blast
qed simp

end
