(* ===== verification/Example_Ip_Parser.thy ===== *)
theory Example_Ip_Parser
  imports Uri_Spec
begin

text \<open>
  \<^verbatim>\<open>examples/uri_combinators/ip_parser.cpp\<close>: a command line parser for a list of IP addresses,
  built from the rules of the URI grammar. The list operator \<open>a % ","\<close> of X3 is
  \<open>a >> *("," >> a)\<close>; the vector of views that it fills is kept as the text its elements are
  printed as, one line each.
\<close>

definition push_view :: "char action" where
  "push_view matched ip_addrs = ip_addrs @ matched @ [CHR 0x0A]"

definition ip_address :: "char parser" where
  "ip_address = Alt uri_ip_v4_address uri_ip_v6_address"

definition ip_grammar :: "char parser" where
  "ip_grammar = Seq (Lit ''--addresses='')
     (Seq (Act ip_address push_view) (Kleene (Seq (Lit '','') (Act ip_address push_view))))"

text \<open>
  \<open>main\<close>: the exit status and the output. Too few arguments are reported, but the first
  one is read all the same: \<open>None\<close> is the dereference of a null pointer.
\<close>

definition ip_parser_main :: "char x3_run \<Rightarrow> string list \<Rightarrow> (int \<times> string) option" where
  "ip_parser_main run args =
     (let cout = (if length args \<noteq> 1 then ''Incorrect number of command-line arguments!'' @ [CHR 0x0A] else [])
      in case args of
           [] \<Rightarrow> None
         | cli_arg # _ \<Rightarrow>
             (case x3_parse run cli_arg ip_grammar [] of
                (is_match, begin, ip_addrs) \<Rightarrow>
                  if \<not> is_match
                  then Some (- 1, cout @ ''An invalid IP address was detected!'' @ CHR 0x0A # ''Stopped traversal at:'' @
                         CHR 0x0A # begin @ [CHR 0x0A])
                  else Some (0, cout @ ''These are all the IP addresses you entered:'' @ CHR 0x0A # ip_addrs)))"

subsection \<open>Lists of addresses\<close>

type_synonym ip4 = "nat \<times> nat \<times> nat \<times> nat"

definition ip4_text :: "ip4 \<Rightarrow> string" where
  "ip4_text ip = (case ip of (a, b, c, d) \<Rightarrow> dotted a b c d)"

definition ip4_ok :: "ip4 \<Rightarrow> bool" where
  "ip4_ok ip = (case ip of (a, b, c, d) \<Rightarrow> a < 256 \<and> b < 256 \<and> c < 256 \<and> d < 256)"

lemma ip_address_ok: "x3_ok ascii ip_address" "attr_free ip_address"
  by (simp_all add: ip_address_def uri_defs)

lemma ip_address_ip4: "ip4_ok ip \<Longrightarrow> no_digit r \<Longrightarrow> match ascii ip_address (ip4_text ip @ r) = Some r"
  by (cases ip) (simp add: ip_address_def ip4_text_def ip4_ok_def ip_v4_complete)

lemma no_digit_comma [simp]: "no_digit (CHR '','' # s)"
  by (simp add: no_digit_def std_isdigit_def less_eq_char_def)


lemma run_address:
  assumes "x3_lib ascii run" "ip4_ok ip" "no_digit r"
  shows "run (Act ip_address push_view) (ip4_text ip @ r) a = (Some r, a @ ip4_text ip @ [CHR 0x0A])"
  using x3_lib.run_match [OF assms(1) ip_address_ok, of "ip4_text ip @ r" a] ip_address_ip4 [OF assms(2,3)]
  by (simp add: x3_lib.run_act [OF assms(1)] push_view_def)

text \<open>The rest of the list, up to where no further address follows.\<close>

lemma run_addresses:
  assumes "x3_lib ascii run" "list_all ip4_ok ips" "no_digit g" "match ascii (Seq (Lit '','') ip_address) g = None"
  shows "run (Kleene (Seq (Lit '','') (Act ip_address push_view))) (concat (map (\<lambda>ip. CHR '','' # ip4_text ip) ips) @ g) a =
    (Some g, a @ concat (map (\<lambda>ip. ip4_text ip @ [CHR 0x0A]) ips))"
  using assms(2)
proof (induction ips arbitrary: a)
  case Nil
  have "run (Seq (Lit '','') (Act ip_address push_view)) g a = (None, a)"
    using assms(4) x3_lib.run_match [OF assms(1) ip_address_ok, of "tl g" a]
    by (cases g) (auto simp: x3_lib.run_seq [OF assms(1)] x3_lib.run_lit [OF assms(1)] x3_lib.run_act [OF assms(1)] split: option.splits if_splits)
  then show ?case
    by (simp add: x3_lib.run_kleene_stop [OF assms(1)])
next
  case (Cons ip ips)
  let ?r = "concat (map (\<lambda>ip. CHR '','' # ip4_text ip) ips) @ g"
  have "no_digit ?r"
    using assms(3) by (cases ips) simp_all
  then have "run (Seq (Lit '','') (Act ip_address push_view)) (CHR '','' # ip4_text ip @ ?r) a = (Some ?r, a @ ip4_text ip @ [CHR 0x0A])"
    using run_address [OF assms(1)] Cons.prems
    by (simp add: x3_lib.run_seq [OF assms(1)] x3_lib.run_lit [OF assms(1)])
  from x3_lib.run_kleene_step [OF assms(1) this] Cons show ?case
    by simp
qed

text \<open>
  A list of addresses is printed line by line, and whatever follows the last address that can be
  read is ignored, an invalid address included.
\<close>

lemma ip_parser_prefix:
  assumes "x3_lib ascii run" "ip4_ok ip" "list_all ip4_ok ips" "no_digit g"
    and "match ascii (Seq (Lit '','') ip_address) g = None"
  shows "ip_parser_main run [''--addresses='' @ ip4_text ip @ concat (map (\<lambda>ip. CHR '','' # ip4_text ip) ips) @ g] =
    Some (0, ''These are all the IP addresses you entered:'' @ CHR 0x0A #
      concat (map (\<lambda>ip. ip4_text ip @ [CHR 0x0A]) (ip # ips)))"
proof -
  let ?r = "concat (map (\<lambda>ip. CHR '','' # ip4_text ip) ips) @ g"
  have "no_digit ?r"
    using assms(4) by (cases ips) simp_all
  then have "run ip_grammar (''--addresses='' @ ip4_text ip @ ?r) [] =
      (Some g, ip4_text ip @ [CHR 0x0A] @ concat (map (\<lambda>ip. ip4_text ip @ [CHR 0x0A]) ips))"
    using run_address [OF assms(1,2)] run_addresses [OF assms(1,3-5)]
    by (simp add: ip_grammar_def x3_lib.run_seq [OF assms(1)] x3_lib.run_lit [OF assms(1)])
  then show ?thesis
    by (simp add: ip_parser_main_def x3_parse_def)
qed

text \<open>No argument at all leads to undefined behaviour.\<close>

lemma ip_parser_no_argument: "ip_parser_main run [] = None"
  by (simp add: ip_parser_main_def)

end
