(* ===== verification/Spawning.thy ===== *)
theory Spawning
  imports Acceptor Coro
begin

text \<open>
  An accept loop together with the coroutines it posts. Both accept loops of the program make
  an object for every connection (\<open>made\<close>) and post a coroutine for it (\<open>new\<close>); the loop and the
  coroutines then run interleaved, each on its own strand. The state has the loop and, for
  every coroutine posted so far, its state and what it has done.
\<close>

record ('a, 'c, 'op) spawned =
  sw_accept :: 'a
  sw_tasks :: "('c \<times> ('op, unit) out list) list"

datatype ('k, 'ev) spawn_ev = Sw_accept "'k accept_ev" | Sw_task nat 'ev

text \<open>The coroutines for what the loop has made since; they have not run yet.\<close>

definition spawn_tasks ::
  "('a \<Rightarrow> 'm list) \<Rightarrow> ('m \<Rightarrow> 'c) \<Rightarrow> 'a \<Rightarrow> ('c \<times> ('op, unit) out list) list \<Rightarrow> ('c \<times> ('op, unit) out list) list" where
  "spawn_tasks made new a xs = xs @ map (\<lambda>m. (new m, [])) (drop (length xs) (made a))"

definition task_step ::
  "('c \<Rightarrow> 'ev \<Rightarrow> 'c \<times> ('op, unit) out) \<Rightarrow> 'ev \<Rightarrow> 'c \<times> ('op, unit) out list \<Rightarrow> 'c \<times> ('op, unit) out list" where
  "task_step resume ev x = (case resume (fst x) ev of (c, out) \<Rightarrow> (c, snd x @ [out]))"

inductive spawn_step ::
  "('a \<Rightarrow> 'k accept_ev \<Rightarrow> 'a \<Rightarrow> bool) \<Rightarrow> ('a \<Rightarrow> 'm list) \<Rightarrow> ('m \<Rightarrow> 'c) \<Rightarrow> ('c \<Rightarrow> 'ev \<Rightarrow> 'c \<times> ('op, unit) out) \<Rightarrow>
   ('a, 'c, 'op) spawned \<Rightarrow> ('k, 'ev) spawn_ev \<Rightarrow> ('a, 'c, 'op) spawned \<Rightarrow> bool"
  for step made new resume where
  accepts: "step (sw_accept y) e a \<Longrightarrow>
    spawn_step step made new resume y (Sw_accept e)
      \<lparr>sw_accept = a, sw_tasks = spawn_tasks made new a (sw_tasks y)\<rparr>"
| resumes: "i < length (sw_tasks y) \<Longrightarrow> list_all yields (snd (sw_tasks y ! i)) \<Longrightarrow>
    spawn_step step made new resume y (Sw_task i ev)
      (y\<lparr>sw_tasks := (sw_tasks y)[i := task_step resume ev (sw_tasks y ! i)]\<rparr>)"

inductive spawn_run ::
  "('a \<Rightarrow> 'k accept_ev \<Rightarrow> 'a \<Rightarrow> bool) \<Rightarrow> ('a \<Rightarrow> 'm list) \<Rightarrow> ('m \<Rightarrow> 'c) \<Rightarrow> ('c \<Rightarrow> 'ev \<Rightarrow> 'c \<times> ('op, unit) out) \<Rightarrow> 'a \<Rightarrow>
   ('k, 'ev) spawn_ev list \<Rightarrow> ('a, 'c, 'op) spawned \<Rightarrow> bool"
  for step made new resume first where
  init: "spawn_run step made new resume first [] \<lparr>sw_accept = first, sw_tasks = []\<rparr>"
| more: "spawn_run step made new resume first evs y \<Longrightarrow> spawn_step step made new resume y e y' \<Longrightarrow>
    spawn_run step made new resume first (evs @ [e]) y'"

subsection \<open>Projections\<close>

definition accept_part :: "('k, 'ev) spawn_ev list \<Rightarrow> 'k accept_ev list" where
  "accept_part evs = concat (map (\<lambda>e. case e of Sw_accept a \<Rightarrow> [a] | _ \<Rightarrow> []) evs)"

definition task_part :: "nat \<Rightarrow> ('k, 'ev) spawn_ev list \<Rightarrow> 'ev list" where
  "task_part i evs = concat (map (\<lambda>e. case e of Sw_task j ev \<Rightarrow> if j = i then [ev] else [] | _ \<Rightarrow> []) evs)"

lemma parts_snoc [simp]:
  "accept_part [] = []" "accept_part (evs @ [Sw_accept a]) = accept_part evs @ [a]"
  "accept_part (evs @ [Sw_task j ev]) = accept_part evs"
  "task_part i [] = []" "task_part i (evs @ [Sw_accept a]) = task_part i evs"
  "task_part i (evs @ [Sw_task j ev]) = task_part i evs @ (if j = i then [ev] else [])"
  by (simp_all add: accept_part_def task_part_def)

text \<open>Every coroutine by itself, on the events it was resumed with.\<close>

definition tasks_inv ::
  "('m \<Rightarrow> 'c) \<Rightarrow> ('c \<Rightarrow> 'ev \<Rightarrow> 'c \<times> ('op, unit) out) \<Rightarrow> 'm list \<Rightarrow> ('k, 'ev) spawn_ev list \<Rightarrow>
   ('c \<times> ('op, unit) out list) list \<Rightarrow> bool" where
  "tasks_inv new resume ms evs xs \<longleftrightarrow> length xs = length ms \<and>
     (\<forall>i<length xs. coro_run resume (new (ms ! i)) (task_part i evs) = xs ! i \<and> length (snd (xs ! i)) = length (task_part i evs)) \<and>
     (\<forall>i\<ge>length xs. task_part i evs = [])"

lemma tasks_inv_accept:
  assumes "tasks_inv new resume ms evs xs"
  shows "tasks_inv new resume (ms @ ns) (evs @ [Sw_accept e]) (xs @ map (\<lambda>m. (new m, [])) ns)"
proof -
  have "coro_run resume (new ((ms @ ns) ! i)) (task_part i (evs @ [Sw_accept e])) = (xs @ map (\<lambda>m. (new m, [])) ns) ! i \<and>
      length (snd ((xs @ map (\<lambda>m. (new m, [])) ns) ! i)) = length (task_part i (evs @ [Sw_accept e]))"
    if "i < length (xs @ map (\<lambda>m. (new m, [])) ns)" for i
    using assms that by (cases "i < length xs") (auto simp: tasks_inv_def nth_append)
  with assms show ?thesis
    unfolding tasks_inv_def by simp
qed

lemma tasks_inv_resume:
  assumes inv: "tasks_inv new resume ms evs xs" and i: "i < length xs" and ok: "list_all yields (snd (xs ! i))"
  shows "tasks_inv new resume ms (evs @ [Sw_task i ev]) (xs[i := task_step resume ev (xs ! i)])"
proof -
  obtain c outs where x: "xs ! i = (c, outs)"
    by (cases "xs ! i")
  have "coro_run resume (new (ms ! i)) (task_part i evs) = (c, outs)" "length outs = length (task_part i evs)"
    using inv i x by (auto simp: tasks_inv_def)
  then have "coro_run resume (new (ms ! i)) (task_part i evs @ [ev]) = task_step resume ev (c, outs)"
    using coro_run_snoc [of resume "new (ms ! i)" "task_part i evs" c outs ev] ok x
    by (cases "resume c ev") (simp add: task_step_def)
  moreover have "length (snd (task_step resume ev (c, outs))) = Suc (length outs)"
    by (simp add: task_step_def split: prod.split)
  ultimately show ?thesis
    using inv i x by (auto simp: tasks_inv_def nth_list_update)
qed

text \<open>What a loop has made stays made.\<close>

locale spawning =
  fixes step :: "'a \<Rightarrow> 'k accept_ev \<Rightarrow> 'a \<Rightarrow> bool"
    and made :: "'a \<Rightarrow> 'm list"
    and first :: 'a
  assumes made_first: "made first = []"
    and made_grows: "step s e s' \<Longrightarrow> \<exists>ms. made s' = made s @ ms"
begin

lemma run_projects:
  "spawn_run step made new resume first evs y \<Longrightarrow>
   accept_run step first (accept_part evs) (sw_accept y) \<and> tasks_inv new resume (made (sw_accept y)) evs (sw_tasks y)"
proof (induction rule: spawn_run.induct)
  case init
  show ?case
    by (simp add: tasks_inv_def made_first accept_run.init)
next
  case (more evs y e y')
  from more(2) show ?case
  proof cases
    case (accepts e' a)
    obtain ms where "made a = made (sw_accept y) @ ms"
      using made_grows [OF accepts(3)] by blast
    moreover from this more(3) have "spawn_tasks made new a (sw_tasks y) = sw_tasks y @ map (\<lambda>m. (new m, [])) ms"
      by (simp add: spawn_tasks_def tasks_inv_def)
    ultimately show ?thesis
      using accepts more(3) by (auto intro: accept_run.more tasks_inv_accept)
  next
    case (resumes i ev)
    with more(3) show ?thesis
      by (simp add: tasks_inv_resume)
  qed
qed

text \<open>The loop runs first, then one of the coroutines it has posted.\<close>

lemma accepts_run:
  "accept_run step first es a \<Longrightarrow>
   spawn_run step made new resume first (map Sw_accept es) \<lparr>sw_accept = a, sw_tasks = map (\<lambda>m. (new m, [])) (made a)\<rparr>"
proof (induction rule: accept_run.induct)
  case init
  show ?case
    using spawn_run.init [of step made new resume first] by (simp add: made_first)
next
  case (more evs s e s')
  obtain ms where "made s' = made s @ ms"
    using made_grows [OF more(2)] by blast
  with spawn_run.more [OF more(3) spawn_step.accepts, of e s'] more(2) show ?case
    by (simp add: spawn_tasks_def)
qed

lemma accepts_then_task:
  assumes "accept_run step first es a" "i < length (made a)"
  shows "\<exists>y. spawn_run step made new resume first (map Sw_accept es @ [Sw_task i ev]) y \<and> sw_accept y = a"
proof -
  let ?y = "\<lparr>sw_accept = a, sw_tasks = map (\<lambda>m. (new m, [])) (made a)\<rparr>"
  have "spawn_step step made new resume ?y (Sw_task i ev) (?y\<lparr>sw_tasks := (sw_tasks ?y)[i := task_step resume ev (sw_tasks ?y ! i)]\<rparr>)"
    using assms(2) by (intro spawn_step.resumes) simp_all
  from spawn_run.more [OF accepts_run [OF assms(1)] this] show ?thesis
    by (intro exI conjI) (assumption, simp)
qed

lemma tasks_independent:
  assumes "spawn_run step made new resume first evs y"
  shows "sw_tasks y = map (\<lambda>i. coro_run resume (new (made (sw_accept y) ! i)) (task_part i evs))
    [0..<length (made (sw_accept y))]"
  using run_projects [OF assms] by (intro nth_equalityI) (auto simp: tasks_inv_def)

end

end
