(* ===== verification/Listener_System.thy ===== *)
theory Listener_System
  imports Spawning Example_Server
begin

text \<open>
  A listener with all its sessions at work: \<open>accept_op\<close> of \<^verbatim>\<open>listener.hpp\<close> posts a \<open>server_op\<close> for
  every connection, with a handler in it.
\<close>

lemma listener_step_sessions:
  "listener_step ec_message k s e s' \<Longrightarrow> \<exists>ts. al_sessions s' = al_sessions s @ ts"
  by (cases e) (auto simp: listener_step_simps listener_defs)

interpretation listener_spawn: spawning "listener_step ec_message k" al_sessions "listener_new ctx" for ec_message k ctx
  by unfold_locales (simp add: listener_new_def, rule listener_step_sessions)

text \<open>A listener whose sessions have the handlers that a factory makes.\<close>

definition listener_system ::
  "(error_code \<Rightarrow> string) \<Rightarrow> 'k \<Rightarrow> ('h \<Rightarrow> 'ev \<Rightarrow> 'h \<times> ('op, error_code \<times> nat) out) \<Rightarrow> 'h \<Rightarrow> 'ev \<Rightarrow> nat option \<Rightarrow>
   ('k, 'ev served_ev) spawn_ev list \<Rightarrow> ('k accept_st, ('k, 'h) served, 'op served_op) spawned \<Rightarrow> bool" where
  "listener_system ec_message closed_socket handler new start ctx =
     spawn_run (listener_step ec_message closed_socket) al_sessions served_new (served_resume handler new start) (listener_new ctx)"

text \<open>
  A listener with its sessions, in any interleaving and with any handler: there is one session
  for every accepted connection, in the order of arrival, and each of them has done exactly what
  it would have done alone on the events it was resumed with. That the sessions share nothing is
  part of the model (each task has a state of its own), not a consequence.
\<close>

lemma listener_sessions_independent:
  assumes "listener_system ec_message k handler new start ctx evs y"
  shows "map (\<lambda>t. ms_plain (se_stream t)) (al_sessions (sw_accept y)) @ pending (al_wait (sw_accept y)) =
      accepted (accept_part evs) \<and>
    sw_tasks y = map (\<lambda>i. coro_run (served_resume handler new start) (served_new (al_sessions (sw_accept y) ! i))
      (task_part i evs)) [0..<length (al_sessions (sw_accept y))]"
proof
  note run = assms [unfolded listener_system_def]
  have "listener_inv (listener_new ctx)" "listener_served (listener_new ctx) = []" "al_wait (listener_new ctx) = No_accept"
    by (simp_all add: listener_inv_def listener_new_def listener_served_def)
  then show "map (\<lambda>t. ms_plain (se_stream t)) (al_sessions (sw_accept y)) @ pending (al_wait (sw_accept y)) =
      accepted (accept_part evs)"
    using listener.serves_accepted listener_spawn.run_projects [OF run] by (fastforce simp: listener_served_def)
  show "sw_tasks y = map (\<lambda>i. coro_run (served_resume handler new start) (served_new (al_sessions (sw_accept y) ! i))
      (task_part i evs)) [0..<length (al_sessions (sw_accept y))]"
    by (rule listener_spawn.tasks_independent [OF run])
qed

text \<open>A connection is accepted and the listener is stopped; then the session of the connection starts.\<close>

abbreviation quiet_handler :: "handler_frame \<Rightarrow> handler_ev \<Rightarrow> handler_frame \<times> (handler_op, error_code \<times> nat) out" where
  "quiet_handler \<equiv> https_request_handler (\<lambda>m. True)"

definition sample_accepts :: "bool accept_ev list" where
  "sample_accepts = [A_start, A_ready no_error True, A_completed, A_stop]"

definition sample_evs :: "(bool, handler_ev served_ev) spawn_ev list" where
  "sample_evs = map Sw_accept sample_accepts @ [Sw_task 0 Sd_begin]"

lemma sample_accept_run:
  "\<exists>a. accept_run (listener_step (\<lambda>ec. []) False) (listener_new None) sample_accepts a \<and> length (al_sessions a) = 1"
proof -
  define a1 :: "bool accept_st" where "a1 = listener_async_accept (listener_new None)"
  define a2 where "a2 = a1\<lparr>al_wait := Accept_ready no_error True\<rparr>"
  define a3 where "a3 = accept_completed (\<lambda>ec. []) no_error True (a2\<lparr>al_wait := No_accept\<rparr>)"
  note defs = listener_step_simps listener_async_accept_def listener_new_def
  have "accept_run (listener_step (\<lambda>ec. []) False) (listener_new None) [A_start] a1"
    by (rule accept_more [OF accept_run.init]) (simp_all add: a1_def defs)
  then have "accept_run (listener_step (\<lambda>ec. []) False) (listener_new None) [A_start, A_ready no_error True] a2"
    by (rule accept_more) (simp_all add: a2_def a1_def defs)
  then have "accept_run (listener_step (\<lambda>ec. []) False) (listener_new None) [A_start, A_ready no_error True, A_completed] a3"
    by (rule accept_more) (auto simp: a3_def a2_def listener_step_simps)
  then have "accept_run (listener_step (\<lambda>ec. []) False) (listener_new None) sample_accepts (listener_shutdown False a3)"
    by (rule accept_more) (simp_all add: sample_accepts_def listener_step_simps)
  moreover have "length (al_sessions (listener_shutdown False a3)) = 1"
    by (simp add: listener_shutdown_def a3_def a2_def a1_def listener_async_accept_def listener_new_def)
  ultimately show ?thesis
    by blast
qed

lemma sample_system_run:
  "\<exists>y. listener_system (\<lambda>ec. []) False quiet_handler request_handler_new Rh_begin None sample_evs y \<and>
     length (al_sessions (sw_accept y)) = 1"
  using sample_accept_run listener_spawn.accepts_then_task unfolding listener_system_def sample_evs_def by fastforce

lemma listener_sessions_independent_instance:
  "\<exists>y. listener_system (\<lambda>ec. []) False quiet_handler request_handler_new Rh_begin None sample_evs y \<and>
     sw_tasks y = [coro_run (served_resume quiet_handler request_handler_new Rh_begin)
       (served_new (al_sessions (sw_accept y) ! 0)) [Sd_begin]]"
proof -
  obtain y where y: "listener_system (\<lambda>ec. []) False quiet_handler request_handler_new Rh_begin None sample_evs y"
     "length (al_sessions (sw_accept y)) = 1"
    using sample_system_run by blast
  with listener_sessions_independent [OF y(1)] show ?thesis
    by (auto simp: task_part_def sample_evs_def sample_accepts_def simp del: coro_run.simps)
qed

end
