(* ===== verification/Proxy_System.thy ===== *)
theory Proxy_System
  imports Spawning Proxy_Accept Proxy_Properties
begin

text \<open>
  The whole proxy: the accept loop of \<^verbatim>\<open>src/proxy.cpp\<close> and every connection it has posted, each
  with its tunnels, relays and shutdowns.
\<close>

lemma proxy_step_conns: "proxy_step ec_message k p e p' \<Longrightarrow> \<exists>cs. xp_conns p' = xp_conns p @ cs"
  by (cases e) (auto simp: proxy_step_simps proxy_async_accept_def proxy_cancel_def)

interpretation proxy_spawn: spawning "proxy_step ec_message k" xp_conns "proxy_new k opts" for ec_message k opts
  by unfold_locales (simp add: proxy_new_def, rule proxy_step_conns)

definition proxy_system ::
  "'k proxy_env \<Rightarrow> 'k \<Rightarrow> session_opts \<Rightarrow> ('k, proxy_ev) spawn_ev list \<Rightarrow> ('k proxy, 'k proxy_st, proxy_op) spawned \<Rightarrow> bool" where
  "proxy_system env new_socket opts =
     spawn_run (proxy_step (pe_message env) new_socket) xp_conns (\<lambda>c. (c, No_inner)) (proxy_resume env) (proxy_new new_socket opts)"

text \<open>A connection that has ended has closed what it is meant to close.\<close>

definition conn_closed :: "'k proxy_env \<Rightarrow> session_opts \<Rightarrow> 'k proxy_st \<times> (proxy_op, unit) out list \<Rightarrow> bool" where
  "conn_closed env opts x =
     (if Return () \<in> set (snd x)
      then \<not> sk_is_open (pe_socket env) (ms_plain (se_stream (cn_session (fst (fst x))))) \<and>
        (if so_ssl_ctx opts = None then \<not> sk_is_open (pe_socket env) (ms_plain (se_stream (cn_client (fst (fst x))))) else True)
      else True)"

lemma connection_run_closed:
  assumes "socket_lib (pe_socket env)"
  shows "conn_closed env opts (coro_run (proxy_resume env) (connection_new new_socket stream opts, No_inner) evs)"
proof -
  let ?ssl = "so_ssl_ctx opts \<noteq> None"
  obtain c inner outs where r: "coro_run (proxy_resume env) (connection_new new_socket stream opts, No_inner) evs = ((c, inner), outs)"
    by (metis prod.exhaust)
  have "px_inv env ?ssl (connection_new new_socket stream opts, No_inner)"
    by (auto simp: connection_new_def session_of_executor_def ms_ssl_of_def ms_plain_of_def split: option.split)
  from socket_lib.proxy_run_final [OF assms refl this r]
  have "Return () \<in> set outs \<Longrightarrow> px_fin env ?ssl (c, inner)"
    by blast
  with r show ?thesis
    by (simp add: conn_closed_def px_fin_def server_closed_def client_closed_def)
qed

text \<open>
  The whole proxy, however its accept loop and its connections interleave: there is one
  connection for every accepted client, in the order of arrival; each has done exactly what it
  would have done alone on the events it was resumed with, so no connection influences another;
  and every connection that has ended has closed its sockets.
\<close>

lemma proxy_system_correct:
  assumes "socket_lib (pe_socket env)" "proxy_system env new_socket opts evs y"
  shows "\<exists>sockets. sockets @ pending (xp_wait (sw_accept y)) = accepted (accept_part evs) \<and>
    sw_tasks y = map (\<lambda>i. coro_run (proxy_resume env) (connection_new new_socket (Plain (sockets ! i)) opts, No_inner)
      (task_part i evs)) [0..<length sockets] \<and>
    list_all (conn_closed env opts) (sw_tasks y)"
proof -
  note sys = assms(2) [unfolded proxy_system_def]
  have run: "accept_run (proxy_step (pe_message env) new_socket) (proxy_new new_socket opts) (accept_part evs) (sw_accept y)"
    using proxy_spawn.run_projects [OF sys] by simp
  let ?s = "proxy_served (sw_accept y)"
  have "?s @ pending (xp_wait (sw_accept y)) = accepted (accept_part evs)"
    by (rule proxy_loop.serves_accepted [OF run proxy_inv_new]) (simp_all add: proxy_new_def proxy_served_def)
  moreover have conns: "xp_conns (sw_accept y) = map (\<lambda>socket. connection_new new_socket (Plain socket) opts) ?s"
    using proxy_conns_made [OF run] by simp
  have "sw_tasks y = map (\<lambda>i. coro_run (proxy_resume env) (connection_new new_socket (Plain (?s ! i)) opts, No_inner)
      (task_part i evs)) [0..<length ?s]"
    unfolding proxy_spawn.tasks_independent [OF sys] by (subst (1 2) conns) simp
  moreover from this have "list_all (conn_closed env opts) (sw_tasks y)"
    using connection_run_closed [OF assms(1)] by (simp add: list_all_iff del: coro_run.simps)
  ultimately show ?thesis
    by blast
qed

text \<open>A client is accepted and its connection starts.\<close>

definition sample_clients :: "bool accept_ev list" where
  "sample_clients = [A_start, A_start, A_ready no_error True, A_completed]"

definition sample_proxy_evs :: "(bool, proxy_ev) spawn_ev list" where
  "sample_proxy_evs = map Sw_accept sample_clients @ [Sw_task 0 Ev_begin]"

lemma sample_clients_run:
  "\<exists>p. accept_run (proxy_step (pe_message proxy_ref) False) (proxy_new False default_opts) sample_clients p \<and>
     length (xp_conns p) = 1 \<and> xp_wait p = Accepting"
proof -
  let ?run = "accept_run (proxy_step (pe_message proxy_ref) False) (proxy_new False default_opts)"
  define p1 :: "bool proxy" where "p1 = proxy_async_accept (proxy_new False default_opts)"
  define p2 where "p2 = (loop_accept p1)\<lparr>xp_wait := Accept_ready no_error True\<rparr>"
  define p3 where "p3 = loop_completed (pe_message proxy_ref) False no_error True (p2\<lparr>xp_wait := No_accept\<rparr>)"
  note defs = proxy_step_simps proxy_async_accept_def proxy_new_def
  have "?run [A_start] p1"
    by (rule accept_more [OF accept_run.init]) (simp_all add: p1_def defs)
  then have "?run [A_start, A_start] (loop_accept p1)"
    by (rule accept_more) (simp_all add: p1_def defs)
  then have "?run [A_start, A_start, A_ready no_error True] p2"
    by (rule accept_more) (simp_all add: p2_def proxy_step_simps)
  then have "?run sample_clients p3"
    by (rule accept_more) (auto simp: p3_def p2_def proxy_step_simps sample_clients_def)
  moreover have "length (xp_conns p3) = 1" "xp_wait p3 = Accepting"
    by (simp_all add: p3_def p2_def p1_def proxy_async_accept_def proxy_new_def)
  ultimately show ?thesis
    by blast
qed

lemma sample_proxy_run: "\<exists>y. proxy_system proxy_ref False default_opts sample_proxy_evs y \<and> xp_wait (sw_accept y) = Accepting"
  using sample_clients_run proxy_spawn.accepts_then_task unfolding proxy_system_def sample_proxy_evs_def by fastforce

lemma proxy_system_correct_instance:
  "\<exists>y. proxy_system proxy_ref False default_opts sample_proxy_evs y \<and>
     sw_tasks y = [coro_run (proxy_resume proxy_ref) (connection_new False (Plain True) default_opts, No_inner) [Ev_begin]]"
proof -
  obtain y where y: "proxy_system proxy_ref False default_opts sample_proxy_evs y" "xp_wait (sw_accept y) = Accepting"
    using sample_proxy_run by blast
  have "socket_lib (pe_socket proxy_ref)"
    by (simp add: proxy_ref_def sock.socket_lib_axioms)
  moreover have "accepted (accept_part sample_proxy_evs) = [True]" "task_part 0 sample_proxy_evs = [Ev_begin]"
    by (simp_all add: accepted_def accept_part_def task_part_def sample_proxy_evs_def sample_clients_def)
  ultimately show ?thesis
    using proxy_system_correct [OF _ y(1)] y by (auto simp del: coro_run.simps)
qed

end
