(* ===== verification/Proxy_Flow.thy ===== *)
theory Proxy_Flow
  imports Proxy
begin

text \<open>
  A connection of the proxy (\<^verbatim>\<open>src/proxy.cpp\<close>) with its tunnels and relays, seen from the operations of
  its two sessions: an event is the result that an operation of a session hands to its handler. Both
  shutdowns are operations like the others here, so that each operation can be given its own timer. \<open>Proxy\<close>
  has the same connection with the shutdowns run inside; \<open>flow_agrees\<close> relates the two.
\<close>

datatype flow_op = O_tunnel tunnel_op | O_relay relay_op | O_session_down | O_client_down

datatype flow_ev = F_begin | F_tunnel tunnel_ev | F_relay relay_ev | F_down error_code

definition flow_connection ::
  "'k proxy_env \<Rightarrow> 'k conn \<Rightarrow> connection_ev \<Rightarrow> 'k proxy_st \<times> (flow_op, unit) out" where
  "flow_connection env c ev =
     (case connection_resume (pe_message env) c ev of
        (c, Yield Do_tunnel) \<Rightarrow>
          nest O_tunnel (\<lambda>t. (c, In_tunnel t)) (\<lambda>t r. ((c, In_tunnel t), Mismatch))
            (tunnel_resume (pe_http env) (pe_message env) (ms_is_ssl (se_stream (cn_client c))) tunnel_init Tunnel_start)
      | (c, Yield Do_relay) \<Rightarrow>
          nest O_relay (\<lambda>r. (c, In_relay r)) (\<lambda>r x. ((c, In_relay r), Mismatch))
            (relay_resume (pe_http env) relay_init Relay_start)
      | (c, Yield Do_session_shutdown) \<Rightarrow> ((c, No_inner), Yield O_session_down)
      | (c, Yield Do_client_shutdown) \<Rightarrow> ((c, No_inner), Yield O_client_down)
      | (c, Return r) \<Rightarrow> ((c, No_inner), Return r)
      | (c, _) \<Rightarrow> ((c, No_inner), Mismatch))"

definition flow_relay :: "'k proxy_env \<Rightarrow> 'k conn \<Rightarrow> relay_state \<Rightarrow> relay_ev \<Rightarrow> 'k proxy_st \<times> (flow_op, unit) out" where
  "flow_relay env c r ev =
     nest O_relay (\<lambda>r. (c, In_relay r)) (\<lambda>r (ec, close). flow_connection env c (Completed ec close))
       (relay_resume (pe_http env) r ev)"

definition flow_tunnel_back ::
  "'k proxy_env \<Rightarrow> 'k conn \<Rightarrow> tunnel_state \<Rightarrow> tunnel_ev \<Rightarrow> 'k proxy_st \<times> (flow_op, unit) out" where
  "flow_tunnel_back env c t ev =
     nest O_tunnel (\<lambda>t. (c, In_tunnel t)) (\<lambda>t (ec, close). flow_connection env c (Completed ec close))
       (tunnel_resume (pe_http env) (pe_message env) (ms_is_ssl (se_stream (cn_client c))) t ev)"

definition flow_tunnel_relay ::
  "'k proxy_env \<Rightarrow> 'k conn \<Rightarrow> tunnel_state \<Rightarrow> relay_state \<Rightarrow> relay_ev \<Rightarrow> 'k proxy_st \<times> (flow_op, unit) out" where
  "flow_tunnel_relay env c t r ev =
     nest O_relay (\<lambda>r. (c, In_tunnel_relay t r)) (\<lambda>r (ec, close). flow_tunnel_back env c t (On_relay ec close))
       (relay_resume (pe_http env) r ev)"

definition flow_tunnel :: "'k proxy_env \<Rightarrow> 'k conn \<Rightarrow> tunnel_state \<Rightarrow> tunnel_ev \<Rightarrow> 'k proxy_st \<times> (flow_op, unit) out" where
  "flow_tunnel env c t ev =
     (case tunnel_resume (pe_http env) (pe_message env) (ms_is_ssl (se_stream (cn_client c))) t ev of
        (t, Yield (Relay_request m is_done)) \<Rightarrow> flow_tunnel_relay env c t (relay_init_parser m is_done) Relay_start
      | step \<Rightarrow>
          nest O_tunnel (\<lambda>t. (c, In_tunnel t)) (\<lambda>t (ec, close). flow_connection env c (Completed ec close)) step)"

fun flow_resume :: "'k proxy_env \<Rightarrow> 'k proxy_st \<Rightarrow> flow_ev \<Rightarrow> 'k proxy_st \<times> (flow_op, unit) out" where
  "flow_resume env (c, No_inner) F_begin = flow_connection env c Begin"
| "flow_resume env (c, In_tunnel t) (F_tunnel ev) = flow_tunnel env c t ev"
| "flow_resume env (c, In_tunnel_relay t r) (F_relay ev) = flow_tunnel_relay env c t r ev"
| "flow_resume env (c, In_relay r) (F_relay ev) = flow_relay env c r ev"
| "flow_resume env (c, No_inner) (F_down ec) = flow_connection env c (Completed ec False)"
| "flow_resume env st ev = (st, Mismatch)"

lemmas flow_defs = flow_connection_def flow_relay_def flow_tunnel_back_def flow_tunnel_relay_def flow_tunnel_def

subsection \<open>Agreement with the connection of \<open>Proxy\<close>\<close>

text \<open>What \<open>Proxy\<close> does where this connection asks for an operation: a shutdown is run at once.\<close>

definition run_down :: "'k proxy_env \<Rightarrow> 'k proxy_st \<times> (flow_op, unit) out \<Rightarrow> 'k proxy_st \<times> (proxy_op, unit) out" where
  "run_down env step =
     (case step of
        ((c, i), Yield O_session_down) \<Rightarrow> px_session_step env c (At_start, cn_session c) Start
      | ((c, i), Yield O_client_down) \<Rightarrow> px_client_step env c (At_start, cn_client c) Start
      | (st, Yield (O_tunnel op)) \<Rightarrow> (st, Yield (Op_tunnel op))
      | (st, Yield (O_relay op)) \<Rightarrow> (st, Yield (Op_relay op))
      | (st, Return r) \<Rightarrow> (st, Return r)
      | (st, Throw ec) \<Rightarrow> (st, Throw ec)
      | (st, Terminate) \<Rightarrow> (st, Terminate)
      | (st, Mismatch) \<Rightarrow> (st, Mismatch))"

lemma run_down_simps [simp]:
  "run_down env ((c, i), Yield O_session_down) = px_session_step env c (At_start, cn_session c) Start"
  "run_down env ((c, i), Yield O_client_down) = px_client_step env c (At_start, cn_client c) Start"
  "run_down env (st, Yield (O_tunnel op)) = (st, Yield (Op_tunnel op))"
  "run_down env (st, Yield (O_relay op')) = (st, Yield (Op_relay op'))"
  "run_down env (st, Return r) = (st, Return r)" "run_down env (st, Throw ec) = (st, Throw ec)"
  "run_down env (st, Terminate) = (st, Terminate)" "run_down env (st, Mismatch) = (st, Mismatch)"
  by (auto simp: run_down_def split: prod.split)

text \<open>Translating what a nested operation does commutes with nesting it.\<close>

lemma run_down_nest:
  "(\<And>s r. run_down env (ret s r) = ret2 s r) \<Longrightarrow> (\<And>s op. run_down env (keep s, Yield (wrap op)) = (keep s, Yield (wrap2 op))) \<Longrightarrow>
   run_down env (nest wrap keep ret step) = nest wrap2 keep ret2 step"
  by (cases step; cases "snd step") (auto simp: nest_def)

lemma run_down_connection: "run_down env (flow_connection env c ev) = px_resume_connection env c ev"
  by (auto simp: flow_connection_def px_resume_connection_def nest_def split: prod.split out.split connection_op.split)

lemma run_down_relay: "run_down env (flow_relay env c r ev) = px_relay_step env c r ev"
  unfolding flow_relay_def px_relay_step_def by (rule run_down_nest) (auto simp: run_down_connection)

lemma run_down_tunnel_back: "run_down env (flow_tunnel_back env c t ev) = px_tunnel_back env c t ev"
  unfolding flow_tunnel_back_def px_tunnel_back_def by (rule run_down_nest) (auto simp: run_down_connection)

lemma run_down_tunnel_relay: "run_down env (flow_tunnel_relay env c t r ev) = px_tunnel_relay_step env c t r ev"
  unfolding flow_tunnel_relay_def px_tunnel_relay_step_def by (rule run_down_nest) (auto simp: run_down_tunnel_back)

lemma run_down_tunnel: "run_down env (flow_tunnel env c t ev) = px_tunnel_step env c t ev"
  unfolding flow_tunnel_def px_tunnel_step_def
  by (auto simp: run_down_tunnel_relay run_down_connection nest_def split: prod.split out.split tunnel_op.split)

lemma flow_agrees:
  "proxy_resume env (c, No_inner) Ev_begin = run_down env (flow_resume env (c, No_inner) F_begin)"
  "proxy_resume env (c, In_tunnel t) (Ev_tunnel tev) = run_down env (flow_resume env (c, In_tunnel t) (F_tunnel tev))"
  "proxy_resume env (c, In_tunnel_relay t r) (Ev_relay ev) = run_down env (flow_resume env (c, In_tunnel_relay t r) (F_relay ev))"
  "proxy_resume env (c, In_relay r) (Ev_relay ev) = run_down env (flow_resume env (c, In_relay r) (F_relay ev))"
  by (simp_all add: run_down_connection run_down_relay run_down_tunnel_relay run_down_tunnel)

subsection \<open>What of a connection the flow depends on\<close>

text \<open>
  Two connections that differ in the state of their sockets only look alike: the flow does not
  see the difference.
\<close>

definition alike :: "'k conn \<Rightarrow> 'k conn \<Rightarrow> bool" where
  "alike c c' \<longleftrightarrow> cn_pc c = cn_pc c' \<and> ms_is_ssl (se_stream (cn_client c)) = ms_is_ssl (se_stream (cn_client c'))"

definition alike_step :: "'k proxy_st \<times> (flow_op, unit) out \<Rightarrow> 'k proxy_st \<times> (flow_op, unit) out \<Rightarrow> bool" where
  "alike_step x y \<longleftrightarrow> snd x = snd y \<and> snd (fst x) = snd (fst y) \<and> alike (fst (fst x)) (fst (fst y))"

lemma alike_refl [simp]: "alike c c"
  by (simp add: alike_def)

lemma alike_nest:
  "(\<And>s. alike (fst (keep s)) (fst (keep' s)) \<and> snd (keep s) = snd (keep' s)) \<Longrightarrow>
   (\<And>s r. alike_step (ret s r) (ret' s r)) \<Longrightarrow> alike_step (nest wrap keep ret step) (nest wrap keep' ret' step)"
  by (cases step; cases "snd step") (auto simp: nest_def alike_step_def)

lemma alike_report [simp]: "alike (connection_report msg ec c) (connection_report msg ec c') = alike c c'"
  by (simp add: alike_def connection_report_def Let_def)

lemma alike_connection_resume:
  assumes "alike c c'"
  shows "snd (connection_resume msg c ev) = snd (connection_resume msg c' ev) \<and>
    alike (fst (connection_resume msg c ev)) (fst (connection_resume msg c' ev))"
  using assms by (cases "cn_pc c'"; cases ev) (auto simp: connection_resume_def alike_def connection_report_def Let_def)

lemma alike_connection:
  assumes "alike c c'"
  shows "alike_step (flow_connection env c ev) (flow_connection env c' ev)"
proof -
  obtain d out d' where r: "connection_resume (pe_message env) c ev = (d, out)" "connection_resume (pe_message env) c' ev = (d', out)"
    and "alike d d'"
    using alike_connection_resume [OF assms, of "pe_message env" ev] by (metis prod.collapse)
  then show ?thesis
    by (auto simp: flow_connection_def alike_def [of d d'] intro!: alike_nest split: out.split connection_op.split)
      (auto simp: alike_step_def alike_def)
qed

lemma alike_relay: "alike c c' \<Longrightarrow> alike_step (flow_relay env c r ev) (flow_relay env c' r ev)"
  unfolding flow_relay_def by (rule alike_nest) (auto intro: alike_connection)

lemma alike_tunnel_back: "alike c c' \<Longrightarrow> alike_step (flow_tunnel_back env c t ev) (flow_tunnel_back env c' t ev)"
  unfolding flow_tunnel_back_def by (simp add: alike_def [of c c'], rule alike_nest) (auto simp: alike_def intro: alike_connection)

lemma alike_tunnel_relay: "alike c c' \<Longrightarrow> alike_step (flow_tunnel_relay env c t r ev) (flow_tunnel_relay env c' t r ev)"
  unfolding flow_tunnel_relay_def by (rule alike_nest) (auto intro: alike_tunnel_back)

lemma alike_tunnel:
  assumes "alike c c'"
  shows "alike_step (flow_tunnel env c t ev) (flow_tunnel env c' t ev)"
proof -
  have ssl: "ms_is_ssl (se_stream (cn_client c)) = ms_is_ssl (se_stream (cn_client c'))"
    using assms by (simp add: alike_def)
  have "alike_step (nest O_tunnel (\<lambda>t. (c, In_tunnel t)) (\<lambda>t (ec, close). flow_connection env c (Completed ec close)) step)
      (nest O_tunnel (\<lambda>t. (c', In_tunnel t)) (\<lambda>t (ec, close). flow_connection env c' (Completed ec close)) step)" for step
    using assms by (intro alike_nest) (auto intro: alike_connection)
  then show ?thesis
    using alike_tunnel_relay [OF assms] by (auto simp: flow_tunnel_def ssl split: prod.split out.split tunnel_op.split)
qed

lemma alike_resume: "alike c c' \<Longrightarrow> alike_step (flow_resume env (c, i) ev) (flow_resume env (c', i) ev)"
  by (cases i; cases ev) (simp_all add: alike_connection alike_relay alike_tunnel_relay alike_tunnel, simp_all add: alike_step_def)

end
