(* ===== verification/Timed_Proxy.thy ===== *)
theory Timed_Proxy
  imports Proxy_Flow Timed_Session Proxy_Properties
begin

text \<open>
  A connection of the proxy with the timers of its two sessions: every operation that the
  connection, its tunnels and its relays start on a session is run by \<open>async_timer\<close>, and
  its handler resumes the connection. The one exception is the detection of TLS in
  \<^verbatim>\<open>detail/tunnel.hpp\<close>, which is started on the socket itself and has no timer. An operation that throws
  (when the names of the server cannot be set) has no result; then only its timer is left.
\<close>

subsection \<open>The operations of the sessions\<close>

datatype side = On_session | On_client

text \<open>
  The coroutine inside an operation. A read or a write is one operation of Beast, whose result
  comes as the event of the tunnel or the relay that it becomes; the connection of
  the client session and the two shutdowns are the coroutines of \<open>Session\<close>.
\<close>

datatype 'k leaf =
    Io side pc "'k session"
  | Connecting "'k connect_st"
  | Session_down "pc \<times> 'k session"
  | Client_down "pc \<times> 'k session"

datatype leaf_op = Lo_io flow_op | Lo_net net_op

datatype leaf_ev = Le_start | Le_io flow_ev | Le_net net_ev

text \<open>The session that an operation belongs to.\<close>

fun flow_side :: "flow_op \<Rightarrow> side" where
  "flow_side (O_tunnel (Connect host service)) = On_client"
| "flow_side (O_tunnel op) = On_session"
| "flow_side (O_relay (Client_write_header m)) = On_client"
| "flow_side (O_relay (Client_write b)) = On_client"
| "flow_side (O_relay Client_read_header) = On_client"
| "flow_side (O_relay (Client_read n)) = On_client"
| "flow_side (O_relay op) = On_session"
| "flow_side O_session_down = On_session"
| "flow_side O_client_down = On_client"

definition side_session :: "side \<Rightarrow> 'k conn \<Rightarrow> 'k session" where
  "side_session sd c = (case sd of On_session \<Rightarrow> cn_session c | On_client \<Rightarrow> cn_client c)"

fun leaf_start :: "flow_op \<Rightarrow> 'k conn \<Rightarrow> 'k leaf" where
  "leaf_start (O_tunnel (Connect host service)) c = Connecting (connect_start (cn_client c) host service)"
| "leaf_start O_session_down c = Session_down (At_start, cn_session c)"
| "leaf_start O_client_down c = Client_down (At_start, cn_client c)"
| "leaf_start op c = Io (flow_side op) At_start (side_session (flow_side op) c)"

fun to_net :: "leaf_ev \<Rightarrow> net_ev option" where
  "to_net Le_start = Some Start"
| "to_net (Le_net ev) = Some ev"
| "to_net (Le_io ev) = None"

definition on_net ::
  "(net_ev \<Rightarrow> 's \<times> (net_op, error_code) out) \<Rightarrow> ('s \<Rightarrow> 'k leaf) \<Rightarrow> (error_code \<Rightarrow> flow_ev) \<Rightarrow> 's \<Rightarrow> leaf_ev \<Rightarrow>
   'k leaf \<times> (leaf_op, flow_ev) out" where
  "on_net resume keep result s ev =
     (case to_net ev of
        None \<Rightarrow> (keep s, Mismatch)
      | Some e \<Rightarrow> nest Lo_net keep (\<lambda>s ec. (keep s, Return (result ec))) (resume e))"

fun leaf_resume ::
  "openssl \<Rightarrow> 'k socket_api \<Rightarrow> flow_op \<Rightarrow> 'k leaf \<Rightarrow> leaf_ev \<Rightarrow> 'k leaf \<times> (leaf_op, flow_ev) out" where
  "leaf_resume ssl api op (Io sd At_start s) ev = (Io sd At_1 s, Yield (Lo_io op))"
| "leaf_resume ssl api op (Io sd pc s) (Le_io r) = (Io sd pc s, Return r)"
| "leaf_resume ssl api op (Io sd pc s) ev = (Io sd pc s, Mismatch)"
| "leaf_resume ssl api op (Connecting c) ev = on_net (connect_op ssl c) Connecting (\<lambda>ec. F_tunnel (On_connect ec)) c ev"
| "leaf_resume ssl api op (Session_down st) ev = on_net (server_async_shutdown api st) Session_down F_down st ev"
| "leaf_resume ssl api op (Client_down st) ev = on_net (client_async_shutdown api st) Client_down F_down st ev"

text \<open>The stream that the timer closes, and the session that the operation leaves behind.\<close>

fun leaf_close :: "'k socket_api \<Rightarrow> 'k leaf \<Rightarrow> 'k leaf" where
  "leaf_close api (Io sd pc s) = Io sd pc (close_session api s)"
| "leaf_close api (Connecting c) = Connecting (close_connect api c)"
| "leaf_close api (Session_down st) = Session_down (apsnd (close_session api) st)"
| "leaf_close api (Client_down st) = Client_down (apsnd (close_session api) st)"

text \<open>What an operation of Beast on a session comes back with when its stream is closed under it.\<close>

primrec tunnel_ends :: "tunnel_op \<Rightarrow> tunnel_ev \<Rightarrow> bool" where
  "tunnel_ends Read_request ev = (case ev of Request ec m is_done \<Rightarrow> ec = operation_aborted | _ \<Rightarrow> False)"
| "tunnel_ends (Respond r) ev = (case ev of Responded ec \<Rightarrow> ec = operation_aborted | _ \<Rightarrow> False)"
| "tunnel_ends (Connect host service) ev = False"
| "tunnel_ends (Relay_request m is_done) ev = False"
| "tunnel_ends Detect_client_ssl ev = False"

primrec relay_ends :: "relay_op \<Rightarrow> relay_ev \<Rightarrow> bool" where
  "relay_ends Server_read_header ev = (case ev of Header ec m is_done \<Rightarrow> ec = operation_aborted | _ \<Rightarrow> False)"
| "relay_ends (Client_write_header h) ev = (case ev of Header_sent ec \<Rightarrow> ec = operation_aborted | _ \<Rightarrow> False)"
| "relay_ends (Server_read n) ev = (case ev of Req_data ec c is_done \<Rightarrow> ec = operation_aborted | _ \<Rightarrow> False)"
| "relay_ends (Client_write b) ev = (case ev of Body_sent ec sr_done \<Rightarrow> ec = operation_aborted | _ \<Rightarrow> False)"
| "relay_ends Client_read_header ev = (case ev of Header ec m is_done \<Rightarrow> ec = operation_aborted | _ \<Rightarrow> False)"
| "relay_ends (Server_write_header h) ev = (case ev of Header_sent ec \<Rightarrow> ec = operation_aborted | _ \<Rightarrow> False)"
| "relay_ends (Client_read n) ev = (case ev of Res_data ec c is_done \<Rightarrow> ec = operation_aborted | _ \<Rightarrow> False)"
| "relay_ends (Server_write b) ev = (case ev of Body_sent ec sr_done \<Rightarrow> ec = operation_aborted | _ \<Rightarrow> False)"

fun io_ends :: "flow_op \<Rightarrow> flow_ev \<Rightarrow> bool" where
  "io_ends (O_tunnel op) (F_tunnel ev) = tunnel_ends op ev"
| "io_ends (O_relay op) (F_relay ev) = relay_ends op ev"
| "io_ends op ev = False"

fun leaf_ends :: "leaf_op \<Rightarrow> leaf_ev \<Rightarrow> bool" where
  "leaf_ends (Lo_io op) (Le_io ev) = io_ends op ev"
| "leaf_ends (Lo_net op) (Le_net ev) = net_ends op ev"
| "leaf_ends op ev = False"

definition leaf_closing :: "'k socket_api \<Rightarrow> ('k leaf, leaf_op, leaf_ev) closing" where
  "leaf_closing api = \<lparr>cl_close = leaf_close api, cl_ends = leaf_ends\<rparr>"

lemma leaf_closing_sel [simp]: "cl_close (leaf_closing api) = leaf_close api" "cl_ends (leaf_closing api) = leaf_ends"
  by (simp_all add: leaf_closing_def)

fun leaf_put :: "'k leaf \<Rightarrow> 'k conn \<Rightarrow> 'k conn" where
  "leaf_put (Io On_session pc s) c = c\<lparr>cn_session := s\<rparr>"
| "leaf_put (Io On_client pc s) c = c\<lparr>cn_client := s\<rparr>"
| "leaf_put (Connecting st) c = c\<lparr>cn_client := co_session st\<rparr>"
| "leaf_put (Session_down st) c = c\<lparr>cn_session := snd st\<rparr>"
| "leaf_put (Client_down st) c = c\<lparr>cn_client := snd st\<rparr>"

subsection \<open>The connection\<close>

text \<open>
  What a connection waits for: an operation with its timer, an operation without one, or nothing. In
  \<open>tc_past\<close> are the operations whose handlers have been called, at the moment of the call: with
  their timer, or for one without a timer with the event that ended it and its result.
\<close>

type_synonym 'k timed_leaf = "('k leaf, leaf_op, leaf_ev, flow_ev) timed_session"

datatype 'k running = Timed flow_op "'k timed_leaf" | Bare flow_op "'k leaf" | Ended

datatype 'k past = Past_timed flow_op "'k timed_leaf" | Past_bare flow_op "'k leaf" leaf_ev flow_ev

record 'k timed_conn =
  tc_st :: "'k proxy_st"
  tc_outs :: "(flow_op, unit) out list"
  tc_results :: "flow_ev list"
  tc_running :: "'k running"
  tc_past :: "'k past list"

definition has_timer :: "flow_op \<Rightarrow> bool" where
  "has_timer op = (op \<noteq> O_tunnel Detect_client_ssl)"

definition start_op :: "openssl \<Rightarrow> 'k socket_api \<Rightarrow> flow_op \<Rightarrow> 'k conn \<Rightarrow> 'k running" where
  "start_op ssl api op c =
     (if has_timer op then Timed op (async_timer (leaf_resume ssl api op) Le_start (leaf_start op c))
      else Bare op (fst (leaf_resume ssl api op (leaf_start op c) Le_start)))"

text \<open>The handler of an operation is called: the connection runs up to its next operation.\<close>

definition tc_resume :: "openssl \<Rightarrow> 'k proxy_env \<Rightarrow> flow_ev \<Rightarrow> 'k timed_conn \<Rightarrow> 'k timed_conn" where
  "tc_resume ssl env r x =
     (case flow_resume env (tc_st x) r of
        (st, out) \<Rightarrow>
          x\<lparr>tc_st := st, tc_outs := tc_outs x @ [out], tc_results := tc_results x @ [r],
            tc_running := (case out of Yield op \<Rightarrow> start_op ssl (pe_socket env) op (fst st) | _ \<Rightarrow> Ended)\<rparr>)"

definition tc_back :: "'k leaf \<Rightarrow> 'k timed_conn \<Rightarrow> 'k timed_conn" where
  "tc_back l x = x\<lparr>tc_st := apfst (leaf_put l) (tc_st x)\<rparr>"

definition tc_new :: "openssl \<Rightarrow> 'k proxy_env \<Rightarrow> 'k conn \<Rightarrow> 'k timed_conn" where
  "tc_new ssl env c =
     tc_resume ssl env F_begin \<lparr>tc_st = (c, No_inner), tc_outs = [], tc_results = [], tc_running = Ended, tc_past = []\<rparr>"

text \<open>
  One event: the network or the timer moves the operation on. Nobody else uses the timer, because
  a connection waits for one operation at a time.
\<close>

definition tc_next :: "openssl \<Rightarrow> 'k proxy_env \<Rightarrow> 'k timed_conn \<Rightarrow> leaf_ev ts_event \<Rightarrow> 'k timed_conn option" where
  "tc_next ssl env x e =
     (if e = Rearms then None
      else
        (case tc_running x of
           Timed op y \<Rightarrow>
             (case ts_next (leaf_resume ssl (pe_socket env) op) (leaf_closing (pe_socket env)) y e of
                None \<Rightarrow> None
              | Some y' \<Rightarrow>
                  (case t_calls (ts_timed y') of
                     [] \<Rightarrow> Some (x\<lparr>tc_running := Timed op y'\<rparr>)
                   | r # _ \<Rightarrow> Some (tc_resume ssl env r (tc_back (ts_coro y') (x\<lparr>tc_past := tc_past x @ [Past_timed op y']\<rparr>)))))
         | Bare op l \<Rightarrow>
             (case e of
                Resume ev \<Rightarrow>
                  (case leaf_resume ssl (pe_socket env) op l ev of
                     (l', Return r) \<Rightarrow> Some (tc_resume ssl env r (tc_back l' (x\<lparr>tc_past := tc_past x @ [Past_bare op l ev r]\<rparr>)))
                   | _ \<Rightarrow> None)
              | _ \<Rightarrow> None)
         | Ended \<Rightarrow> None))"

inductive tc_run :: "openssl \<Rightarrow> 'k proxy_env \<Rightarrow> 'k conn \<Rightarrow> leaf_ev ts_event list \<Rightarrow> 'k timed_conn \<Rightarrow> bool"
  for ssl env c where
  init: "tc_run ssl env c [] (tc_new ssl env c)"
| step: "tc_run ssl env c evs x \<Longrightarrow> tc_next ssl env x e = Some x' \<Longrightarrow> tc_run ssl env c (evs @ [e]) x'"

primrec tc_exec :: "openssl \<Rightarrow> 'k proxy_env \<Rightarrow> 'k timed_conn \<Rightarrow> leaf_ev ts_event list \<Rightarrow> 'k timed_conn option" where
  "tc_exec ssl env x [] = Some x"
| "tc_exec ssl env x (e # es) = Option.bind (tc_next ssl env x e) (\<lambda>x'. tc_exec ssl env x' es)"

lemma tc_exec_run_from: "tc_run ssl env c evs x \<Longrightarrow> tc_exec ssl env x es = Some x' \<Longrightarrow> tc_run ssl env c (evs @ es) x'"
proof (induction es arbitrary: evs x)
  case (Cons e es)
  then obtain y where "tc_next ssl env x e = Some y" "tc_exec ssl env y es = Some x'"
    by (auto split: bind_splits)
  with Cons.IH [of "evs @ [e]" y] Cons.prems(1) show ?case
    by (simp add: tc_run.step)
qed simp

lemma tc_exec_run: "tc_exec ssl env (tc_new ssl env c) es = Some x \<Longrightarrow> tc_run ssl env c es x"
  using tc_exec_run_from [OF tc_run.init] by fastforce

text \<open>The three ways a connection moves.\<close>

lemma tc_next_cases:
  assumes "tc_next ssl env x e = Some x'"
  obtains (moves) op y y' where "tc_running x = Timed op y" "e \<noteq> Rearms"
      "ts_step (leaf_resume ssl (pe_socket env) op) (leaf_closing (pe_socket env)) y e y'"
      "t_calls (ts_timed y') = []" "x' = x\<lparr>tc_running := Timed op y'\<rparr>"
  | (calls) op y y' r rs where "tc_running x = Timed op y" "e \<noteq> Rearms"
      "ts_step (leaf_resume ssl (pe_socket env) op) (leaf_closing (pe_socket env)) y e y'" "t_calls (ts_timed y') = r # rs"
      "x' = tc_resume ssl env r (tc_back (ts_coro y') (x\<lparr>tc_past := tc_past x @ [Past_timed op y']\<rparr>))"
  | (bare) op l ev l' r where "tc_running x = Bare op l" "e = Resume ev"
      "leaf_resume ssl (pe_socket env) op l ev = (l', Return r)"
      "x' = tc_resume ssl env r (tc_back l' (x\<lparr>tc_past := tc_past x @ [Past_bare op l ev r]\<rparr>))"
  using assms unfolding tc_next_def
  by (auto simp: ts_next_step split: if_splits running.splits option.splits list.splits ts_event.splits prod.splits out.splits)

subsection \<open>The kind of stream\<close>

text \<open>Whether the client's stream is encrypted, when the operation is one of the client session.\<close>

fun leaf_ssl :: "'k leaf \<Rightarrow> bool option" where
  "leaf_ssl (Io On_session pc s) = None"
| "leaf_ssl (Io On_client pc s) = Some (ms_is_ssl (se_stream s))"
| "leaf_ssl (Connecting c) = Some (ms_is_ssl (se_stream (co_session c)))"
| "leaf_ssl (Session_down st) = None"
| "leaf_ssl (Client_down st) = Some (ms_is_ssl (se_stream (snd st)))"

lemma connect_op_ssl: "ms_is_ssl (se_stream (co_session (fst (connect_op ssl c ev)))) = ms_is_ssl (se_stream (co_session c))"
  by (auto simp: connect_op_def connect_tls_def Let_def
      split: pc.split net_ev.split multi_stream.split prod.split sum.split if_splits)

lemma client_shutdown_ssl:
  "ms_is_ssl (se_stream (snd (fst (client_async_shutdown api st ev)))) = ms_is_ssl (se_stream (snd st))"
  by (cases "(api, st, ev)" rule: client_async_shutdown.cases) (auto simp: shutdown_and_close_def Let_def split: prod.split)

lemma on_net_ssl:
  "(\<And>e. leaf_ssl (keep (fst (resume e))) = leaf_ssl (keep s)) \<Longrightarrow>
   leaf_ssl (fst (on_net resume keep result s ev)) = leaf_ssl (keep s)"
  by (auto simp: on_net_def nest_def split: option.split prod.split out.split) (metis fst_conv)+

lemma leaf_resume_ssl: "leaf_ssl (fst (leaf_resume ssl api op l ev)) = leaf_ssl l"
proof (cases l)
  case (Io sd pc s)
  then show ?thesis
    by (cases sd; cases pc; cases ev) simp_all
qed (simp_all add: on_net_ssl connect_op_ssl client_shutdown_ssl)

lemma leaf_close_ssl: "leaf_ssl (leaf_close api l) = leaf_ssl l"
  by (induction l rule: leaf_ssl.induct) (simp_all add: close_session_def close_connect_def)

lemma leaf_start_ssl: "leaf_ssl (leaf_start op c) \<in> {None, Some (ms_is_ssl (se_stream (cn_client c)))}"
  by (cases "(op, c)" rule: leaf_start.cases) (auto simp: side_session_def connect_start_def split: side.split)

lemma leaf_put_alike: "leaf_ssl l \<in> {None, Some (ms_is_ssl (se_stream (cn_client c)))} \<Longrightarrow> alike c (leaf_put l c)"
  by (cases "(l, c)" rule: leaf_put.cases) (simp_all add: alike_def)

lemma timed_leaf_ssl:
  assumes "ts_run (leaf_resume ssl api op) (leaf_closing api) Le_start (leaf_start op c) evs y"
  shows "alike c (leaf_put (ts_coro y) c)"
proof -
  have "leaf_ssl (ts_coro y) = leaf_ssl (leaf_start op c)"
    by (rule ts_run_keeps [OF assms, of leaf_ssl]) (simp_all add: leaf_resume_ssl leaf_close_ssl)
  then show ?thesis
    using leaf_start_ssl [of op c] by (intro leaf_put_alike) simp
qed

subsection \<open>The invariant of a connection\<close>

text \<open>An operation whose handler has been called has nothing outstanding.\<close>

definition leaf_over :: "'k timed_leaf \<Rightarrow> bool" where
  "leaf_over y = (timed_final (ts_timed y) \<and> (\<exists>r. t_calls (ts_timed y) = [r] \<and> Return r \<in> set (ts_outs y)))"

fun past_op :: "'k past \<Rightarrow> flow_op" where
  "past_op (Past_timed op y) = op"
| "past_op (Past_bare op l ev r) = op"

text \<open>What the handler of the operation was called with.\<close>

fun past_result :: "'k past \<Rightarrow> flow_ev" where
  "past_result (Past_timed op y) = hd (t_calls (ts_timed y))"
| "past_result (Past_bare op l ev r) = r"

text \<open>
  An operation that is over: a run of its coroutine under its timer that has called its handler once,
  with what the coroutine returned, and has nothing outstanding; or a coroutine that has returned
  its result without a timer.
\<close>

definition past_ok :: "openssl \<Rightarrow> 'k socket_api \<Rightarrow> 'k past \<Rightarrow> bool" where
  "past_ok ssl api p \<longleftrightarrow>
     (case p of
        Past_timed op y \<Rightarrow> has_timer op \<and> leaf_over y \<and>
          (\<exists>c evs. ts_run (leaf_resume ssl api op) (leaf_closing api) Le_start (leaf_start op c) evs y)
      | Past_bare op l ev r \<Rightarrow> \<not> has_timer op \<and> (\<exists>l'. leaf_resume ssl api op l ev = (l', Return r)))"

text \<open>
  The connection was resumed once at its start and then with the result of each operation it had asked
  for, in order.
\<close>

definition past_inv :: "openssl \<Rightarrow> 'k proxy_env \<Rightarrow> 'k timed_conn \<Rightarrow> bool" where
  "past_inv ssl env x \<longleftrightarrow> tc_results x = F_begin # map past_result (tc_past x) \<and>
     butlast (tc_outs x) = map (\<lambda>p. Yield (past_op p)) (tc_past x) \<and> list_all (past_ok ssl (pe_socket env)) (tc_past x)"

definition flow_inv :: "'k proxy_env \<Rightarrow> 'k conn \<Rightarrow> 'k timed_conn \<Rightarrow> bool" where
  "flow_inv env c x \<longleftrightarrow> length (tc_outs x) = length (tc_results x) \<and>
     (\<exists>d. coro_run (flow_resume env) (c, No_inner) (tc_results x) = ((d, snd (tc_st x)), tc_outs x) \<and> alike d (fst (tc_st x)))"

definition running_inv :: "openssl \<Rightarrow> 'k proxy_env \<Rightarrow> 'k timed_conn \<Rightarrow> bool" where
  "running_inv ssl env x \<longleftrightarrow>
     (case tc_running x of
        Timed op y \<Rightarrow> has_timer op \<and> last (tc_outs x) = Yield op \<and> list_all yields (tc_outs x) \<and> t_calls (ts_timed y) = [] \<and>
          (\<exists>evs. ts_run (leaf_resume ssl (pe_socket env) op) (leaf_closing (pe_socket env)) Le_start (leaf_start op (fst (tc_st x))) evs y)
      | Bare op l \<Rightarrow> op = O_tunnel Detect_client_ssl \<and> last (tc_outs x) = Yield op \<and> list_all yields (tc_outs x) \<and> leaf_ssl l = None
      | Ended \<Rightarrow> \<not> list_all yields (tc_outs x))"

lemma over_leaf:
  assumes "ts_run resume close start s evs y" "t_calls (ts_timed y) = r # rs"
  shows "leaf_over y"
proof -
  obtain tevs where t: "race_of evs y tevs"
    using ts_run_race [OF assms(1)] by blast
  then have "timed_inv tevs (ts_timed y)"
    by (simp add: race_of_def timed_inv_run)
  with assms(2) have "over tevs (ts_timed y)"
    by (auto simp: timed_inv_defs)
  then have "timed_final (ts_timed y)" "rs = []"
    using assms(2) by (auto simp: over_def timed_final_def)
  with race_calls(2) [OF t, of r] assms(2) show ?thesis
    by (simp add: leaf_over_def)
qed

lemma async_timer_calls: "t_calls (ts_timed (async_timer resume start s)) = []"
  by (simp add: async_timer_def ts_resume_def timed_init_def timed_defs split: prod.split out.split)

lemma start_op_inv:
  assumes "tc_running x = start_op ssl (pe_socket env) op (fst (tc_st x))" "list_all yields (tc_outs x)" "last (tc_outs x) = Yield op"
  shows "running_inv ssl env x"
proof (cases "has_timer op")
  case True
  with assms show ?thesis
    by (auto simp: running_inv_def start_op_def async_timer_calls intro: ts_run.init)
next
  case False
  then have "op = O_tunnel Detect_client_ssl"
    by (simp add: has_timer_def)
  with assms show ?thesis
    by (simp add: running_inv_def start_op_def has_timer_def)
qed

lemma tc_resume_inv:
  assumes "flow_inv env c x" "list_all yields (tc_outs x)"
  shows "flow_inv env c (tc_resume ssl env r x) \<and> running_inv ssl env (tc_resume ssl env r x)"
proof -
  obtain d where run: "coro_run (flow_resume env) (c, No_inner) (tc_results x) = ((d, snd (tc_st x)), tc_outs x)"
    and d: "alike d (fst (tc_st x))" and len: "length (tc_outs x) = length (tc_results x)"
    using assms(1) by (auto simp: flow_inv_def)
  obtain c' i out where st: "flow_resume env (tc_st x) r = ((c', i), out)"
    by (metis prod.collapse)
  have "alike_step (flow_resume env (d, snd (tc_st x)) r) ((c', i), out)"
    using alike_resume [OF d, of env "snd (tc_st x)" r] st by simp
  then obtain d' where "flow_resume env (d, snd (tc_st x)) r = ((d', i), out)" "alike d' c'"
    by (cases "flow_resume env (d, snd (tc_st x)) r") (auto simp: alike_step_def)
  with coro_run_snoc [OF run assms(2) len, of r] len st have "flow_inv env c (tc_resume ssl env r x)"
    by (simp add: flow_inv_def tc_resume_def del: coro_run.simps)
  moreover have "running_inv ssl env (tc_resume ssl env r x)"
  proof (cases out)
    case (Yield op)
    with st assms(2) show ?thesis
      by (intro start_op_inv [of _ _ _ op]) (simp_all add: tc_resume_def)
  qed (use st in \<open>simp_all add: running_inv_def tc_resume_def\<close>)
  ultimately show ?thesis ..
qed

lemma tc_back_flow:
  assumes "flow_inv env c x" "alike (fst (tc_st x)) (leaf_put l (fst (tc_st x)))"
  shows "flow_inv env c (tc_back l x)"
  using assms by (cases "tc_st x") (auto simp: flow_inv_def tc_back_def alike_def)

definition tc_inv :: "openssl \<Rightarrow> 'k proxy_env \<Rightarrow> 'k conn \<Rightarrow> 'k timed_conn \<Rightarrow> bool" where
  "tc_inv ssl env c x \<longleftrightarrow> flow_inv env c x \<and> running_inv ssl env x \<and> past_inv ssl env x"

lemma tc_past_resume [simp]: "tc_past (tc_resume ssl env r x) = tc_past x" "tc_past (tc_back l x) = tc_past x"
  by (simp_all add: tc_resume_def tc_back_def split: prod.split)

lemma tc_resume_sel [simp]:
  "butlast (tc_outs (tc_resume ssl env r x)) = tc_outs x" "tc_results (tc_resume ssl env r x) = tc_results x @ [r]"
  by (simp_all add: tc_resume_def split: prod.split)

lemma tc_back_sel [simp]: "tc_outs (tc_back l x) = tc_outs x" "tc_results (tc_back l x) = tc_results x"
  by (simp_all add: tc_back_def)

text \<open>The handler of the operation \<open>p\<close> is called.\<close>

lemma tc_inv_called:
  assumes "tc_inv ssl env c x" "list_all yields (tc_outs x)" "last (tc_outs x) = Yield (past_op p)"
    and "past_ok ssl (pe_socket env) p" "alike (fst (tc_st x)) (leaf_put l (fst (tc_st x)))"
  shows "tc_inv ssl env c (tc_resume ssl env (past_result p) (tc_back l (x\<lparr>tc_past := tc_past x @ [p]\<rparr>)))"
proof -
  let ?x = "tc_back l (x\<lparr>tc_past := tc_past x @ [p]\<rparr>)"
  have "flow_inv env c ?x"
    using assms(1,5) by (intro tc_back_flow) (simp_all add: tc_inv_def flow_inv_def)
  moreover have "tc_outs x \<noteq> []"
    using assms(1) by (auto simp: tc_inv_def flow_inv_def past_inv_def)
  then have "tc_outs x = map (\<lambda>p. Yield (past_op p)) (tc_past x @ [p])"
    using assms(1,3) by (simp add: tc_inv_def past_inv_def) (metis append_butlast_last_id)
  ultimately show ?thesis
    using tc_resume_inv [of env c ?x ssl "past_result p"] assms(1,2,4)
    by (simp add: tc_inv_def past_inv_def)
qed

lemma tc_inv_new: "tc_inv ssl env c (tc_new ssl env c)"
proof -
  let ?x = "\<lparr>tc_st = (c, No_inner), tc_outs = [], tc_results = [], tc_running = Ended, tc_past = []\<rparr>"
  have "flow_inv env c ?x"
    by (simp add: flow_inv_def)
  from tc_resume_inv [OF this, of ssl F_begin] show ?thesis
    by (simp add: tc_inv_def tc_new_def past_inv_def)
qed

lemma tc_inv_next:
  assumes "tc_inv ssl env c x" "tc_next ssl env x e = Some x'"
  shows "tc_inv ssl env c x'"
proof -
  note inv = assms(1) [unfolded tc_inv_def]
  from assms(2) show ?thesis
  proof (cases rule: tc_next_cases)
    case (moves op y y')
    then show ?thesis
      using inv by (auto simp: tc_inv_def flow_inv_def running_inv_def past_inv_def intro: ts_run.step)
  next
    case (calls op y y' r rs)
    obtain evs where "ts_run (leaf_resume ssl (pe_socket env) op) (leaf_closing (pe_socket env)) Le_start (leaf_start op (fst (tc_st x))) evs y"
      using inv calls(1) by (auto simp: running_inv_def)
    note run = ts_run.step [OF this calls(3)]
    have "past_ok ssl (pe_socket env) (Past_timed op y')"
      using run over_leaf [OF run calls(4)] inv calls(1) by (auto simp: past_ok_def running_inv_def)
    with tc_inv_called [OF assms(1) _ _ this] timed_leaf_ssl [OF run] inv calls(1,4) show ?thesis
      unfolding calls(5) by (simp add: running_inv_def)
  next
    case (bare op l ev l' r)
    have "leaf_ssl l' = None"
      using leaf_resume_ssl [of ssl "pe_socket env" op l ev] bare inv by (simp add: running_inv_def)
    then have "alike (fst (tc_st x)) (leaf_put l' (fst (tc_st x)))"
      by (intro leaf_put_alike) simp
    moreover have "past_ok ssl (pe_socket env) (Past_bare op l ev r)"
      using inv bare(1,3) by (simp add: past_ok_def running_inv_def has_timer_def)
    ultimately show ?thesis
      using tc_inv_called [OF assms(1), of "Past_bare op l ev r" l'] inv bare(1) unfolding bare(4)
      by (simp add: running_inv_def)
  qed
qed

lemma tc_inv_run: "tc_run ssl env c evs x \<Longrightarrow> tc_inv ssl env c x"
  by (induction rule: tc_run.induct) (auto intro: tc_inv_new tc_inv_next)

subsection \<open>Closed streams\<close>

text \<open>
  The socket of the operation's session is not open. An operation that connects to a remote opens
  its socket again, so for it this says nothing of the time after the closing.
\<close>

fun leaf_closed :: "'k socket_api \<Rightarrow> 'k leaf \<Rightarrow> bool" where
  "leaf_closed api (Io sd pc s) = session_closed api (pc, s)"
| "leaf_closed api (Connecting c) = session_closed api (co_pc c, co_session c)"
| "leaf_closed api (Session_down st) = session_closed api st"
| "leaf_closed api (Client_down st) = session_closed api st"

fun connecting :: "'k leaf \<Rightarrow> bool" where
  "connecting (Connecting c) = True"
| "connecting l = False"

definition shut_or_connecting :: "'k socket_api \<Rightarrow> 'k leaf \<Rightarrow> bool" where
  "shut_or_connecting api l \<longleftrightarrow> connecting l \<or> leaf_closed api l"

lemma on_net_closed:
  "(\<And>e. shut_or_connecting api (keep (fst (resume e)))) \<Longrightarrow> shut_or_connecting api (keep s) \<Longrightarrow>
   shut_or_connecting api (fst (on_net resume keep result s ev))"
  by (auto simp: on_net_def nest_def split: option.split prod.split out.split) (metis fst_conv)+

sublocale socket_lib < leaf: timed_closing "leaf_resume ssl api op" "leaf_closing api" "shut_or_connecting api" for ssl op
proof
  show "shut_or_connecting api (cl_close (leaf_closing api) l)" for l :: "'k leaf"
    using close_session_closes [of "(pc, s)" for pc s] close_session_closes by (cases l) (simp_all add: shut_or_connecting_def)
  show "shut_or_connecting api (fst (leaf_resume ssl api op l ev))" if "shut_or_connecting api l" for l :: "'k leaf" and ev
  proof (cases l)
    case (Io sd pc s)
    with that show ?thesis
      by (cases pc; cases ev) (simp_all add: session_closed_def shut_or_connecting_def)
  next
    case (Connecting c)
    have "shut_or_connecting api (Connecting d)" for d :: "'k connect_st"
      by (simp add: shut_or_connecting_def)
    with Connecting show ?thesis
      by (simp add: on_net_closed)
  next
    case (Session_down st)
    with that have "session_closed api st"
      by (simp add: shut_or_connecting_def)
    with server_shutdown_keeps [of st] have "shut_or_connecting api (Session_down (fst (server_async_shutdown api st e)))" for e
      by (simp add: shut_or_connecting_def)
    with that Session_down show ?thesis
      by (simp add: on_net_closed)
  next
    case (Client_down st)
    with that have "session_closed api st"
      by (simp add: shut_or_connecting_def)
    with client_shutdown_keeps [of st] have "shut_or_connecting api (Client_down (fst (client_async_shutdown api st e)))" for e
      by (simp add: shut_or_connecting_def)
    with that Client_down show ?thesis
      by (simp add: on_net_closed)
  qed
qed

context socket_lib
begin

lemmas leaf_run_closed = leaf.run_closed

end

subsection \<open>Deadlines\<close>

text \<open>
  While a connection waits for an operation, the operation's timer is armed or its completion is
  queued; or the timer has expired and has closed the stream, and then the socket of the session is
  not open, unless the operation is the connection to a remote, which goes on without a deadline. The
  only operation without a timer is the detection of TLS.
\<close>

definition under_deadline :: "'k socket_api \<Rightarrow> 'k running \<Rightarrow> bool" where
  "under_deadline api r =
     (case r of
        Timed op y \<Rightarrow> t_wait (ts_timed y) \<noteq> No_wait \<or>
          t_closed (ts_timed y) \<and> (connecting (ts_coro y) \<or> leaf_closed api (ts_coro y))
      | Bare op l \<Rightarrow> op = O_tunnel Detect_client_ssl
      | Ended \<Rightarrow> True)"

lemma running_timer:
  assumes "running_inv ssl env x" "tc_running x = Timed op y"
  shows "t_wait (ts_timed y) \<noteq> No_wait \<or> t_closed (ts_timed y)"
proof -
  obtain evs where run: "ts_run (leaf_resume ssl (pe_socket env) op) (leaf_closing (pe_socket env)) Le_start
      (leaf_start op (fst (tc_st x))) evs y" and calls: "t_calls (ts_timed y) = []"
    using assms by (auto simp: running_inv_def)
  obtain tevs where "race_of evs y tevs"
    using ts_run_race [OF run] by blast
  then have "timed_inv tevs (ts_timed y)"
    by (simp add: race_of_def timed_inv_run)
  with calls show ?thesis
    by (auto simp: timed_inv_defs)
qed

lemma running_deadline:
  assumes "socket_lib (pe_socket env)" "running_inv ssl env x"
  shows "under_deadline (pe_socket env) (tc_running x)"
proof (cases "tc_running x")
  case (Timed op y)
  then obtain evs where run: "ts_run (leaf_resume ssl (pe_socket env) op) (leaf_closing (pe_socket env)) Le_start
      (leaf_start op (fst (tc_st x))) evs y"
    using assms(2) by (auto simp: running_inv_def)
  with socket_lib.leaf_run_closed [OF assms(1) run] running_timer [OF assms(2) Timed] Timed show ?thesis
    by (auto simp: under_deadline_def shut_or_connecting_def)
qed (use assms(2) in \<open>simp_all add: running_inv_def under_deadline_def\<close>)

subsection \<open>Two runs\<close>

text \<open>A client that sends nothing: the deadline of the first read, and the shutdowns.\<close>

definition silent_events :: "message \<Rightarrow> bool \<Rightarrow> error_code \<Rightarrow> nat \<Rightarrow> leaf_ev ts_event list" where
  "silent_events m is_done ec n =
     [Expires, Waited, Resume (Le_io (F_tunnel (Request operation_aborted m is_done))),
      Resume (Le_net (Done ec n)), Waited, Waited]"

lemmas tc_eval = tc_new_def tc_next_def tc_resume_def tc_back_def start_op_def has_timer_def on_net_def nest_def
  flow_defs connection_resume_def tunnel_resume_def tunnel_next_def tunnel_upcall_def tunnel_init_def side_session_def

lemma silent_run:
  assumes "socket_lib (pe_socket env)" "so_ssl_ctx opts = None"
  shows "\<exists>x. tc_exec ssl env (tc_new ssl env (connection_new new_socket (Plain k) opts)) (silent_events m is_done ec n) = Some x \<and>
    tc_outs x = [Yield (O_tunnel Read_request), Yield O_session_down, Yield O_client_down, Return ()] \<and> tc_running x = Ended \<and>
    \<not> sk_is_open (pe_socket env) (ms_plain (se_stream (cn_session (fst (tc_st x))))) \<and>
    \<not> sk_is_open (pe_socket env) (ms_plain (se_stream (cn_client (fst (tc_st x)))))"
  using assms(2) socket_lib.close_closes [OF assms(1)]
  by (simp add: silent_events_def tc_eval ts_eval connection_new_def session_of_stream_def session_of_executor_def ms_plain_of_def
      server_half_close_def shutdown_and_close_def connection_report_def close_session_def Let_def split_beta)

text \<open>
  The moment after the deadline of the first read: the client's socket is closed, and all that can
  happen is that the read comes back as aborted.
\<close>

lemma silent_expired:
  assumes "socket_lib (pe_socket env)" "so_ssl_ctx opts = None"
  shows "\<exists>x y. tc_exec ssl env (tc_new ssl env (connection_new new_socket (Plain k) opts)) [Expires, Waited] = Some x \<and>
    tc_running x = Timed (O_tunnel Read_request) y \<and> leaf_closed (pe_socket env) (ts_coro y) \<and>
    (\<forall>e x'. tc_next ssl env x e = Some x' \<longrightarrow>
       (\<exists>m is_done. e \<in> (\<lambda>f. f (Le_io (F_tunnel (Request operation_aborted m is_done)))) ` {Completes, Resume}))"
proof -
  let ?op = "O_tunnel Read_request"
  obtain x y where x: "tc_exec ssl env (tc_new ssl env (connection_new new_socket (Plain k) opts)) [Expires, Waited] = Some x"
    "tc_running x = Timed ?op y" "leaf_closed (pe_socket env) (ts_coro y)" "ts_ready y = None" "ts_cut y"
    "ts_outs y = [Yield (Lo_io ?op)]" "t_wait (ts_timed y) = No_wait"
    using assms(2) socket_lib.close_closes [OF assms(1)]
    by (simp add: tc_eval ts_eval connection_new_def session_of_stream_def session_of_executor_def ms_plain_of_def
        close_session_def close_nothrow_def session_closed_def Let_def split_beta)
  moreover have "\<exists>m is_done. e \<in> (\<lambda>f. f (Le_io (F_tunnel (Request operation_aborted m is_done)))) ` {Completes, Resume}"
    if "tc_next ssl env x e = Some x'" for e x'
  proof -
    have "ts_next (leaf_resume ssl (pe_socket env) ?op) (leaf_closing (pe_socket env)) y e \<noteq> None"
      using that x(2) by (auto simp: tc_next_def split: if_splits option.splits)
    then obtain ev where ev: "e \<in> {Completes ev, Resume ev}" "leaf_ends (Lo_io ?op) ev"
      using x(4-7) by (cases e) (auto simp: ts_may_def split: if_splits)
    then obtain m d where "ev = Le_io (F_tunnel (Request operation_aborted m d))"
      by (cases "(Lo_io ?op, ev)" rule: leaf_ends.cases; cases "(?op, case ev of Le_io r \<Rightarrow> r)" rule: io_ends.cases)
        (auto split: tunnel_ev.splits)
    with ev(1) show ?thesis
      by auto
  qed
  ultimately show ?thesis
    by blast
qed

text \<open>A tunnel is opened: the request, the connection to the remote and the answer, each in time.\<close>

definition opened_events :: "message \<Rightarrow> bool \<Rightarrow> nat list \<Rightarrow> nat \<Rightarrow> leaf_ev ts_event list" where
  "opened_events req is_done endpoints endpoint =
     [Resume (Le_io (F_tunnel (Request no_error req is_done))), Waited,
      Resume (Le_net (Resolved no_error endpoints)), Resume (Le_net (Connected no_error endpoint)), Waited,
      Resume (Le_io (F_tunnel (Responded no_error))), Waited]"

lemma opened_run:
  assumes "http_lib (pe_http env)" "simple_host h" "h \<noteq> []" "port_text pt po"
    and "msg_method req = ''CONNECT''" "msg_target req = h @ pt" "ha_parser_keep_alive (pe_http env) req"
    and "so_ssl_ctx opts = None"
  shows "\<exists>x l. tc_exec ssl env (tc_new ssl env (connection_new new_socket stream opts)) (opened_events req is_done endpoints endpoint) = Some x \<and>
    tc_running x = Bare (O_tunnel Detect_client_ssl) l \<and> (\<exists>pc s. l = Io On_session pc s \<and> pc \<noteq> At_start)"
proof -
  have "parse_uri (ha_run (pe_http env)) (h @ pt) = no_parts\<lparr>up_host := h, up_port := po\<rparr>"
    using parse_uri_authority [OF http_lib.x3 [OF assms(1)] assms(2,4)] .
  then show ?thesis
    using assms(3,5-8)
    by (simp add: opened_events_def tc_eval ts_eval connection_new_def session_of_stream_def session_of_executor_def ms_plain_of_def
        tunnel_defs is_authority_def is_absolute_def is_http_def is_http_impl_def connect_op_def connect_start_def connect_tls_def Let_def)
qed

lemma proxy_ref_sockets: "socket_lib (pe_socket proxy_ref)"
  by (simp add: proxy_ref_def sock.socket_lib_axioms)

lemma sample_silent:
  "\<exists>x. tc_run openssl_ref proxy_ref (connection_new True (Plain True) default_opts) (silent_events empty_message False asio_eof 0) x \<and>
    last (tc_outs x) = Return () \<and> tc_running x = Ended"
  using silent_run [OF proxy_ref_sockets, of default_opts openssl_ref True True empty_message False asio_eof 0] tc_exec_run
  by (fastforce simp: default_opts_def)

lemma sample_connect_ok:
  "port_text '':443'' ''443''" "simple_host ''a.b''" "ha_parser_keep_alive (pe_http proxy_ref) sample_connect"
  "http_lib (pe_http proxy_ref)"
  by (simp_all add: port_text_def opt_part_def std_isdigit_def less_eq_char_def simple_host_def plain_hostI
      no_digit_def is_reg_char_def is_unreserved_def std_isalpha_def sample_connect_def empty_message_def
      http_ref_def keep_alive_ref_def proxy_ref_def ref_http.http_lib_axioms [unfolded http_ref_def])

lemma sample_opened:
  "\<exists>x l. tc_run openssl_ref proxy_ref (connection_new True (Plain True) default_opts) (opened_events sample_connect True [7] 7) x \<and>
    tc_running x = Bare (O_tunnel Detect_client_ssl) l"
proof -
  show ?thesis
    using sample_connect_ok opened_run [of proxy_ref "''a.b''" "'':443''" "''443''" sample_connect default_opts openssl_ref True "Plain True" True "[7]" 7]
      tc_exec_run by (fastforce simp: sample_connect_def default_opts_def)
qed

subsection \<open>Properties\<close>

text \<open>
  C5: a connection of the proxy with all its timers refines the connection without them: whatever
  expires and whenever, it does what the tunnels, the relays and the shutdowns do when they are
  resumed with the results of the operations they have asked for, one result for each operation, in
  order. Each of these results is what a run of that operation's coroutine under its timer has
  returned and has passed to its handler, once, with neither the operation nor the wait on its timer
  left outstanding (for the detection of TLS: what its coroutine has returned). The connection has
  ended exactly when its coroutine has.
\<close>

theorem timed_proxy_refines:
  assumes "tc_run ssl env c evs x"
  shows "snd (coro_run (flow_resume env) (c, No_inner) (tc_results x)) = tc_outs x \<and>
    tc_results x = F_begin # map past_result (tc_past x) \<and>
    butlast (tc_outs x) = map (\<lambda>p. Yield (past_op p)) (tc_past x) \<and>
    length (tc_outs x) = length (tc_results x) \<and> list_all (past_ok ssl (pe_socket env)) (tc_past x) \<and>
    (tc_running x = Ended \<longleftrightarrow> \<not> list_all yields (tc_outs x))"
proof -
  have "flow_inv env c x" "running_inv ssl env x" "past_inv ssl env x"
    using tc_inv_run [OF assms] by (simp_all add: tc_inv_def)
  then show ?thesis
    by (cases "tc_running x") (auto simp: flow_inv_def running_inv_def past_inv_def simp del: coro_run.simps)
qed

theorem timed_proxy_refines_witness:
  "\<exists>x. tc_run openssl_ref proxy_ref (connection_new True (Plain True) default_opts) (silent_events empty_message False asio_eof 0) x \<and>
    last (snd (coro_run (flow_resume proxy_ref) (connection_new True (Plain True) default_opts, No_inner) (tc_results x))) = Return () \<and>
    tc_results x = F_begin # map past_result (tc_past x)"
proof -
  obtain x where x: "tc_run openssl_ref proxy_ref (connection_new True (Plain True) default_opts) (silent_events empty_message False asio_eof 0) x"
      "last (tc_outs x) = Return ()"
    using sample_silent by blast
  with timed_proxy_refines [OF x(1)] show ?thesis
    by (metis (no_types, lifting))
qed

text \<open>
  C26: a client that sends nothing is dropped, by a proxy without a TLS context. When the timer of the
  first read expires, the client's socket is closed, and then nothing can happen but that the read
  comes back as aborted. When it does, both sessions are shut down, the connection ends, whatever the
  shutdown reads, and both sockets are closed.
\<close>

theorem silent_client_dropped:
  fixes env :: "'k proxy_env" and new_socket k :: 'k
  assumes "socket_lib (pe_socket env)" "so_ssl_ctx opts = None"
  defines "c \<equiv> connection_new new_socket (Plain k) opts"
  shows "(\<exists>x y. tc_run ssl env c [Expires, Waited] x \<and>
      tc_running x = Timed (O_tunnel Read_request) y \<and> leaf_closed (pe_socket env) (ts_coro y) \<and>
      (\<forall>e x'. tc_next ssl env x e = Some x' \<longrightarrow>
         (\<exists>m is_done. e \<in> (\<lambda>f. f (Le_io (F_tunnel (Request operation_aborted m is_done)))) ` {Completes, Resume}))) \<and>
    (\<forall>m is_done ec n. \<exists>x. tc_run ssl env c (silent_events m is_done ec n) x \<and>
      tc_outs x = [Yield (O_tunnel Read_request), Yield O_session_down, Yield O_client_down, Return ()] \<and> tc_running x = Ended \<and>
      \<not> sk_is_open (pe_socket env) (ms_plain (se_stream (cn_session (fst (tc_st x))))) \<and>
      \<not> sk_is_open (pe_socket env) (ms_plain (se_stream (cn_client (fst (tc_st x))))))"
proof (rule conjI)
  show "\<exists>x y. tc_run ssl env c [Expires, Waited] x \<and>
      tc_running x = Timed (O_tunnel Read_request) y \<and> leaf_closed (pe_socket env) (ts_coro y) \<and>
      (\<forall>e x'. tc_next ssl env x e = Some x' \<longrightarrow>
         (\<exists>m is_done. e \<in> (\<lambda>f. f (Le_io (F_tunnel (Request operation_aborted m is_done)))) ` {Completes, Resume}))"
    using silent_expired [OF assms(1,2)] tc_exec_run unfolding c_def by blast
  show "\<forall>m is_done ec n. \<exists>x. tc_run ssl env c (silent_events m is_done ec n) x \<and>
      tc_outs x = [Yield (O_tunnel Read_request), Yield O_session_down, Yield O_client_down, Return ()] \<and> tc_running x = Ended \<and>
      \<not> sk_is_open (pe_socket env) (ms_plain (se_stream (cn_session (fst (tc_st x))))) \<and>
      \<not> sk_is_open (pe_socket env) (ms_plain (se_stream (cn_client (fst (tc_st x)))))"
    using silent_run [OF assms(1,2)] tc_exec_run unfolding c_def by blast
qed

theorem silent_client_dropped_witness:
  "\<exists>x. tc_run openssl_ref proxy_ref (connection_new True (Plain True) default_opts) (silent_events empty_message False asio_eof 0) x \<and>
    tc_running x = Ended \<and> \<not> ms_plain (se_stream (cn_session (fst (tc_st x))))"
proof -
  have "so_ssl_ctx default_opts = None"
    by (simp add: default_opts_def)
  from silent_client_dropped [OF proxy_ref_sockets this, of openssl_ref True True] obtain x where
    "tc_run openssl_ref proxy_ref (connection_new True (Plain True) default_opts) (silent_events empty_message False asio_eof 0) x"
    "tc_running x = Ended" "\<not> sk_is_open (pe_socket proxy_ref) (ms_plain (se_stream (cn_session (fst (tc_st x)))))"
    by blast
  then show ?thesis
    by (auto simp: proxy_ref_def socket_ref_def)
qed

text \<open>
  C27: the one wait of a connection that has no deadline. In every state a connection can be in, the
  operation it waits for has its timer armed or expired, unless it is the detection of TLS; and this
  wait is reached, by any client of a proxy without a TLS context that asks for a tunnel with a
  persistent \<open>CONNECT\<close> to an IPv4 address or a name that does not start with one, with or without a
  port, when the connection and the answer succeed. From then on no expiry is possible: only bytes
  or an error from the client's side end the wait, so a client that then sends nothing is not dropped.
\<close>

theorem detection_has_no_deadline:
  fixes env :: "'k proxy_env" and new_socket :: 'k and stream :: "'k multi_stream"
  assumes "http_lib (pe_http env)" "simple_host h" "h \<noteq> []" "port_text pt po"
    and "msg_method req = ''CONNECT''" "msg_target req = h @ pt" "ha_parser_keep_alive (pe_http env) req"
    and "so_ssl_ctx opts = None"
  defines "c \<equiv> connection_new new_socket stream opts"
  shows "(\<forall>evs x. tc_run ssl env c evs x \<longrightarrow>
      (case tc_running x of
         Timed op y \<Rightarrow> t_wait (ts_timed y) \<noteq> No_wait \<or> t_closed (ts_timed y)
       | Bare op l \<Rightarrow> op = O_tunnel Detect_client_ssl
       | Ended \<Rightarrow> True)) \<and>
    (\<exists>x l. tc_run ssl env c (opened_events req is_done endpoints endpoint) x \<and>
      tc_running x = Bare (O_tunnel Detect_client_ssl) l \<and>
      (\<forall>e x'. tc_next ssl env x e = Some x' \<longrightarrow> (\<exists>r. e = Resume (Le_io r))))"
proof
  show "\<forall>evs x. tc_run ssl env c evs x \<longrightarrow>
      (case tc_running x of
         Timed op y \<Rightarrow> t_wait (ts_timed y) \<noteq> No_wait \<or> t_closed (ts_timed y)
       | Bare op l \<Rightarrow> op = O_tunnel Detect_client_ssl
       | Ended \<Rightarrow> True)"
    using tc_inv_run running_timer unfolding tc_inv_def
    by (fastforce simp: running_inv_def split: running.split)
  obtain x l where x: "tc_exec ssl env (tc_new ssl env c) (opened_events req is_done endpoints endpoint) = Some x"
      "tc_running x = Bare (O_tunnel Detect_client_ssl) l" "\<exists>pc s. l = Io On_session pc s \<and> pc \<noteq> At_start"
    using opened_run [OF assms(1-8)] unfolding c_def by blast
  then have "\<exists>r. e = Resume (Le_io r)" if "tc_next ssl env x e = Some x'" for e x'
    using that
    by (cases "(ssl, pe_socket env, O_tunnel Detect_client_ssl, l, case e of Resume ev \<Rightarrow> ev)" rule: leaf_resume.cases)
      (auto simp: tc_next_def split: if_splits ts_event.splits)
  with x tc_exec_run show "\<exists>x l. tc_run ssl env c (opened_events req is_done endpoints endpoint) x \<and>
      tc_running x = Bare (O_tunnel Detect_client_ssl) l \<and>
      (\<forall>e x'. tc_next ssl env x e = Some x' \<longrightarrow> (\<exists>r. e = Resume (Le_io r)))"
    by blast
qed

theorem detection_has_no_deadline_witness:
  "\<exists>x l. tc_run openssl_ref proxy_ref (connection_new True (Plain True) default_opts) (opened_events sample_connect True [7] 7) x \<and>
    tc_running x = Bare (O_tunnel Detect_client_ssl) l \<and> tc_next openssl_ref proxy_ref x Expires = None"
proof -
  have "port_text '':443'' ''443''" "simple_host ''a.b''" "ha_parser_keep_alive (pe_http proxy_ref) sample_connect"
      "http_lib (pe_http proxy_ref)"
    by (rule sample_connect_ok)+
  from detection_has_no_deadline [OF this(4,2) _ this(1) _ _ this(3), of default_opts openssl_ref True "Plain True" True "[7]" 7]
  show ?thesis
    by (fastforce simp: sample_connect_def default_opts_def)
qed

end
