(* ===== verification/Timed_Proxy_System.thy ===== *)
theory Timed_Proxy_System
  imports Timed_Proxy Proxy_System
begin

text \<open>
  The whole proxy with all its timers: the accept loop of \<^verbatim>\<open>src/proxy.cpp\<close> and every connection it has
  posted, each with the timers of its two sessions. First, what a connection has closed when it ends.
\<close>

subsection \<open>The flow and its shutdowns\<close>

text \<open>
  Where the connection is when it asks for a shutdown or ends; it never changes its sessions itself.
\<close>

definition flow_pc_ok :: "'k conn \<Rightarrow> 'k proxy_st \<times> (flow_op, unit) out \<Rightarrow> bool" where
  "flow_pc_ok c step \<longleftrightarrow>
     cn_session (fst (fst step)) = cn_session c \<and> cn_client (fst (fst step)) = cn_client c \<and>
     (case snd step of
        Yield O_session_down \<Rightarrow> cn_pc (fst (fst step)) = P_session_down \<and> snd (fst step) = No_inner
      | Yield O_client_down \<Rightarrow> cn_pc c = P_session_down \<and> cn_pc (fst (fst step)) = P_client_down \<and> snd (fst step) = No_inner
      | Yield op \<Rightarrow> cn_pc (fst (fst step)) \<notin> {P_session_down, P_client_down} \<or> cn_pc (fst (fst step)) = cn_pc c
      | Return _ \<Rightarrow> cn_pc c = P_client_down
      | _ \<Rightarrow> True)"

lemma flow_pc_nest:
  "(\<And>s. fst (keep s) = c) \<Longrightarrow> (\<And>s r. flow_pc_ok c (ret s r)) \<Longrightarrow> (\<And>op. wrap op \<noteq> O_session_down \<and> wrap op \<noteq> O_client_down) \<Longrightarrow>
   flow_pc_ok c (nest wrap keep ret x)"
  by (cases x; cases "snd x") (auto simp: nest_def flow_pc_ok_def split: flow_op.split)

lemma connection_report_sel [simp]:
  "cn_session (connection_report msg ec c) = cn_session c" "cn_client (connection_report msg ec c) = cn_client c"
  "cn_pc (connection_report msg ec c) = cn_pc c"
  by (simp_all add: connection_report_def Let_def)

lemma flow_pc_connection: "flow_pc_ok c (flow_connection env c ev)"
  by (cases "cn_pc c"; cases ev)
    (auto simp: flow_connection_def connection_resume_def tunnel_first nest_def relay_resume_def relay_init_def flow_pc_ok_def)

lemma flow_pc_resume: "flow_pc_ok c (flow_resume env (c, i) ev)"
proof -
  have tunnel_ok: "flow_pc_ok c (flow_tunnel_back env c t e)" for t e
    unfolding flow_tunnel_back_def by (rule flow_pc_nest) (auto intro: flow_pc_connection)
  have relay: "flow_pc_ok c (flow_tunnel_relay env c t r e)" "flow_pc_ok c (flow_relay env c r e)" for t r e
    unfolding flow_tunnel_relay_def flow_relay_def by (rule flow_pc_nest; auto intro: flow_pc_connection tunnel_ok)+
  have "flow_pc_ok c (nest O_tunnel (\<lambda>t. (c, In_tunnel t)) (\<lambda>t (ec, close). flow_connection env c (Completed ec close)) x)" for x
    by (rule flow_pc_nest) (auto intro: flow_pc_connection)
  then have "flow_pc_ok c (flow_tunnel env c t e)" for t e
    using relay(1) by (auto simp: flow_tunnel_def split: prod.split out.split tunnel_op.split)
  with relay show ?thesis
    by (cases i; cases ev) (auto intro: flow_pc_connection, auto simp: flow_pc_ok_def)
qed

lemma flow_down:
  "cn_pc c \<in> {P_session_down, P_client_down} \<Longrightarrow> snd (flow_resume env (c, No_inner) ev) \<in> {Yield O_client_down, Return (), Mismatch}"
  by (cases ev) (auto simp: flow_connection_def connection_resume_def)

subsection \<open>What a shutdown leaves behind\<close>

fun leaf_kind :: "'k leaf \<Rightarrow> nat" where
  "leaf_kind (Io sd pc s) = 0"
| "leaf_kind (Connecting c) = 1"
| "leaf_kind (Session_down st) = 2"
| "leaf_kind (Client_down st) = 3"

lemma leaf_resume_kind: "leaf_kind (fst (leaf_resume ssl api op l ev)) = leaf_kind l"
proof (cases l)
  case (Io sd pc s)
  then show ?thesis
    by (cases pc; cases ev) simp_all
qed (auto simp: on_net_def nest_def split: option.split prod.split out.split)

lemma leaf_close_kind: "leaf_kind (leaf_close api l) = leaf_kind l"
  by (cases l) simp_all

text \<open>A client session without encryption is closed by the first piece of its shutdown.\<close>

fun down_inv :: "'k socket_api \<Rightarrow> 'k leaf \<Rightarrow> bool" where
  "down_inv api (Client_down st) = (fst st = At_start \<or> ms_is_ssl (se_stream (snd st)) \<or> session_closed api st)"
| "down_inv api l = True"

fun down_closed :: "'k socket_api \<Rightarrow> 'k leaf \<Rightarrow> bool" where
  "down_closed api (Session_down st) = session_closed api st"
| "down_closed api (Client_down st) = (ms_is_ssl (se_stream (snd st)) \<or> session_closed api st)"
| "down_closed api l = True"

context socket_lib
begin

lemma client_down_step:
  "fst st = At_start \<or> ms_is_ssl (se_stream (snd st)) \<or> session_closed api st \<Longrightarrow>
   ms_is_ssl (se_stream (snd (fst (client_async_shutdown api st ev)))) \<or> session_closed api (fst (client_async_shutdown api st ev))"
  using shutdown_and_close_closes [of shutdown_both] client_shutdown_keeps [of st ev]
  by (cases "(api, st, ev)" rule: client_async_shutdown.cases) (auto simp: client_shutdown_ssl split: prod.split)

lemma server_down_return: "server_async_shutdown api st ev = (st', Return r) \<Longrightarrow> session_closed api st'"
  using server_shutdown_return [OF socket_lib_axioms] by (cases st; cases st') (auto simp: session_closed_def)

lemma down_inv_resume: "down_inv api l \<Longrightarrow> down_inv api (fst (leaf_resume ssl api op l ev))"
proof (cases l)
  case (Io sd pc s)
  then show ?thesis
    by (cases pc; cases ev) simp_all
next
  case (Client_down st)
  moreover assume "down_inv api l"
  ultimately show ?thesis
    using client_down_step [of st] by (auto simp: on_net_def nest_def split: option.split prod.split out.split) (metis fst_conv snd_conv)+
qed (auto simp: on_net_def nest_def split: option.split prod.split out.split)

lemma down_closed_return:
  assumes "down_inv api l" "leaf_resume ssl api op l ev = (l', Return r)"
  shows "down_closed api l'"
proof (cases l)
  case (Io sd pc s)
  then show ?thesis
    using assms(2) by (cases pc; cases ev) auto
next
  case (Session_down st)
  then show ?thesis
    using assms(2) by (auto simp: on_net_def nest_def split: option.splits prod.splits out.splits dest: server_down_return)
next
  case (Client_down st)
  then show ?thesis
    using assms client_down_step [of st] by (auto simp: on_net_def nest_def split: option.splits prod.splits out.splits) (metis fst_conv snd_conv)+
qed (use assms(2) in \<open>auto simp: on_net_def nest_def split: option.splits prod.splits out.splits\<close>)

lemma down_close: "down_inv api l \<Longrightarrow> down_inv api (leaf_close api l)" "down_closed api l \<Longrightarrow> down_closed api (leaf_close api l)"
  using close_session_closes by (cases l; simp)+

text \<open>An operation that hands over its result has closed what it is meant to close.\<close>

lemma down_run:
  assumes "ts_run (leaf_resume ssl api op) (leaf_closing api) Le_start (leaf_start op c) evs y" "Return r \<in> set (ts_outs y)"
  shows "down_closed api (ts_coro y)" "leaf_kind (ts_coro y) = leaf_kind (leaf_start op c)"
proof -
  have "down_inv api (leaf_start op c)"
    by (cases "(op, c)" rule: leaf_start.cases) simp_all
  then have "Return r \<in> set (ts_outs y) \<longrightarrow> down_closed api (ts_coro y)"
    using ts_run_final [OF assms(1), of "down_inv api" "down_closed api" r] down_inv_resume down_close down_closed_return by fastforce
  then show "down_closed api (ts_coro y)"
    using assms(2) by blast
  show "leaf_kind (ts_coro y) = leaf_kind (leaf_start op c)"
    by (rule ts_run_keeps [OF assms(1), of leaf_kind]) (simp_all add: leaf_resume_kind leaf_close_kind)
qed

end

subsection \<open>The shutdowns of a connection\<close>

text \<open>Where a connection is while an operation runs for it.\<close>

definition shut_ok :: "'k proxy_env \<Rightarrow> 'k proxy_st \<Rightarrow> flow_op \<Rightarrow> bool" where
  "shut_ok env st op \<longleftrightarrow>
     (cn_pc (fst st) = P_session_down \<longleftrightarrow> op = O_session_down) \<and> (cn_pc (fst st) = P_client_down \<longleftrightarrow> op = O_client_down) \<and>
     (op \<in> {O_session_down, O_client_down} \<longrightarrow> snd st = No_inner) \<and> (op = O_client_down \<longrightarrow> server_closed env (fst st))"

definition closed_at_end :: "'k proxy_env \<Rightarrow> 'k timed_conn \<Rightarrow> bool" where
  "closed_at_end env x \<longleftrightarrow>
     (Return () \<in> set (tc_outs x) \<longrightarrow>
      server_closed env (fst (tc_st x)) \<and> (client_ssl (fst (tc_st x)) \<or> client_closed env (fst (tc_st x))))"

definition closing_inv :: "'k proxy_env \<Rightarrow> 'k timed_conn \<Rightarrow> bool" where
  "closing_inv env x =
     (case tc_running x of Timed op y \<Rightarrow> shut_ok env (tc_st x) op | Bare op l \<Rightarrow> shut_ok env (tc_st x) op | Ended \<Rightarrow> closed_at_end env x)"

lemma tc_resume_closing:
  assumes "list_all yields (tc_outs x)" "tc_st x = (c, i)"
    and "cn_pc c \<in> {P_session_down, P_client_down} \<Longrightarrow> i = No_inner \<and> server_closed env c"
    and "cn_pc c = P_client_down \<Longrightarrow> client_ssl c \<or> client_closed env c"
  shows "closing_inv env (tc_resume ssl env r x)"
proof -
  obtain c' i' out where st: "flow_resume env (c, i) r = ((c', i'), out)"
    by (metis prod.collapse)
  have pc: "flow_pc_ok c ((c', i'), out)"
    using flow_pc_resume [of c env i r] st by simp
  have old: "Return () \<notin> set (tc_outs x)"
    using assms(1) by (auto simp: list_all_iff)
  show ?thesis
  proof (cases out)
    case (Yield op)
    have "shut_ok env (c', i') op"
    proof (cases "cn_pc c \<in> {P_session_down, P_client_down}")
      case True
      with assms(3) flow_down [of c env r] st Yield have "op = O_client_down" "server_closed env c"
        by auto
      with pc Yield show ?thesis
        by (simp add: flow_pc_ok_def shut_ok_def server_closed_def)
    next
      case False
      with pc Yield show ?thesis
        by (cases op) (auto simp: flow_pc_ok_def shut_ok_def)
    qed
    with st Yield assms(2) show ?thesis
      by (simp add: closing_inv_def tc_resume_def start_op_def)
  next
    case (Return u)
    with pc assms(3,4) st assms(2) show ?thesis
      by (auto simp: closing_inv_def closed_at_end_def tc_resume_def flow_pc_ok_def server_closed_def client_closed_def)
  qed (use st assms(2) old in \<open>simp_all add: closing_inv_def closed_at_end_def tc_resume_def\<close>)
qed

context socket_lib
begin

lemma put_closed:
  assumes "ts_run (leaf_resume ssl (pe_socket env) op) (leaf_closing (pe_socket env)) Le_start (leaf_start op c) evs y"
    and "Return r \<in> set (ts_outs y)" "api = pe_socket env" "shut_ok env (c, i) op"
  shows "cn_pc (leaf_put (ts_coro y) c) \<in> {P_session_down, P_client_down} \<Longrightarrow> i = No_inner \<and> server_closed env (leaf_put (ts_coro y) c)"
    and "cn_pc (leaf_put (ts_coro y) c) = P_client_down \<Longrightarrow>
      client_ssl (leaf_put (ts_coro y) c) \<or> client_closed env (leaf_put (ts_coro y) c)"
proof -
  have pc: "cn_pc (leaf_put l c) = cn_pc c" for l
    by (cases "(l, c)" rule: leaf_put.cases) simp_all
  note run = down_run [OF assms(1) [folded assms(3)] assms(2)]
  have "\<exists>st. ts_coro y = Session_down st \<and> session_closed api st" if "op = O_session_down"
    using that run by (cases "ts_coro y") auto
  moreover have "\<exists>st. ts_coro y = Client_down st \<and> (ms_is_ssl (se_stream (snd st)) \<or> session_closed api st)" if "op = O_client_down"
    using that run by (cases "ts_coro y") auto
  ultimately show "cn_pc (leaf_put (ts_coro y) c) \<in> {P_session_down, P_client_down} \<Longrightarrow>
      i = No_inner \<and> server_closed env (leaf_put (ts_coro y) c)"
    and "cn_pc (leaf_put (ts_coro y) c) = P_client_down \<Longrightarrow>
      client_ssl (leaf_put (ts_coro y) c) \<or> client_closed env (leaf_put (ts_coro y) c)"
    using assms(3,4) unfolding pc by (auto simp: shut_ok_def session_closed_def server_closed_def client_closed_def)
qed

lemma closing_next:
  assumes "tc_inv ssl env c0 x" "closing_inv env x" "tc_next ssl env x e = Some x'" "api = pe_socket env"
  shows "closing_inv env x'"
  using assms(3)
proof (cases rule: tc_next_cases)
  case (moves op y y')
  then show ?thesis
    using assms(2) by (simp add: closing_inv_def)
next
  case (calls op y y' r rs)
  obtain c i where st: "tc_st x = (c, i)"
    by (cases "tc_st x")
  obtain evs where "ts_run (leaf_resume ssl (pe_socket env) op) (leaf_closing (pe_socket env)) Le_start (leaf_start op c) evs y"
    using assms(1) calls(1) st by (auto simp: tc_inv_def running_inv_def)
  note run = ts_run.step [OF this calls(3)]
  have "Return r \<in> set (ts_outs y')"
    using over_leaf [OF run calls(4)] calls(4) by (simp add: leaf_over_def)
  from put_closed [OF run this assms(4), of i] show ?thesis
    using assms(1,2) calls(1) st unfolding calls(5)
    by (intro tc_resume_closing [where c = "leaf_put (ts_coro y') c" and i = i])
      (auto simp: closing_inv_def tc_inv_def running_inv_def tc_back_def)
next
  case (bare op l ev l' r)
  have "leaf_ssl l' = None"
    using leaf_resume_ssl [of ssl "pe_socket env" op l ev] assms(1) bare by (simp add: tc_inv_def running_inv_def)
  moreover have "op = O_tunnel Detect_client_ssl" "list_all yields (tc_outs x)" "shut_ok env (tc_st x) op"
    using assms(1,2) bare(1) by (auto simp: tc_inv_def running_inv_def closing_inv_def)
  moreover have "cn_pc (leaf_put l' (fst (tc_st x))) = cn_pc (fst (tc_st x))"
    by (cases "(l', fst (tc_st x))" rule: leaf_put.cases) simp_all
  ultimately show ?thesis
    unfolding bare(4)
    by (intro tc_resume_closing [where c = "leaf_put l' (fst (tc_st x))" and i = "snd (tc_st x)"])
      (auto simp: shut_ok_def tc_back_def prod_eq_iff)
qed

lemma closing_run:
  assumes "tc_run ssl env c evs x" "cn_pc c = P_start" "api = pe_socket env"
  shows "closing_inv env x"
  using assms(1)
proof (induction rule: tc_run.induct)
  case init
  show ?case
    unfolding tc_new_def using assms(2) by (intro tc_resume_closing [where c = c and i = No_inner]) simp_all
next
  case (step evs x e x')
  then show ?case
    using closing_next [OF tc_inv_run] assms(3) by blast
qed

end

subsection \<open>The whole proxy\<close>

text \<open>A connection that has been posted and one that runs; the first event starts it.\<close>

datatype 'k timed_task = Posted "'k conn" | Started "'k timed_conn"

definition task_resume ::
  "openssl \<Rightarrow> 'k proxy_env \<Rightarrow> 'k timed_task \<Rightarrow> leaf_ev ts_event option \<Rightarrow> 'k timed_task \<times> (flow_op, unit) out" where
  "task_resume ssl env t ev =
     (case (t, ev) of
        (Posted c, None) \<Rightarrow> let x = tc_new ssl env c in (Started x, last (tc_outs x))
      | (Started x, Some e) \<Rightarrow>
          (case tc_next ssl env x e of
             Some x' \<Rightarrow> (Started x', last (tc_outs x'))
           | None \<Rightarrow> (Started x, Mismatch))
      | _ \<Rightarrow> (t, Mismatch))"

definition timed_proxy_system ::
  "openssl \<Rightarrow> 'k proxy_env \<Rightarrow> 'k \<Rightarrow> session_opts \<Rightarrow> ('k, leaf_ev ts_event option) spawn_ev list \<Rightarrow>
   ('k proxy, 'k timed_task, flow_op) spawned \<Rightarrow> bool" where
  "timed_proxy_system ssl env new_socket opts =
     spawn_run (proxy_step (pe_message env) new_socket) xp_conns Posted (task_resume ssl env) (proxy_new new_socket opts)"

definition task_reached :: "openssl \<Rightarrow> 'k proxy_env \<Rightarrow> 'k conn \<Rightarrow> 'k timed_task \<Rightarrow> bool" where
  "task_reached ssl env c t = (case t of Posted c' \<Rightarrow> c' = c | Started x \<Rightarrow> (\<exists>es. tc_run ssl env c es x))"

lemma task_reached_resume: "task_reached ssl env c t \<Longrightarrow> task_reached ssl env c (fst (task_resume ssl env t ev))"
  by (cases t; cases ev) (auto simp: task_reached_def task_resume_def Let_def split: option.split intro: tc_run.intros)

lemma task_reached_run: "task_reached ssl env c (fst (coro_run (task_resume ssl env) (Posted c) es))"
  by (rule coro_run_keeps [of "task_reached ssl env c"]) (simp add: task_reached_def, rule task_reached_resume)

text \<open>
  What is true of a connection at any time: it has done what its tunnels, relays and shutdowns do on the
  results of its operations, no operation whose handler has been called is outstanding, the operation it waits for
  has a deadline (\<open>under_deadline\<close>, with its exceptions), and when it has ended the client's socket is
  closed, and that of the remote unless it is encrypted (when the TLS shutdown fails it stays open).
\<close>

definition conn_ok :: "openssl \<Rightarrow> 'k proxy_env \<Rightarrow> 'k conn \<Rightarrow> 'k timed_conn \<Rightarrow> bool" where
  "conn_ok ssl env c x \<longleftrightarrow> snd (coro_run (flow_resume env) (c, No_inner) (tc_results x)) = tc_outs x \<and>
     past_inv ssl env x \<and> under_deadline (pe_socket env) (tc_running x) \<and> closed_at_end env x"

definition task_ok :: "openssl \<Rightarrow> 'k proxy_env \<Rightarrow> 'k conn \<Rightarrow> 'k timed_task \<Rightarrow> bool" where
  "task_ok ssl env c t = (case t of Posted c' \<Rightarrow> c' = c | Started x \<Rightarrow> conn_ok ssl env c x)"

lemma conn_ok_run:
  assumes "socket_lib (pe_socket env)" "tc_run ssl env c evs x" "cn_pc c = P_start"
  shows "conn_ok ssl env c x"
proof -
  have "closing_inv env x"
    using socket_lib.closing_run [OF assms(1-3)] by simp
  moreover have inv: "flow_inv env c x" "running_inv ssl env x" "past_inv ssl env x"
    using tc_inv_run [OF assms(2)] by (simp_all add: tc_inv_def)
  ultimately have "closed_at_end env x"
    by (auto simp: closing_inv_def closed_at_end_def running_inv_def list_all_iff split: running.splits)
  with inv running_deadline [OF assms(1) inv(2)] show ?thesis
    by (auto simp: conn_ok_def flow_inv_def simp del: coro_run.simps)
qed

text \<open>
  C4: the whole proxy with the timers of all its sessions, however the accept loop, the connections, the network and the
  timers interleave: there is one connection for every accepted client, in the order of arrival, and each has
  done what it would have done alone on the results of its operations. What a connection waits for has its timer
  armed, or has had its stream closed by the expired timer, with two exceptions: the detection of TLS, which has
  no timer, and a connection to the remote, which goes on when its timer has expired. A connection that has ended
  has nothing outstanding and has closed the client's socket, and that of the remote unless it is encrypted.
\<close>

theorem timed_proxy_system_correct:
  assumes "socket_lib (pe_socket env)" "timed_proxy_system ssl env new_socket opts evs y"
  shows "\<exists>sockets. sockets @ pending (xp_wait (sw_accept y)) = accepted (accept_part evs) \<and>
    list_all2 (\<lambda>socket t. task_ok ssl env (connection_new new_socket (Plain socket) opts) (fst t)) sockets (sw_tasks y)"
proof -
  note sys = assms(2) [unfolded timed_proxy_system_def]
  have run: "accept_run (proxy_step (pe_message env) new_socket) (proxy_new new_socket opts) (accept_part evs) (sw_accept y)"
    using proxy_spawn.run_projects [OF sys] by simp
  let ?s = "proxy_served (sw_accept y)"
  have conns: "xp_conns (sw_accept y) = map (\<lambda>socket. connection_new new_socket (Plain socket) opts) ?s"
    using proxy_conns_made [OF run] by simp
  have "task_ok ssl env (connection_new new_socket (Plain k) opts)
      (fst (coro_run (task_resume ssl env) (Posted (connection_new new_socket (Plain k) opts)) es))" for k es
    using task_reached_run [of ssl env "connection_new new_socket (Plain k) opts" es] conn_ok_run [OF assms(1)]
    by (auto simp: task_reached_def task_ok_def connection_new_def split: timed_task.splits)
  moreover have "sw_tasks y = map (\<lambda>i. coro_run (task_resume ssl env) (Posted (connection_new new_socket (Plain (?s ! i)) opts))
      (task_part i evs)) [0..<length ?s]"
    unfolding proxy_spawn.tasks_independent [OF sys] by (subst (1 2) conns) simp
  ultimately have "list_all2 (\<lambda>socket t. task_ok ssl env (connection_new new_socket (Plain socket) opts) (fst t)) ?s (sw_tasks y)"
    by (simp add: list_all2_conv_all_nth del: coro_run.simps)
  moreover have "?s @ pending (xp_wait (sw_accept y)) = accepted (accept_part evs)"
    by (rule proxy_loop.serves_accepted [OF run proxy_inv_new]) (simp_all add: proxy_new_def proxy_served_def)
  ultimately show ?thesis
    by blast
qed

text \<open>A client is accepted and its connection starts.\<close>

theorem timed_proxy_system_correct_witness:
  "\<exists>y t. timed_proxy_system openssl_ref proxy_ref False default_opts (map Sw_accept sample_clients @ [Sw_task 0 None]) y \<and>
    sw_tasks y = [t] \<and> task_ok openssl_ref proxy_ref (connection_new False (Plain True) default_opts) (fst t)"
proof -
  obtain p where p: "accept_run (proxy_step (pe_message proxy_ref) False) (proxy_new False default_opts) sample_clients p"
      "0 < length (xp_conns p)" "xp_wait p = Accepting"
    using sample_clients_run by fastforce
  obtain y where y: "timed_proxy_system openssl_ref proxy_ref False default_opts (map Sw_accept sample_clients @ [Sw_task 0 None]) y"
      "xp_wait (sw_accept y) = Accepting"
    using proxy_spawn.accepts_then_task [OF p(1,2)] p(3) unfolding timed_proxy_system_def by metis
  have "accepted (accept_part (map Sw_accept sample_clients @ [Sw_task 0 (None :: leaf_ev ts_event option)])) = [True]"
    by (simp add: accepted_def accept_part_def sample_clients_def)
  with timed_proxy_system_correct [OF proxy_ref_sockets y(1)] y show ?thesis
    by (auto simp: list_all2_Cons1)
qed

end
