(* ===== verification/Executors.thy ===== *)
theory Executors
  imports Proxy
begin

text \<open>
  Where handlers run. The program runs on any number of threads and relies on strands: every
  completion handler that touches the state of a connection, of an accept loop or of a session is
  to run on one strand. Here are the executors of the objects (\<open>get_executor\<close>), the handlers that the
  operations of \<^verbatim>\<open>include/foxy\<close> and \<^verbatim>\<open>src/proxy.cpp\<close> hand to Asio and Beast, and where Asio runs them.
\<close>

subsection \<open>Associated executors and allocators\<close>

text \<open>A strand is known by a number and wraps another executor.\<close>

datatype executor = Io_context nat | Strand nat executor

text \<open>
  A handler as Asio looks at it: a function object without an association, a class with a member
  \<open>get_executor\<close> or \<open>get_allocator\<close>, and the wrappers that the program uses: \<open>bind_front_handler\<close> and
  \<open>stable_async_base\<close> of Beast, \<open>bind_executor\<close> and the \<open>self\<close> of \<open>async_compose\<close>. The last two arguments are the
  associations that hold when the wrapped handler has none.
\<close>

datatype 'x handler =
    Function
  | Member 'x
  | Bind_front "'x handler"
  | Bind_executor 'x "'x handler"
  | Composed "'x handler" 'x
  | Async_base "'x handler" 'x

locale assoc_lib =
  fixes assoc :: "'x handler \<Rightarrow> 'x \<Rightarrow> 'x"
  assumes assoc_function: "assoc Function d = d"
    and assoc_member: "assoc (Member x) d = x"
    and assoc_bind_front: "assoc (Bind_front h) d = assoc h d"
    and assoc_bind: "assoc (Bind_executor x h) d = x"
    and assoc_composed: "assoc (Composed h x) d = assoc h x"
    and assoc_base: "assoc (Async_base h x) d = assoc h x"
begin

lemmas assoc_laws = assoc_function assoc_member assoc_bind_front assoc_bind assoc_composed assoc_base

end

fun assoc_ref :: "'x handler \<Rightarrow> 'x \<Rightarrow> 'x" where
  "assoc_ref Function d = d"
| "assoc_ref (Member x) d = x"
| "assoc_ref (Bind_front h) d = assoc_ref h d"
| "assoc_ref (Bind_executor x h) d = x"
| "assoc_ref (Composed h x) d = assoc_ref h x"
| "assoc_ref (Async_base h x) d = assoc_ref h x"

interpretation ref_assoc: assoc_lib assoc_ref
  by unfold_locales simp_all

subsection \<open>Executors of streams and sessions\<close>

text \<open>The executors of sockets belong to Asio; a TLS stream has the one of the socket below it.\<close>

definition ms_get_executor :: "('k \<Rightarrow> executor) \<Rightarrow> 'k multi_stream \<Rightarrow> executor" where
  "ms_get_executor ex ms = (case ms of Plain k \<Rightarrow> ex k | Ssl k s \<Rightarrow> ex k)"

definition session_get_executor :: "('k \<Rightarrow> executor) \<Rightarrow> 'k session \<Rightarrow> executor" where
  "session_get_executor ex s = ms_get_executor ex (se_stream s)"

text \<open>
  A handler that is handed to an operation, with the executor of the object that the operation belongs to:
  Asio runs it on the executor associated with the handler, which the second one stands in for.
\<close>

type_synonym pending = "executor handler \<times> executor"

definition runs_on :: "(executor handler \<Rightarrow> executor \<Rightarrow> executor) \<Rightarrow> pending \<Rightarrow> executor" where
  "runs_on assoc p = assoc (fst p) (snd p)"

text \<open>\<open>intermediate_completion_handler\<close>, whose members ask the user's handler.\<close>

definition intermediate_get_executor ::
  "(executor handler \<Rightarrow> executor \<Rightarrow> executor) \<Rightarrow> executor \<Rightarrow> executor handler \<Rightarrow> executor" where
  "intermediate_get_executor assoc session_ex h = assoc h session_ex"

definition intermediate_get_allocator :: "('x handler \<Rightarrow> 'x \<Rightarrow> 'x) \<Rightarrow> 'x \<Rightarrow> 'x handler \<Rightarrow> 'x" where
  "intermediate_get_allocator assoc std_allocator h = assoc h std_allocator"

definition timer_self ::
  "(executor handler \<Rightarrow> executor \<Rightarrow> executor) \<Rightarrow> executor \<Rightarrow> executor handler \<Rightarrow> executor handler" where
  "timer_self assoc session_ex h = Composed (Member (intermediate_get_executor assoc session_ex h)) session_ex"

text \<open>
  What \<open>async_timer\<close> hands on: the handler of the wait, and \<open>self\<close> of the composed
  operation, to the operations of the session's stream.
\<close>

definition timed_pending ::
  "(executor handler \<Rightarrow> executor \<Rightarrow> executor) \<Rightarrow> executor \<Rightarrow> executor handler \<Rightarrow> pending list" where
  "timed_pending assoc session_ex h =
     [(Bind_front (Member (intermediate_get_executor assoc session_ex h)), session_ex), (timer_self assoc session_ex h, session_ex)]"

text \<open>
  \<open>async_connect\<close>: a resolver on the executor of the handler, then the stream. The frame of the
  operation comes from the allocator of the handler.
\<close>

definition connect_pending ::
  "(executor handler \<Rightarrow> executor \<Rightarrow> executor) \<Rightarrow> executor \<Rightarrow> executor handler \<Rightarrow> pending list" where
  "connect_pending assoc session_ex h =
     (let executor = assoc h session_ex; self = timer_self assoc session_ex h
      in timed_pending assoc session_ex h @ [(Bind_front self, executor), (Bind_front self, session_ex), (self, session_ex)])"

definition connect_allocator :: "('x handler \<Rightarrow> 'x \<Rightarrow> 'x) \<Rightarrow> 'x \<Rightarrow> 'x handler \<Rightarrow> 'x" where
  "connect_allocator assoc std_allocator h = assoc h std_allocator"

subsection \<open>The operations of the proxy\<close>

text \<open>The base of \<open>relay_op\<close> and of \<open>tunnel_op\<close>: the handler with the executor of the server session.\<close>

definition relay_pending ::
  "(executor handler \<Rightarrow> executor \<Rightarrow> executor) \<Rightarrow> executor \<Rightarrow> executor \<Rightarrow> executor handler \<Rightarrow> pending list" where
  "relay_pending assoc server_ex client_ex h =
     (let this = Async_base h server_ex in timed_pending assoc server_ex this @ timed_pending assoc client_ex this)"

definition tunnel_pending ::
  "(executor handler \<Rightarrow> executor \<Rightarrow> executor) \<Rightarrow> executor \<Rightarrow> executor \<Rightarrow> executor handler \<Rightarrow> pending list" where
  "tunnel_pending assoc server_ex client_ex h =
     (let this = Async_base h server_ex
      in timed_pending assoc server_ex this @ connect_pending assoc client_ex (Bind_front this) @
         relay_pending assoc server_ex client_ex (Bind_front this) @ [(Bind_front this, server_ex)])"

text \<open>\<open>async_connect_op\<close>: a strand of its own, over the executor of the server session.\<close>

definition connection_get_executor :: "('k \<Rightarrow> executor) \<Rightarrow> nat \<Rightarrow> 'k conn \<Rightarrow> executor" where
  "connection_get_executor ex n c = Strand n (session_get_executor ex (cn_session c))"

definition connection_pending ::
  "(executor handler \<Rightarrow> executor \<Rightarrow> executor) \<Rightarrow> ('k \<Rightarrow> executor) \<Rightarrow> nat \<Rightarrow> 'k conn \<Rightarrow> pending list" where
  "connection_pending assoc ex n c =
     (let this = Member (connection_get_executor ex n c);
          server_ex = session_get_executor ex (cn_session c); client_ex = session_get_executor ex (cn_client c)
      in (this, server_ex) # tunnel_pending assoc server_ex client_ex this @ relay_pending assoc server_ex client_ex this @
         timed_pending assoc server_ex this @ timed_pending assoc client_ex this)"

text \<open>
  The accept loop of the proxy: its strand, the posted start and the posted cancellation, and the
  accepts, with the strand bound to their handler.
\<close>

definition proxy_get_executor :: "nat \<Rightarrow> executor \<Rightarrow> executor" where
  "proxy_get_executor n stream_ex = Strand n stream_ex"

definition proxy_loop_pending :: "nat \<Rightarrow> executor \<Rightarrow> pending list" where
  "proxy_loop_pending n stream_ex =
     (let strand = proxy_get_executor n stream_ex
      in [(Function, strand), (Function, strand), (Bind_executor strand Function, stream_ex)])"

subsection \<open>The operations of the listener\<close>

definition listener_get_executor :: "nat \<Rightarrow> executor \<Rightarrow> executor" where
  "listener_get_executor n ex = Strand n ex"

text \<open>
  \<open>accept_op\<close> has the strand of the listener: it is posted, and it is the handler of every
  accept; the posted shutdown runs on the strand too.
\<close>

definition accept_op_get_executor :: "executor \<Rightarrow> executor" where
  "accept_op_get_executor strand = strand"

definition accept_pending :: "nat \<Rightarrow> executor \<Rightarrow> pending list" where
  "accept_pending n ex =
     (let strand = listener_get_executor n ex; this = Member (accept_op_get_executor strand)
      in [(this, ex), (this, ex), (Function, strand)])"

text \<open>
  \<open>server_op\<close>: posted, the handshake, the user's handler as a composed operation, which calls
  operations of the session with \<open>self\<close>, and the shutdown.
\<close>

definition server_op_get_executor :: "nat \<Rightarrow> executor \<Rightarrow> executor" where
  "server_op_get_executor n session_ex = Strand n session_ex"

definition server_op_pending :: "(executor handler \<Rightarrow> executor \<Rightarrow> executor) \<Rightarrow> nat \<Rightarrow> executor \<Rightarrow> pending list" where
  "server_op_pending assoc n session_ex =
     (let strand = server_op_get_executor n session_ex; this = Member strand; self = Composed this strand
      in (this, session_ex) # timed_pending assoc session_ex this @ timed_pending assoc session_ex self @ timed_pending assoc session_ex this)"

subsection \<open>\<open>speak\<close>\<close>

text \<open>\<open>speak_op\<close> runs on the executor it is given, and so do the operations of its session.\<close>

definition speak_get_executor :: "executor \<Rightarrow> executor" where
  "speak_get_executor executor = executor"

definition speak_pending :: "(executor handler \<Rightarrow> executor \<Rightarrow> executor) \<Rightarrow> executor \<Rightarrow> pending list" where
  "speak_pending assoc executor =
     (let this = Member (speak_get_executor executor); self = Composed this executor
      in (this, executor) # connect_pending assoc executor this @ timed_pending assoc executor self @ timed_pending assoc executor this)"

subsection \<open>Where the handlers run\<close>

context assoc_lib
begin

lemma intermediate_runs:
  "intermediate_get_allocator assoc std h = assoc h std" "connect_allocator assoc std h = assoc h std"
  by (simp_all add: intermediate_get_allocator_def connect_allocator_def)

end

locale executor_lib = assoc_lib assoc for assoc :: "executor handler \<Rightarrow> executor \<Rightarrow> executor"
begin

text \<open>An operation of a session whose handler is associated with an executor stays on it.\<close>

lemma timed_on: "assoc h session_ex = x \<Longrightarrow> list_all (\<lambda>p. runs_on assoc p = x) (timed_pending assoc session_ex h)"
  by (simp add: timed_pending_def timer_self_def intermediate_get_executor_def runs_on_def assoc_laws)

lemma connect_on: "assoc h session_ex = x \<Longrightarrow> list_all (\<lambda>p. runs_on assoc p = x) (connect_pending assoc session_ex h)"
  using timed_on [of h session_ex x]
  by (simp add: connect_pending_def timer_self_def intermediate_get_executor_def runs_on_def assoc_laws Let_def)

text \<open>So does everything below an object whose executor is a strand.\<close>

definition owned :: "executor \<Rightarrow> executor handler \<Rightarrow> bool" where
  "owned x h \<longleftrightarrow> (\<forall>d. assoc h d = x)"

lemma owned_intros: "owned x (Member x)" "owned x h \<Longrightarrow> owned x (Bind_front h)" "owned x h \<Longrightarrow> owned x (Async_base h d)"
  "owned x h \<Longrightarrow> owned x (Composed h d)"
  by (simp_all add: owned_def assoc_laws)

lemma runs_owned: "owned x h \<Longrightarrow> runs_on assoc (h, d) = x"
  by (simp add: owned_def runs_on_def)

lemma session_on:
  "owned x h \<Longrightarrow> list_all (\<lambda>p. runs_on assoc p = x) (timed_pending assoc session_ex h)"
  "owned x h \<Longrightarrow> list_all (\<lambda>p. runs_on assoc p = x) (connect_pending assoc session_ex h)"
  by (rule timed_on, simp add: owned_def) (rule connect_on, simp add: owned_def)

lemma relay_on: "owned x h \<Longrightarrow> list_all (\<lambda>p. runs_on assoc p = x) (relay_pending assoc server_ex client_ex h)"
  by (simp add: relay_pending_def Let_def session_on owned_intros)

lemma tunnel_on: "owned x h \<Longrightarrow> list_all (\<lambda>p. runs_on assoc p = x) (tunnel_pending assoc server_ex client_ex h)"
  by (simp add: tunnel_pending_def Let_def session_on relay_on owned_intros runs_owned)

lemma connection_on:
  "list_all (\<lambda>p. runs_on assoc p = connection_get_executor ex n c) (connection_pending assoc ex n c)"
  by (simp add: connection_pending_def Let_def session_on relay_on tunnel_on owned_intros runs_owned)

lemma server_op_on: "list_all (\<lambda>p. runs_on assoc p = server_op_get_executor n e) (server_op_pending assoc n e)"
  by (simp add: server_op_pending_def Let_def session_on owned_intros runs_owned)

lemma loops_on:
  "list_all (\<lambda>p. runs_on assoc p = proxy_get_executor n e) (proxy_loop_pending n e)"
  "list_all (\<lambda>p. runs_on assoc p = listener_get_executor n e) (accept_pending n e)"
  by (simp_all add: proxy_loop_pending_def accept_pending_def accept_op_get_executor_def Let_def runs_on_def assoc_laws)

lemma speak_on: "list_all (\<lambda>p. runs_on assoc p = e) (speak_pending assoc e)"
  by (simp add: speak_pending_def speak_get_executor_def Let_def session_on owned_intros runs_owned)

end

interpretation ref_executor: executor_lib assoc_ref
  by unfold_locales

subsection \<open>Threads\<close>

text \<open>
  Any number of threads run handlers. A history is the order in which handlers, known by numbers,
  begin and end; \<open>active\<close> are the ones that have begun and not ended. What Asio promises of strands:
  two handlers of one strand are never active together.
\<close>

datatype run_ev = Begins nat | Ends nat

definition active_step :: "nat list \<Rightarrow> run_ev \<Rightarrow> nat list" where
  "active_step act e = (case e of Begins i \<Rightarrow> act @ [i] | Ends i \<Rightarrow> remove1 i act)"

definition active :: "run_ev list \<Rightarrow> nat list" where
  "active hist = foldl active_step [] hist"

lemma active_snoc [simp]: "active [] = []" "active (hist @ [e]) = active_step (active hist) e"
  by (simp_all add: active_def)

locale strand_lib =
  fixes admissible :: "(nat \<Rightarrow> executor) \<Rightarrow> run_ev list \<Rightarrow> bool"
  assumes strand_excludes: "admissible on hist \<Longrightarrow> i \<in> set (active hist) \<Longrightarrow> j \<in> set (active hist) \<Longrightarrow> i \<noteq> j \<Longrightarrow>
      on i = Strand n e \<Longrightarrow> on j \<noteq> Strand n e"

text \<open>A scheduler that starts a handler when a thread is free and its strand is not in use.\<close>

definition same_strand :: "executor \<Rightarrow> executor \<Rightarrow> bool" where
  "same_strand x y = (case (x, y) of (Strand n e, Strand m e') \<Rightarrow> n = m | _ \<Rightarrow> False)"

lemma same_strand_sym: "same_strand x y = same_strand y x"
  by (auto simp: same_strand_def split: executor.split)

fun may_run :: "nat \<Rightarrow> (nat \<Rightarrow> executor) \<Rightarrow> nat list \<Rightarrow> run_ev list \<Rightarrow> bool" where
  "may_run threads on act [] = True"
| "may_run threads on act (Begins i # hist) =
     (length act < threads \<and> list_all (\<lambda>j. \<not> same_strand (on i) (on j)) act \<and> may_run threads on (act @ [i]) hist)"
| "may_run threads on act (Ends i # hist) = may_run threads on (remove1 i act) hist"

lemma may_run_excludes:
  assumes "may_run threads on act hist"
    and "\<And>i j. i \<in> set act \<Longrightarrow> j \<in> set act \<Longrightarrow> i \<noteq> j \<Longrightarrow> \<not> same_strand (on i) (on j)"
    and "i \<in> set (foldl active_step act hist)" "j \<in> set (foldl active_step act hist)" "i \<noteq> j"
  shows "\<not> same_strand (on i) (on j)"
  using assms
proof (induction threads on act hist rule: may_run.induct)
  case (2 threads on act k hist)
  have "\<not> same_strand (on i) (on j)" if "i \<in> set (act @ [k])" "j \<in> set (act @ [k])" "i \<noteq> j" for i j
    using that 2(2,3) same_strand_sym [of "on k"] by (auto simp: list_all_iff)
  then show ?case
    using 2(1,2,4,5,6) by (simp add: active_step_def)
next
  case (3 threads on act k hist)
  then show ?case
    by (auto simp: active_step_def dest: notin_set_remove1)
qed simp

interpretation ref_threads: strand_lib "\<lambda>on hist. may_run threads on [] hist" for threads
proof
  fix on hist i j n e
  assume "may_run threads on [] hist" "i \<in> set (active hist)" "j \<in> set (active hist)" "i \<noteq> j" "on i = Strand n e"
  with may_run_excludes [of threads on "[]" hist i j] show "on j \<noteq> Strand n e"
    by (auto simp: active_def same_strand_def)
qed

subsection \<open>Properties\<close>

text \<open>The parts of the program that have a strand, and the handlers that touch their state.\<close>

datatype 'k part = Connection_part "'k conn" | Session_part executor | Proxy_part executor | Listener_part executor

definition part_pending ::
  "(executor handler \<Rightarrow> executor \<Rightarrow> executor) \<Rightarrow> ('k \<Rightarrow> executor) \<Rightarrow> nat \<Rightarrow> 'k part \<Rightarrow> pending list" where
  "part_pending assoc ex n p =
     (case p of
        Connection_part c \<Rightarrow> connection_pending assoc ex n c
      | Session_part e \<Rightarrow> server_op_pending assoc n e
      | Proxy_part e \<Rightarrow> proxy_loop_pending n e
      | Listener_part e \<Rightarrow> accept_pending n e)"

lemma part_on:
  assumes "executor_lib assoc"
  shows "\<exists>e. list_all (\<lambda>h. runs_on assoc h = Strand n e) (part_pending assoc ex n p)"
proof (cases p)
  case (Connection_part c)
  then show ?thesis
    using executor_lib.connection_on [OF assms, of ex n c] by (auto simp: part_pending_def connection_get_executor_def)
next
  case (Session_part e)
  then show ?thesis
    using executor_lib.server_op_on [OF assms, of n e] by (auto simp: part_pending_def server_op_get_executor_def)
next
  case (Proxy_part e)
  then show ?thesis
    using executor_lib.loops_on(1) [OF assms, of n e] by (auto simp: part_pending_def proxy_get_executor_def)
next
  case (Listener_part e)
  then show ?thesis
    using executor_lib.loops_on(2) [OF assms, of n e] by (auto simp: part_pending_def listener_get_executor_def)
qed

text \<open>
  C6: on any number of threads, two handlers of one connection of the proxy, of one session of
  a listener (the user's handler included) or of one accept loop never run at the same time: each of them, the handlers
  of timers, of tunnels and of relays inside, is associated with the strand of its connection, session or loop.
\<close>

theorem handlers_serialised:
  assumes "executor_lib assoc" "strand_lib admissible" "admissible on hist"
    and "on i = runs_on assoc h" "h \<in> set (part_pending assoc ex n p)"
    and "on j = runs_on assoc h'" "h' \<in> set (part_pending assoc ex n p)" "i \<noteq> j"
  shows "\<not> (i \<in> set (active hist) \<and> j \<in> set (active hist))"
proof -
  obtain e where "list_all (\<lambda>h. runs_on assoc h = Strand n e) (part_pending assoc ex n p)"
    using part_on [OF assms(1)] by blast
  then have "on i = Strand n e" "on j = Strand n e"
    using assms(4-7) by (simp_all add: list_all_iff)
  with strand_lib.strand_excludes [OF assms(2,3)] assms(8) show ?thesis
    by blast
qed

theorem handlers_serialised_witness:
  "\<not> (0 \<in> set (active [Begins 0, Ends 0, Begins 1]) \<and> 1 \<in> set (active [Begins 0, Ends 0, Begins 1]))"
proof -
  let ?on = "\<lambda>i::nat. Strand 3 (Io_context 0)"
  have "may_run 2 ?on [] [Begins 0, Ends 0, Begins 1]"
    by simp
  moreover have "(Member (Strand 3 (Io_context 0)), Io_context 0) \<in> set (part_pending assoc_ref (\<lambda>_::bool. Io_context 0) 3 (Session_part (Io_context 0)))"
    by (simp add: part_pending_def server_op_pending_def server_op_get_executor_def Let_def)
  ultimately show ?thesis
    using handlers_serialised [OF ref_executor.executor_lib_axioms ref_threads.strand_lib_axioms [of 2], where on = ?on and
        i = 0 and j = 1 and n = 3 and p = "Session_part (Io_context 0)" and ex = "\<lambda>_::bool. Io_context 0"
        and h = "(Member (Strand 3 (Io_context 0)), Io_context 0)" and h' = "(Member (Strand 3 (Io_context 0)), Io_context 0)"]
    by (simp add: runs_on_def)
qed

text \<open>
  \<open>speak\<close> makes no strand. On an executor of an I/O context that two threads run, the
  handler of the timer and the handler of the operation it guards may run at the same time, although they
  share the state of the timed operation.
\<close>

lemma speak_handlers_overlap:
  assumes "executor_lib assoc"
  shows "\<exists>h h'. h \<in> set (timed_pending assoc (Io_context n) (Member (Io_context n))) \<and>
    h' \<in> set (timed_pending assoc (Io_context n) (Member (Io_context n))) \<and> h \<noteq> h' \<and>
    set (timed_pending assoc (Io_context n) (Member (Io_context n))) \<subseteq> set (speak_pending assoc (Io_context n)) \<and>
    may_run 2 (\<lambda>i. runs_on assoc ([h, h'] ! i)) [] [Begins 0, Begins 1] \<and>
    active [Begins 0, Begins 1] = [0, 1]"
proof -
  let ?l = "timed_pending assoc (Io_context n) (Member (Io_context n))"
  have sub: "set ?l \<subseteq> set (speak_pending assoc (Io_context n))"
    by (auto simp: speak_pending_def speak_get_executor_def Let_def)
  have "list_all (\<lambda>h. runs_on assoc h = Io_context n) ?l"
    using executor_lib.speak_on [OF assms, of "Io_context n"] sub by (auto simp: list_all_iff)
  then have "runs_on assoc (?l ! 0) = Io_context n" "runs_on assoc (?l ! 1) = Io_context n" "?l ! 0 \<noteq> ?l ! 1"
    by (simp_all add: timed_pending_def timer_self_def)
  with sub show ?thesis
    by (intro exI [of _ "?l ! 0"] exI [of _ "?l ! 1"])
      (simp add: active_def active_step_def same_strand_def timed_pending_def)
qed

lemma speak_handlers_overlap_instance:
  "\<exists>h h'. h \<noteq> h' \<and> h \<in> set (timed_pending assoc_ref (Io_context 0) (Member (Io_context 0))) \<and>
    may_run 2 (\<lambda>i. runs_on assoc_ref ([h, h'] ! i)) [] [Begins 0, Begins 1]"
  using speak_handlers_overlap [OF ref_executor.executor_lib_axioms, of 0] by blast

end
