(* ===== verification/Example_Program.thy ===== *)
theory Example_Program
  imports Listener_System Example_Clients
begin

text \<open>
  \<^verbatim>\<open>examples/server/main.cpp\<close> and \<^verbatim>\<open>examples/listener/main.cpp\<close> as whole programs: \<open>main\<close> makes a listener,
  starts its accept loop and spawns a client of it in the same process. When the client is through it
  calls \<open>shutdown\<close>, which posts the cancelling of the accept loop.
\<close>

record ('k, 'h, 'op) program =
  pr_client :: "'k fetcher \<times> (fetch_op, unit) out list"
  pr_server :: "('k accept_st, ('k, 'h) served, 'op served_op) spawned"
  pr_stop :: bool               \<comment> \<open>the shutdown is posted and has not run\<close>

datatype ('k, 'ev) program_ev = Pr_client fetch_ev | Pr_server "('k, 'ev served_ev) spawn_ev"

definition program_new :: "'k session \<Rightarrow> ('k, 'h, 'op) program" where
  "program_new client_session =
     \<lparr>pr_client = (request_op_new client_session, []), pr_server = \<lparr>sw_accept = listener_new None, sw_tasks = []\<rparr>, pr_stop = False\<rparr>"

text \<open>The client's next resumption; at its end the shutdown is posted.\<close>

definition program_client ::
  "('k fetcher \<Rightarrow> fetch_ev \<Rightarrow> 'k fetcher \<times> (fetch_op, unit) out) \<Rightarrow> fetch_ev \<Rightarrow> ('k, 'h, 'op) program \<Rightarrow> ('k, 'h, 'op) program" where
  "program_client client ev p =
     (let c = task_step client ev (pr_client p) in p\<lparr>pr_client := c, pr_stop := pr_stop p \<or> last (snd c) = Return ()\<rparr>)"

inductive program_step ::
  "('k fetcher \<Rightarrow> fetch_ev \<Rightarrow> 'k fetcher \<times> (fetch_op, unit) out) \<Rightarrow> (error_code \<Rightarrow> string) \<Rightarrow> 'k \<Rightarrow>
   ('h \<Rightarrow> 'ev \<Rightarrow> 'h \<times> ('op, error_code \<times> nat) out) \<Rightarrow> 'h \<Rightarrow> 'ev \<Rightarrow>
   ('k, 'h, 'op) program \<Rightarrow> ('k, 'ev) program_ev \<Rightarrow> ('k, 'h, 'op) program \<Rightarrow> bool"
  for client ec_message k handler new start where
  client: "list_all yields (snd (pr_client p)) \<Longrightarrow>
    program_step client ec_message k handler new start p (Pr_client ev) (program_client client ev p)"
| server: "spawn_step (listener_step ec_message k) al_sessions served_new (served_resume handler new start) (pr_server p) e y \<Longrightarrow>
    e \<noteq> Sw_accept A_stop \<Longrightarrow> program_step client ec_message k handler new start p (Pr_server e) (p\<lparr>pr_server := y\<rparr>)"
| stops: "pr_stop p \<Longrightarrow>
    spawn_step (listener_step ec_message k) al_sessions served_new (served_resume handler new start) (pr_server p) (Sw_accept A_stop) y \<Longrightarrow>
    program_step client ec_message k handler new start p (Pr_server (Sw_accept A_stop)) (p\<lparr>pr_server := y, pr_stop := False\<rparr>)"

inductive program_run ::
  "('k fetcher \<Rightarrow> fetch_ev \<Rightarrow> 'k fetcher \<times> (fetch_op, unit) out) \<Rightarrow> (error_code \<Rightarrow> string) \<Rightarrow> 'k \<Rightarrow>
   ('h \<Rightarrow> 'ev \<Rightarrow> 'h \<times> ('op, error_code \<times> nat) out) \<Rightarrow> 'h \<Rightarrow> 'ev \<Rightarrow> 'k session \<Rightarrow>
   ('k, 'ev) program_ev list \<Rightarrow> ('k, 'h, 'op) program \<Rightarrow> bool"
  for client ec_message k handler new start s where
  init: "program_run client ec_message k handler new start s [] (program_new s)"
| step: "program_run client ec_message k handler new start s evs p \<Longrightarrow>
    program_step client ec_message k handler new start p e p' \<Longrightarrow>
    program_run client ec_message k handler new start s (evs @ [e]) p'"

text \<open>What the client and the listener see of a run.\<close>

definition client_part :: "('k, 'ev) program_ev list \<Rightarrow> fetch_ev list" where
  "client_part evs = concat (map (\<lambda>e. case e of Pr_client ev \<Rightarrow> [ev] | _ \<Rightarrow> []) evs)"

definition server_part :: "('k, 'ev) program_ev list \<Rightarrow> ('k, 'ev served_ev) spawn_ev list" where
  "server_part evs = concat (map (\<lambda>e. case e of Pr_server ev \<Rightarrow> [ev] | _ \<Rightarrow> []) evs)"

lemma program_parts_snoc [simp]:
  "client_part [] = []" "client_part (evs @ [Pr_client ev]) = client_part evs @ [ev]" "client_part (evs @ [Pr_server e]) = client_part evs"
  "server_part [] = []" "server_part (evs @ [Pr_client ev]) = server_part evs" "server_part (evs @ [Pr_server e]) = server_part evs @ [e]"
  by (simp_all add: client_part_def server_part_def)

definition stops_of :: "('k, 'ev) spawn_ev list \<Rightarrow> nat" where
  "stops_of evs = length (filter (\<lambda>e. e = Sw_accept A_stop) evs)"

lemma program_invariant:
  "program_run client ec_message k handler new start s evs p \<Longrightarrow>
   coro_run client (request_op_new s) (client_part evs) = pr_client p \<and> length (snd (pr_client p)) = length (client_part evs) \<and>
   listener_system ec_message k handler new start None (server_part evs) (pr_server p) \<and>
   stops_of (server_part evs) + (if pr_stop p then 1 else 0) = (if Return () \<in> set (snd (pr_client p)) then 1 else 0)"
proof (induction rule: program_run.induct)
  case init
  show ?case
    by (simp add: program_new_def stops_of_def listener_system_def spawn_run.init)
next
  case (step evs p e p')
  from step(2) show ?case
  proof cases
    case (client ev)
    obtain c outs where p: "pr_client p = (c, outs)"
      by (cases "pr_client p")
    obtain c' out where r: "client c ev = (c', out)"
      by (cases "client c ev")
    have "coro_run client (request_op_new s) (client_part evs @ [ev]) = (c', outs @ [out])"
      using coro_run_snoc [of client "request_op_new s" "client_part evs" c outs ev] step(3) client(3) p r by simp
    moreover have "Return () \<notin> set outs"
      using client(3) p by (auto simp: list_all_iff)
    ultimately show ?thesis
      using step(3) client p r by (auto simp: program_client_def task_step_def Let_def simp del: coro_run.simps)
  next
    case (server e' y)
    with step(3) show ?thesis
      by (auto simp: stops_of_def listener_system_def simp del: coro_run.simps intro: spawn_run.more)
  next
    case (stops y)
    with step(3) show ?thesis
      by (auto simp: stops_of_def listener_system_def simp del: coro_run.simps intro: spawn_run.more)
  qed
qed

text \<open>
  The listener of the program is shut down at most once and only after the client has completed, which means that its
  request was answered; the server behaves as one that is alone, and so does the client.
\<close>

lemma program_shutdown:
  assumes "program_run client ec_message k handler new start s evs p"
  shows "stops_of (server_part evs) \<le> 1 \<and>
    (stops_of (server_part evs) = 1 \<longrightarrow> last (snd (coro_run client (request_op_new s) (client_part evs))) = Return ()) \<and>
    listener_system ec_message k handler new start None (server_part evs) (pr_server p)"
proof -
  note inv = program_invariant [OF assms]
  have "last outs = Return ()" if "list_all yields (butlast outs)" "Return () \<in> set outs" for outs :: "(fetch_op, unit) out list"
    using that by (cases outs rule: rev_cases) (auto simp: list_all_iff)
  with coro_run_yields [of client "request_op_new s" "client_part evs"] inv show ?thesis
    by (auto split: if_splits simp del: coro_run.simps)
qed

text \<open>The clients complete only when both of their operations have succeeded.\<close>

lemma example_client_completes:
  assumes "Return () \<in> set (snd (coro_run client (request_op_new s) evs))"
    and "client = server_example_client api show_page \<or> client = listener_example_client show_page"
  shows "\<exists>ec ec' r rest. evs = Fe_begin # Fe_connected ec # Fe_response ec' r # rest \<and> \<not> ec_failed ec \<and> \<not> ec_failed ec'"
proof -
  note defs = server_example_client_def listener_example_client_def request_op_new_def
  obtain e es1 f1 out where e: "evs = e # es1" "client (request_op_new s) e = (f1, out)"
      "out = Return () \<or> (\<exists>op. out = Yield op) \<and> Return () \<in> set (snd (coro_run client f1 es1))"
    using coro_completes_first [OF assms(1)] by metis
  then have 1: "e = Fe_begin" "ft_pc f1 = Fe_connecting" "Return () \<in> set (snd (coro_run client f1 es1))"
    using assms(2) by (auto simp: defs split: fetch_ev.splits)
  obtain e2 es2 f2 out2 where e2: "es1 = e2 # es2" "client f1 e2 = (f2, out2)"
      "out2 = Return () \<or> (\<exists>op. out2 = Yield op) \<and> Return () \<in> set (snd (coro_run client f2 es2))"
    using coro_completes_first [OF 1(3)] by metis
  then have 2: "\<exists>ec. e2 = Fe_connected ec \<and> \<not> ec_failed ec" "ft_pc f2 = Fe_requesting" "Return () \<in> set (snd (coro_run client f2 es2))"
    using assms(2) 1(2) by (auto simp: defs split: fetch_ev.splits if_splits)
  obtain e3 es3 f3 out3 where e3: "es2 = e3 # es3" "client f2 e3 = (f3, out3)"
      "out3 = Return () \<or> (\<exists>op. out3 = Yield op) \<and> Return () \<in> set (snd (coro_run client f3 es3))"
    using coro_completes_first [OF 2(3)] by metis
  then have "\<exists>ec r. e3 = Fe_response ec r \<and> \<not> ec_failed ec"
    using assms(2) 2(2) by (auto simp: defs Let_def split: fetch_ev.splits if_splits)
  with e(1) e2(1) e3(1) 1(1) 2(1) show ?thesis
    by blast
qed

end
