(* ===== verification/Fuzz_Parse_Uri.thy ===== *)
theory Fuzz_Parse_Uri
  imports Parse_Uri_Facts
begin

text \<open>
  \<^verbatim>\<open>src/fuzz/parse_uri.cpp\<close>: the entry point of the fuzzer. It parses its input as characters, and
  then the bytes of the input, four at a time, as code points, without the ones that are none. How
  the machine reads four bytes as a number is the argument \<open>load\<close>.
\<close>

definition copied_code_points :: "(string \<Rightarrow> u32) \<Rightarrow> string \<Rightarrow> u32 list" where
  "copied_code_points load data = map (\<lambda>i. load (take 4 (drop (4 * i) data))) [0..<length data div 4]"

definition valid_code_points :: "u32 list \<Rightarrow> u32 list" where
  "valid_code_points points = filter (\<lambda>c. \<not> c > 0x10FFFF) points"

text \<open>The inputs of the two parsers with their results, and the value returned.\<close>

definition fuzz_one_input ::
  "char x3_run \<Rightarrow> u32 x3_run \<Rightarrow> (string \<Rightarrow> u32) \<Rightarrow> string \<Rightarrow>
   (string \<times> char uri_parts) \<times> (u32 list \<times> u32 uri_parts) option \<times> int" where
  "fuzz_one_input run run32 load data =
     (let parts = parse_uri run data; num_code_points = length data div 4
      in if num_code_points = 0 then ((data, parts), None, 0)
         else
           (let unicode_input = valid_code_points (copied_code_points load data)
            in ((data, parts), Some (unicode_input, parse_uri32 run32 unicode_input), 0)))"

text \<open>The parser of code points gets at most a quarter of the bytes, and nothing that is not a code point.\<close>

lemma fuzz_inputs:
  assumes "fuzz_one_input run run32 load data = (narrow, Some (points, parts), status)"
  shows "4 * length points \<le> length data \<and> list_all (\<lambda>c. c \<le> 0x10FFFF) points \<and> parts = parse_uri32 run32 points \<and> status = 0"
proof -
  have "length (valid_code_points (copied_code_points load data)) \<le> length data div 4"
    unfolding valid_code_points_def by (rule order_trans [OF length_filter_le]) (simp add: copied_code_points_def)
  then show ?thesis
    using assms by (auto simp: fuzz_one_input_def Let_def valid_code_points_def list_all_iff split: if_splits)
qed

end
