(* ===== verification/Spec2Isabelle.thy ===== *)
theory Spec2Isabelle
  imports Uri_Properties Pct_Properties Http_Fields_Properties Timed_Op Session_Properties Relay_Properties
    Tunnel_Properties Proxy_Properties Proxy_Accept Listener Speak Shared_Timer Timed_Session
    Allocate_Unique_Properties Example_Server Example_Load Example_Google Example_Clients Example_Ip_Parser
    Listener_System Proxy_System Timed_Proxy_System Executors Example_Program Fuzz_Parse_Uri
begin

text \<open>
  A model of the C++ library foxy: URIs and percent-encoding, HTTP sessions over plain and
  encrypted streams with timeouts, and a forward proxy built from them. Definitions follow the
  files under \<^verbatim>\<open>src/include\<close>, \<^verbatim>\<open>src/src\<close> and \<^verbatim>\<open>src/examples\<close> and keep their names.

  \<^bold>\<open>The parts and their theories.\<close>

  \<^item> URIs. \<open>X3\<close> has the parser combinators of Boost.Spirit X3 that the code uses, as a datatype,
    with the locale \<open>x3_lib\<close> for what the library does with them. \<open>Uri_Grammar\<close> and
    \<open>Uri_Unicode\<close> are the rules of \<^verbatim>\<open>uri.hpp\<close> on characters and on code points, \<open>Uri_Parts\<close> is
    \<^verbatim>\<open>uri_parts.hpp\<close>, \<open>Parse_Uri\<close> is \<^verbatim>\<open>parse_uri.cpp\<close>. \<open>Uri_Lang\<close> and \<open>Uri_Host\<close> show what the rules
    match, \<open>Uri_Spec\<close> states what a complete URI and an authority form are, \<open>Parse_Uri_Correct\<close>,
    \<open>Parse_Uri_Facts\<close> and \<open>Parse_Uri32\<close> relate the parsers to it and to each other, and
    \<open>Uri_Properties\<close> has the theorems.
  \<^item> Text. \<open>Utf8\<close> is \<^verbatim>\<open>utf8.hpp\<close> with the code point views and iterators, \<open>Pct_Encode\<close> and
    \<open>Pct_Decode\<close> are \<^verbatim>\<open>pct_encode.hpp\<close> and \<^verbatim>\<open>pct_decode.hpp\<close>, \<open>Foxy_Error\<close> is \<^verbatim>\<open>error.hpp\<close>, \<open>Foxy_Log\<close> is
    \<^verbatim>\<open>log.cpp\<close>; \<open>Pct_Properties\<close> has the theorems.
  \<^item> Header fields. \<open>Http_Fields\<close> is \<^verbatim>\<open>export_connect_fields.hpp\<close> and \<^verbatim>\<open>has_token.hpp\<close>;
    \<open>Http_Message\<close> states what the proxy uses of messages.
  \<^item> Asynchronous operations. \<open>Coro\<close> is the common form of the stackless coroutines: a resumption
    takes a state and an event and gives a state and an output. \<open>Timed_Op\<close> is
    \<^verbatim>\<open>timed_op_wrapper_v3.hpp\<close>, a step relation over all interleavings of the completion of the
    operation, the expiry of the timer and its re-arming. \<open>Shared_Timer\<close> has any number of such
    operations on the one timer of a session, which abort each other's waits.
  \<^item> Sessions. \<open>Certify\<close> is \<^verbatim>\<open>utility.hpp\<close> and \<^verbatim>\<open>utility.cpp\<close>; \<open>Session\<close> is \<^verbatim>\<open>multi_stream.hpp\<close>,
    \<^verbatim>\<open>close_stream.hpp\<close>, \<^verbatim>\<open>type_traits.hpp\<close>, \<^verbatim>\<open>session_opts.hpp\<close>, \<^verbatim>\<open>session.hpp\<close> and everything
    under \<^verbatim>\<open>impl/\<close>. \<open>Timed_Session\<close> composes the two: a coroutine of a session run by
    \<open>async_timer\<close>, whose expiry closes the session's stream. What closing does to the operation that
    is pending is the record \<open>closing\<close>: it can only come back as aborted unless its completion was
    queued before, except that the resolver is not affected; an operation started on the closed
    stream may have any result.
  \<^item> Memory. \<open>Allocate_Unique\<close> is \<^verbatim>\<open>boost/smart_ptr/allocate_unique.hpp\<close>, from which the frames of
    \<open>async_connect\<close> and \<open>speak\<close> come: type traits on a datatype of C++ types, sizes as 64 bit
    words, a store of blocks, exceptions as values. \<open>Allocate_Unique_Properties\<close> has the theorems.
  \<^item> The proxy. \<open>Relay\<close> is \<^verbatim>\<open>relay.hpp\<close> with its buffer and the pointer, size and \<open>more\<close> of its bodies, \<open>Tunnel\<close> is \<^verbatim>\<open>tunnel.hpp\<close>, \<open>Proxy\<close> is the coroutine of one
    connection in \<^verbatim>\<open>proxy.cpp\<close> and its composition with the tunnel, the relay and the shutdowns
    it runs, \<open>Proxy_Accept\<close> is the accept loop of \<^verbatim>\<open>proxy.cpp\<close>. \<open>Proxy_Flow\<close> is a connection seen from
    the operations of its two sessions, \<open>Timed_Proxy\<close> gives each of these operations its timer, and
    \<open>Timed_Proxy_System\<close> is the whole proxy of such connections.
  \<^item> Servers and clients. \<open>Listener\<close> is \<^verbatim>\<open>listener.hpp\<close>, \<open>Speak\<close> is \<^verbatim>\<open>speak.hpp\<close>; \<open>Acceptor\<close> has what
    the two accept loops share, \<open>Spawning\<close> a loop together with the coroutines it posts;
    \<open>Listener_System\<close> and \<open>Proxy_System\<close> are the whole listener and the whole proxy.
  \<^item> Threads. \<open>Executors\<close> has the executors of all these objects (their \<open>get_executor\<close>), the handlers that
    they hand to Asio and Beast, and what it takes that handlers do not run at the same time.
  \<^item> Examples. \<open>Example_Server\<close> has the request handlers of the two servers in a session of
    \<open>Listener\<close>, \<open>Example_Load\<close> the 128 clients of \<^verbatim>\<open>https_server\<close> with their shared counter,
    \<open>Example_Google\<close> the search handler of \<^verbatim>\<open>examples/listener\<close>, \<open>Example_Clients\<close> the three
    clients, \<open>Example_Program\<close> the two programs that are server and client in one, and
    \<open>Example_Ip_Parser\<close> the address parser. \<open>Fuzz_Parse_Uri\<close> is the entry point of the fuzzer.

  \<^bold>\<open>How the code is represented.\<close> Structures are records, alternatives are datatypes, a view is
  the list of its characters, 32-bit code points are words. A coroutine is its state with the
  point to resume at; what it waits for is the operation it yields, and the result of that
  operation is the event it is resumed with. Errors are error codes in the results, exceptions
  and the termination of the program are outputs of their own. An event that the awaited
  operation cannot produce gives \<open>Mismatch\<close>. Accept loops and timers are step relations, because
  there the order of concurrent completions matters; their runs are inductive.

  \<^bold>\<open>Interfaces.\<close> Code outside the repository is a parameter, and a locale states what its
  documentation promises: \<open>x3_lib\<close> (Boost.Spirit X3), \<open>hex_gen\<close> (Karma), \<open>utf_codec\<close>
  (Boost.Locale), \<open>beast_fields\<close> and \<open>http_lib\<close> (Boost.Beast), \<open>openssl_lib\<close> (OpenSSL),
  \<open>socket_lib\<close> (sockets of Boost.Asio), \<open>alloc_lib\<close> (allocators and Boost.Core), \<open>assoc_lib\<close> with
  \<open>executor_lib\<close> (associated executors) and \<open>strand_lib\<close> (strands on any number of threads). Each is interpreted by a reference implementation, at
  which the witnesses evaluate. The locales \<open>coro_inv\<close>, \<open>coro_copy\<close>, \<open>coro_rel\<close> and
  \<open>coro_final\<close> give the invariants of runs and are interpreted on the relay, the tunnel and the
  proxy; \<open>accept_loop\<close> is the contract of an accept loop and is interpreted on both of them;
  \<open>spawning\<close> is what makes posted coroutines independent, and is interpreted on both loops too;
  \<open>timed_closing\<close> says that nothing undoes the closing of a stream by the timer, and holds of every
  operation that only reads and writes, of both shutdowns, and of every operation of a proxy connection.
  Of OpenSSL it is not assumed that a call that fails queues an error, and names are set as null-terminated
  strings. Of Beast, setting a message chunked erases its Content-Length.

  \<^bold>\<open>What is shown.\<close> Of \<open>parse_uri\<close>: it refines the abstract forms, composed URIs parse back, the
  two character types agree on ASCII. Of the encoders: what they write is well-formed and
  decodes to the text. Of a timed operation: its handler is called exactly once, it ends, and it
  closes the stream only when the timer has expired; put around a coroutine it refines this
  race and does not change what the coroutine does; a request that its timer has cut off is aborted,
  a connect that is resolving is not; operations that share a timer refine it too,
  and end when they do not overlap. Of sessions: a verifying client sets the
  names before the handshake unless OpenSSL fails without an error, shutdowns close the sockets. Of the relay: it forwards exactly the
  right header, copies bodies through its buffer in every run, completes a whole exchange, and refuses what a relay
  has signed. Of the tunnel: which requests reach which remote, and that refused requests without a
  body leave no trace. Of a proxy connection: a whole CONNECT session; that with all its timers it refines the
  connection without them, resumed with the results that its timed operations have passed to their
  handlers, with nothing outstanding when a handler is called; that it waits under a
  deadline or on a socket that the deadline has closed, but for the detection of TLS and a connect; that a
  silent client is dropped; and that every connection that ends has closed the socket of the client, and
  that of the remote unless it is encrypted. Of the handlers: those of one connection, session or loop run on its strand and
  so one at a time, which is what makes the steps of the relations here atomic. Of the accept loops: each accepted socket is served once and in order,
  and a listener that is shut down stops. The coroutines they post have states of their own in the
  model, as they have in the code, and run in any interleaving. Of the factories of owners: they are exception safe, their
  sizes agree when constructing and destroying, and their owners are well typed. Of the
  examples: a whole session of a server, the exact moment the load test shuts its listener
  down, and that a search text stays in the query. The theorems on deviations (the list of scheme
  characters, upper-case hexadecimal digits, addresses as prefixes of hosts, the dereferencing
  of iterators, the case of connection options, lost read errors, refusals that leave a tunnel
  open, one request for each tunnel, lost cancellations, the arguments of the handler of
  \<open>speak\<close>, operations that keep re-arming a shared timer, a connection that outlives its deadline,
  the detection of TLS that has none, OpenSSL calls whose failure nothing reports, bodies of refused
  requests that are left unread, handlers of \<open>speak\<close> that overlap)
  state what the code does where it differs from its documentation or its purpose.

  \<^bold>\<open>Bounds.\<close> Parsing is total: a Kleene star stops when its argument takes nothing, and loops
  over characters are recursive on the rest of the input, so no fuel is used. Runs of coroutines
  are over lists of events of any length. Bodies come in any number of reads of at most the 2048
  bytes of the relay's buffer (\<open>buffer_size\<close>); a \<open>chunk\<close> is what one read can put there. Sizes of
  allocations wrap at 64 bits; that a block of the store is smaller than that makes the products exact.

  \<^bold>\<open>Not modelled.\<close> Bytes on the wire, the parsers and serialisers of Beast, DNS, TLS and sockets
  are libraries: their results are events. The clock has no value: a timer may expire at any time while
  it is armed. The first statements of \<open>async_accept\<close> of the proxy run on the thread of the caller and not on the
  strand. The workarounds of \<^verbatim>\<open>allocate_unique.hpp\<close> for
  old compilers are left out; \<^verbatim>\<open>asio.cpp\<close>, \<^verbatim>\<open>beast.cpp\<close> and \<^verbatim>\<open>uri.cpp\<close> only instantiate
  templates; the tests use the library.
\<close>

section \<open>Properties that span the components\<close>

text \<open>
  C3: a whole connection of the proxy without a TLS context, whose operations succeed. After a
  persistent \<open>CONNECT\<close> to an IPv4 address or to a name that does not start with one the proxy
  connects to it and says so; one request and its response, neither of which carries the proxy's
  own Via entry, then pass through the relay, in any number of reads; when one of them is the last
  on its connection, the connection is shut down and ends, whatever its last read reports.
\<close>

theorem proxy_serves_connect:
  assumes "http_lib (pe_http env)" "simple_host h" "h \<noteq> []" "port_text pt po"
    and "msg_method creq = ''CONNECT''" "msg_target creq = h @ pt" "ha_parser_keep_alive (pe_http env) creq"
    and "\<not> signed (pe_http env) req" "\<not> signed (pe_http env) res" "exchange_close (pe_http env) req res"
    and "so_ssl_ctx opts = None"
  shows "snd (proxy_connection env new_socket (Plain k) opts
      (map Ev_tunnel (connect_events creq is_done ec is_ssl) @ map Ev_relay (exchange_events req cs res ds) @
       [Ev_session (Done ec2 n)])) =
    map Yield (map Op_tunnel [Read_request, Connect h (if po = [] then ''http'' else po), Respond new_response, Detect_client_ssl] @
      map Op_relay (Server_read_header # exchange_ops (pe_http env) req cs res ds) @ [Op_session (Read_some 1024)]) @ [Return ()]"
proof -
  let ?c = "(connection_new new_socket (Plain k) opts)\<lparr>cn_pc := P_relay\<rparr>"
  have "cn_pc ?c = P_relay" "se_stream (cn_session ?c) = Plain k" "se_stream (cn_client ?c) = Plain new_socket"
    using assms(11) by (simp_all add: connection_new_def session_of_stream_def session_of_executor_def ms_plain_of_def)
  from after_last_relay [OF this, of env ec2 n] show ?thesis
    using connect_and_exchange [OF assms(1-9)] assms(10,11) by (simp add: service_for_def)
qed

definition sample_close :: message where
  "sample_close = empty_message\<lparr>msg_method := ''GET'', msg_target := ''/'', msg_fields := [(''Connection'', ''close'')]\<rparr>"

lemma sample_connect_facts:
  "port_text '':443'' ''443''" "simple_host ''a.b''" "http_lib (pe_http proxy_ref)"
  "msg_target sample_connect = ''a.b'' @ '':443''" "msg_method sample_connect = ''CONNECT''"
  "ha_parser_keep_alive (pe_http proxy_ref) sample_connect"
  by (simp_all add: sample_connect_ok) (simp_all add: sample_connect_def)

lemma sample_messages:
  "\<not> signed (pe_http proxy_ref) sample_close" "exchange_close (pe_http proxy_ref) sample_close empty_message"
  "\<not> signed (pe_http proxy_ref) empty_message" "\<not> exchange_close (pe_http proxy_ref) empty_message empty_message"
  by code_simp+

theorem proxy_serves_connect_witness:
  "last (snd (proxy_connection proxy_ref True (Plain True) default_opts
      (map Ev_tunnel (connect_events sample_connect True no_error (Some False)) @
       map Ev_relay (exchange_events sample_close [chunk_of ''ab''] empty_message [chunk_of ''c'', chunk_of ''d'']) @ [Ev_session (Done asio_eof 0)]))) =
   Return ()"
  using proxy_serves_connect [OF sample_connect_facts(3,2) _ sample_connect_facts(1,5,4,6) sample_messages(1,3,2), of default_opts]
  by (simp add: default_opts_def)

text \<open>
  A tunnel serves one request. When the exchange leaves both connections open, the proxy
  reads the next request as one for a new tunnel; the next request of a client that still
  uses the first one, which names no remote, is answered with status 400.
\<close>

lemma proxy_one_request_per_tunnel:
  assumes "http_lib (pe_http env)" "simple_host h" "h \<noteq> []" "port_text pt po"
    and "msg_method creq = ''CONNECT''" "msg_target creq = h @ pt" "ha_parser_keep_alive (pe_http env) creq"
    and "\<not> signed (pe_http env) req" "\<not> signed (pe_http env) res" "\<not> exchange_close (pe_http env) req res"
    and "\<not> admitted (pe_http env) req2"
  shows "\<exists>ops. snd (proxy_connection env new_socket stream opts
      (map Ev_tunnel (connect_events creq is_done ec is_ssl) @ map Ev_relay (exchange_events req cs res ds) @
       [Ev_tunnel (Request no_error req2 is_done2)])) =
    map Yield (ops @ [Op_tunnel Read_request, Op_tunnel (Respond refusal)])"
proof -
  let ?c = "(connection_new new_socket stream opts)\<lparr>cn_pc := P_tunnel\<rparr>"
  obtain t where "tunnel_resume (pe_http env) (pe_message env) (client_ssl ?c) (tunnel_init\<lparr>u_pc := T_header\<rparr>)
      (Request no_error req2 is_done2) = (t, Yield (Respond refusal))"
    using tunnel_refuses [OF _ assms(11), of "tunnel_init\<lparr>u_pc := T_header\<rparr>" "pe_message env" "client_ssl ?c" is_done2] by auto
  then have "snd (coro_run (proxy_resume env) (?c, In_tunnel (tunnel_init\<lparr>u_pc := T_header\<rparr>))
      [Ev_tunnel (Request no_error req2 is_done2)]) = [Yield (Op_tunnel (Respond refusal))]"
    by (simp add: px_tunnel_step_def nest_def)
  then show ?thesis
    unfolding connect_and_exchange [OF assms(1-9)] using assms(10)
    by (intro exI [of _ "map Op_tunnel [Read_request, Connect h (service_for (so_ssl_ctx opts \<noteq> None) po),
        Respond new_response, Detect_client_ssl] @
        map Op_relay (Server_read_header # exchange_ops (pe_http env) req cs res ds)"]) (simp add: after_relay)
qed

lemma proxy_one_request_per_tunnel_instance:
  "\<exists>ops. snd (proxy_connection proxy_ref True (Plain True) default_opts
      (map Ev_tunnel (connect_events sample_connect True no_error (Some False)) @
       map Ev_relay (exchange_events empty_message [] empty_message [chunk_of ''c'', chunk_of ''d'']) @
       [Ev_tunnel (Request no_error sample_origin True)])) =
    map Yield (ops @ [Op_tunnel Read_request, Op_tunnel (Respond refusal)])"
proof -
  have "\<not> admitted (pe_http proxy_ref) sample_origin"
    using sample_origin_refused by (simp add: proxy_ref_def)
  from proxy_one_request_per_tunnel [OF sample_connect_facts(3,2) _ sample_connect_facts(1,5,4,6)
      sample_messages(3,3,4) this] show ?thesis
    by simp
qed

text \<open>
  C38: after a request that is not served, on a connection that does not persist, the proxy
  does not close the connection: it reads another request and forwards its header to a remote
  that it has never connected to.
\<close>

theorem proxy_relays_after_refusal:
  assumes "\<not> admitted (pe_http env) req" "\<not> ha_parser_keep_alive (pe_http env) req" "\<not> signed (pe_http env) req2"
  shows "\<exists>h. snd (proxy_connection env new_socket stream opts
      (map Ev_tunnel [Request no_error req is_done, Responded no_error, On_detect ec is_ssl] @
       [Ev_relay (Header no_error req2 is_done2)])) =
    map Yield [Op_tunnel Read_request, Op_tunnel (Respond refusal), Op_tunnel Detect_client_ssl,
      Op_relay Server_read_header, Op_relay (Client_write_header h)]"
proof -
  let ?i = "relay_init\<lparr>r_pc := R_req_header\<rparr>"
  obtain s h where "relay_resume (pe_http env) ?i (Header no_error req2 is_done2) = (s, Yield (Client_write_header h))"
    using header_steps(2) [OF _ assms(3), of ?i is_done2 False] by auto
  then show ?thesis
    unfolding proxy_begins
    by (subst tunnel_inside [OF refused_run [OF assms(1,2)]])
       (simp_all add: after_tunnel px_relay_step_def nest_def)
qed

theorem proxy_relays_after_refusal_witness:
  "\<exists>h. snd (proxy_connection proxy_ref True (Plain True) default_opts
      (map Ev_tunnel [Request no_error sample_close True, Responded no_error, On_detect no_error None] @
       [Ev_relay (Header no_error sample_close True)])) =
    map Yield [Op_tunnel Read_request, Op_tunnel (Respond refusal), Op_tunnel Detect_client_ssl,
      Op_relay Server_read_header, Op_relay (Client_write_header h)]"
proof -
  have "\<not> admitted (pe_http proxy_ref) sample_close" "\<not> ha_parser_keep_alive (pe_http proxy_ref) sample_close"
    by code_simp+
  from proxy_relays_after_refusal [OF this sample_messages(1)] show ?thesis .
qed

end
